theory Spec2Isabelle
  imports Complex_Main "HOL-Library.Sublist" "HOL-Library.AList" "HOL-Library.Log_Nat"
begin

section \<open>Python values\<close>

subsection \<open>Strings\<close>

text \<open>
  A Python \<open>str\<close> is a sequence of Unicode code points; \<open>len\<close>, slicing and
  \<open>in\<close> count code points. A string is therefore a list of code points, each a
  natural number. \<open>asc\<close> turns an ASCII literal into such a list; characters of the
  source's literals outside ASCII (accents, emoji) are written by their code point.
\<close>

type_synonym pychar = nat
type_synonym pystr = "pychar list"

abbreviation (input) asc :: "string \<Rightarrow> pystr" where
  "asc s \<equiv> map of_char s"

text \<open>\<open>str.isspace\<close> for one character: the code points CPython treats as whitespace.\<close>

definition py_isspace :: "pychar \<Rightarrow> bool" where
  "py_isspace c \<longleftrightarrow>
     (9 \<le> c \<and> c \<le> 13) \<or> (28 \<le> c \<and> c \<le> 32) \<or> c = 133 \<or> c = 160 \<or> c = 5760 \<or>
     (8192 \<le> c \<and> c \<le> 8202) \<or> c = 8232 \<or> c = 8233 \<or> c = 8239 \<or> c = 8287 \<or> c = 12288"

text \<open>\<open>s.strip()\<close>: leading and trailing whitespace removed.\<close>

definition str_strip :: "pystr \<Rightarrow> pystr" where
  "str_strip s = rev (dropWhile py_isspace (rev (dropWhile py_isspace s)))"

text \<open>\<open>s.rstrip(chars)\<close>: trailing characters that occur in \<open>chars\<close> removed.\<close>

definition str_rstrip :: "pystr \<Rightarrow> pystr \<Rightarrow> pystr" where
  "str_rstrip chars s = rev (dropWhile (\<lambda>c. c \<in> set chars) (rev s))"

text \<open>\<open>s.count(c)\<close> for a one-character \<open>c\<close>.\<close>

definition str_count :: "pychar \<Rightarrow> pystr \<Rightarrow> nat" where
  "str_count c s = length (filter (\<lambda>x. x = c) s)"

text \<open>\<open>needle in hay\<close> on strings: \<open>needle\<close> occurs as a contiguous substring.\<close>

fun str_contains :: "pystr \<Rightarrow> pystr \<Rightarrow> bool" where
  "str_contains needle [] = (needle = [])"
| "str_contains needle (c # cs) = (prefix needle (c # cs) \<or> str_contains needle cs)"

text \<open>\<open>sep.join(xs)\<close>.\<close>

fun str_join :: "pystr \<Rightarrow> pystr list \<Rightarrow> pystr" where
  "str_join sep [] = []"
| "str_join sep [x] = x"
| "str_join sep (x # y # ys) = x @ sep @ str_join sep (y # ys)"

text \<open>\<open>str(n)\<close> for an integer, as an f-string renders it: decimal digits, a minus sign
  for a negative number.\<close>

fun str_nat :: "nat \<Rightarrow> pystr" where
  "str_nat n = (if n < 10 then [48 + n] else str_nat (n div 10) @ [48 + n mod 10])"

declare str_nat.simps [simp del]

definition str_int :: "int \<Rightarrow> pystr" where
  "str_int i = (if i < 0 then 45 # str_nat (nat (- i)) else str_nat (nat i))"

subsection \<open>Decoded JSON\<close>

text \<open>
  What \<open>json.loads\<close> returns: \<open>None\<close>, a \<open>bool\<close>, an \<open>int\<close>, a \<open>float\<close>,
  a \<open>str\<close>, a \<open>list\<close> or a \<open>dict\<close> with string keys. A dict is an association list
  read with \<open>map_of\<close> and written with \<open>AList.update\<close>. A float is a rational or one of
  the three values \<open>json.loads\<close> accepts beyond them.
\<close>

datatype pyfloat = Finite rat | PosInf | NegInf | NaN

datatype json =
    JNull
  | JBool bool
  | JInt int
  | JFloat pyfloat
  | JStr pystr
  | JList "json list"
  | JDict "(pystr \<times> json) list"

text \<open>Truth value of an object in a condition (\<open>if result:\<close>).\<close>

fun truthy :: "json \<Rightarrow> bool" where
  "truthy JNull = False"
| "truthy (JBool b) = b"
| "truthy (JInt i) = (i \<noteq> 0)"
| "truthy (JFloat f) = (f \<noteq> Finite 0)"
| "truthy (JStr s) = (s \<noteq> [])"
| "truthy (JList xs) = (xs \<noteq> [])"
| "truthy (JDict kvs) = (kvs \<noteq> [])"

subsection \<open>Exceptions\<close>

text \<open>An exception is its class, as far as the handlers tell classes apart, and the
  text \<open>str(e)\<close>.\<close>

datatype exn_class = JSONDecodeError | ValueError | TypeError | KeyError | OtherException

datatype exn = Exn exn_class pystr

fun exn_str :: "exn \<Rightarrow> pystr" where
  "exn_str (Exn c m) = m"

fun exn_class_of :: "exn \<Rightarrow> exn_class" where
  "exn_class_of (Exn c m) = c"

subsection \<open>Time\<close>

text \<open>
  A \<open>datetime\<close> is a number of microseconds on the clock's axis and a \<open>timedelta\<close>
  a difference of two, the resolution of both Python types.
\<close>

type_synonym datetime = int
type_synonym timedelta = int

text \<open>
  \<open>timedelta.total_seconds()\<close> divides the number of microseconds by \<open>10**6\<close> with
  Python's true division of integers, whose result is a float: the double nearest to the
  exact quotient, a tie going to the even mantissa. \<open>true_divide\<close> is that division for
  a positive divisor. For positive operands \<open>binade\<close> is the integer part of the binary
  logarithm of the quotient, \<open>mantissa\<close> the quotient scaled by a power of two and
  rounded to an integer, here one of 53 bits, and \<open>nearest_double\<close> the double, given as
  the rational number it denotes. A \<open>timedelta\<close> is below \<open>10^9\<close> days in magnitude, so its
  quotient by \<open>10**6\<close> is zero or a normal double; overflow and gradual underflow, which
  these operands do not reach, are not modelled.
\<close>

definition round_half_even :: "int \<Rightarrow> int \<Rightarrow> int" where
  "round_half_even a b =
     (let q = a div b; r = a mod b
      in if 2 * r < b then q else if b < 2 * r then q + 1 else if even q then q else q + 1)"

definition binade :: "int \<Rightarrow> int \<Rightarrow> int" where
  "binade a b =
     (let k = bitlen a - bitlen b
      in if (if 0 \<le> k then b * 2 ^ nat k \<le> a else b \<le> a * 2 ^ nat (- k)) then k else k - 1)"

definition mantissa :: "int \<Rightarrow> int \<Rightarrow> int \<Rightarrow> int" where
  "mantissa e a b =
     (if 0 \<le> e then round_half_even a (b * 2 ^ nat e) else round_half_even (a * 2 ^ nat (- e)) b)"

definition nearest_double :: "int \<Rightarrow> int \<Rightarrow> rat" where
  "nearest_double a b = (let e = binade a b - 52 in of_int (mantissa e a b) * power_int 2 e)"

definition true_divide :: "int \<Rightarrow> int \<Rightarrow> rat" where
  "true_divide a b =
     (if a = 0 then 0 else if 0 < a then nearest_double a b else - nearest_double (- a) b)"

definition total_seconds :: "timedelta \<Rightarrow> rat" where
  "total_seconds td = true_divide td 1000000"

text \<open>\<open>int(x)\<close> of a float truncates towards zero.\<close>

definition py_int :: "rat \<Rightarrow> int" where
  "py_int x = (if 0 \<le> x then \<lfloor>x\<rfloor> else \<lceil>x\<rceil>)"

section \<open>Session state\<close>

text \<open>The field of \<open>st.session_state\<close> the rate gate reads and the pipeline writes;
  \<open>None\<close> is the value the application initialises it with.\<close>

record session =
  last_api_call :: "datetime option"

section \<open>Rate gate\<close>

text \<open>\<open>can_make_api_call\<close> of \<open>streamlit_app.py\<close>. \<open>now\<close> is what \<open>datetime.now()\<close>
  returns; the session state is returned as the function leaves it.\<close>

definition can_make_api_call :: "datetime \<Rightarrow> rat \<Rightarrow> session \<Rightarrow> bool \<times> session" where
  "can_make_api_call now min_interval_seconds st =
     (case last_api_call st of
        None \<Rightarrow> (True, st)
      | Some t \<Rightarrow>
          (let time_since_last_call = now - t
           in (total_seconds time_since_last_call \<ge> min_interval_seconds, st)))"

definition rate_limit_message :: "int \<Rightarrow> pystr" where
  "rate_limit_message remaining =
     [9201, 65039] @ asc '' Aguarde '' @ str_int remaining @
     asc '' segundo(s) antes da pr'' @ [243] @ asc ''xima an'' @ [225] @
     asc ''lise (rate limiting)''"

text \<open>\<open>check_rate_limit_status\<close> of \<open>validators.py\<close>.\<close>

definition check_rate_limit_status :: "datetime \<Rightarrow> session \<Rightarrow> (bool \<times> pystr option) \<times> session" where
  "check_rate_limit_status now st =
     (case last_api_call st of
        Some t \<Rightarrow>
          (let time_since_last = now - t
           in if total_seconds time_since_last < 3
              then (let remaining = 3 - py_int (total_seconds time_since_last)
                    in ((False, Some (rate_limit_message remaining)), st))
              else ((True, None), st))
      | None \<Rightarrow> ((True, None), st))"

section \<open>Error classifier\<close>

text \<open>
  \<open>get_friendly_error_message\<close> of \<open>validators.py\<close>. \<open>str.lower\<close> is Python's
  Unicode case mapping, a function of the standard library: it is the parameter
  \<open>lower\<close>. The argument \<open>error\<close> is \<open>str(error)\<close>.
\<close>

definition msg_api_key :: pystr where
  "msg_api_key = [10060] @ asc '' API key inv'' @ [225] @ asc ''lida. Verifique sua configura'' @
     [231, 227] @ asc ''o em .streamlit/secrets.toml''"

definition msg_quota :: pystr where
  "msg_quota = [9201, 65039] @
     asc '' Limite de uso da API excedido. Aguarde alguns minutos ou use outra API key.''"

definition msg_rate_limit :: pystr where
  "msg_rate_limit = [128678] @ asc '' Muitas requisi'' @ [231, 245] @
     asc ''es em pouco tempo. Aguarde alguns segundos e tente novamente.''"

definition msg_timeout :: pystr where
  "msg_timeout = [8987] @ asc '' Tempo de resposta excedido. Tente novamente.''"

definition msg_connection :: pystr where
  "msg_connection = [127760] @ asc '' Erro de conex'' @ [227] @
     asc ''o com a API. Verifique sua internet e tente novamente.''"

definition msg_permission :: pystr where
  "msg_permission = [128274] @ asc '' Permiss'' @ [227] @
     asc ''o negada. Verifique se a API Gemini est'' @ [225] @ asc '' habilitada no seu projeto.''"

definition msg_not_found :: pystr where
  "msg_not_found = [128269] @ asc '' Recurso n'' @ [227] @
     asc ''o encontrado. Verifique se o modelo est'' @ [225] @ asc '' dispon'' @ [237] @ asc ''vel.''"

definition msg_invalid_request :: pystr where
  "msg_invalid_request = [9888, 65039] @ asc '' Requisi'' @ [231, 227] @ asc ''o inv'' @ [225] @
     asc ''lida. Verifique os dados fornecidos.''"

definition msg_generic_prefix :: pystr where
  "msg_generic_prefix = [10060] @ asc '' Erro inesperado: ''"

definition get_friendly_error_message :: "(pystr \<Rightarrow> pystr) \<Rightarrow> pystr \<Rightarrow> pystr" where
  "get_friendly_error_message lower error =
     (let error_str = lower error
      in if str_contains (asc ''api_key_invalid'') error_str \<or>
            str_contains (asc ''invalid api key'') error_str then msg_api_key
         else if str_contains (asc ''quota'') error_str \<or>
            str_contains (asc ''limit exceeded'') error_str then msg_quota
         else if str_contains (asc ''rate limit'') error_str then msg_rate_limit
         else if str_contains (asc ''timeout'') error_str then msg_timeout
         else if str_contains (asc ''connection'') error_str \<or>
            str_contains (asc ''network'') error_str then msg_connection
         else if str_contains (asc ''permission'') error_str \<or>
            str_contains (asc ''forbidden'') error_str then msg_permission
         else if str_contains (asc ''not found'') error_str then msg_not_found
         else if str_contains (asc ''invalid argument'') error_str \<or>
            str_contains (asc ''invalid request'') error_str then msg_invalid_request
         else msg_generic_prefix @ take 100 error)"

text \<open>The keywords the classifier looks for, and \<open>str.lower\<close> on ASCII text, where it
  maps \<open>A\<close>..\<open>Z\<close> to \<open>a\<close>..\<open>z\<close> and nothing else.\<close>

definition known_keywords :: "pystr list" where
  "known_keywords =
     [asc ''api_key_invalid'', asc ''invalid api key'', asc ''quota'', asc ''limit exceeded'',
      asc ''rate limit'', asc ''timeout'', asc ''connection'', asc ''network'',
      asc ''permission'', asc ''forbidden'', asc ''not found'', asc ''invalid argument'',
      asc ''invalid request'']"

definition matches_known_category :: "pystr \<Rightarrow> bool" where
  "matches_known_category error_str = list_ex (\<lambda>k. str_contains k error_str) known_keywords"

definition ascii_lower :: "pystr \<Rightarrow> pystr" where
  "ascii_lower s = map (\<lambda>c. if 65 \<le> c \<and> c \<le> 90 then c + 32 else c) s"

section \<open>Context accumulator\<close>

text \<open>
  \<open>ContextManager\<close> of \<open>context_manager.py\<close>. The context is the dict kept in
  \<open>st.session_state[session_key]\<close>, with the keys \<open>timestamp\<close> (here \<open>ctx_timestamp\<close>),
  \<open>especialidade\<close> and \<open>entries\<close>; an entry is a dict with the keys \<open>timestamp\<close>,
  \<open>tipo\<close> and \<open>conteudo\<close>. Every method takes the context and, where it writes,
  returns the new one.
\<close>

record entry =
  timestamp :: pystr
  tipo :: pystr
  conteudo :: pystr

record medical_context =
  ctx_timestamp :: pystr
  especialidade :: pystr
  entries :: "entry list"

text \<open>
  Functions of the standard library that the text rendering calls: \<open>str.upper\<close>,
  \<open>json.dumps(context, indent=2, ensure_ascii=False)\<close>, and
  \<open>datetime.fromisoformat(s).strftime("%d/%m/%Y %H:%M:%S")\<close>, which is \<open>None\<close> where
  \<open>fromisoformat\<close> raises.
\<close>

record textlib =
  str_upper :: "pystr \<Rightarrow> pystr"
  json_dumps :: "medical_context \<Rightarrow> pystr"
  iso_strftime :: "pystr \<Rightarrow> pystr option"

text \<open>\<open>add_information(texto, tipo)\<close>; \<open>now_iso\<close> is \<open>datetime.now().isoformat()\<close>.\<close>

definition add_information :: "pystr \<Rightarrow> pystr \<Rightarrow> pystr \<Rightarrow> medical_context \<Rightarrow> medical_context" where
  "add_information now_iso texto tipo' ctx =
     (if texto = [] \<or> str_strip texto = [] then ctx
      else (let entry = \<lparr>timestamp = now_iso, tipo = tipo', conteudo = str_strip texto\<rparr>
            in ctx\<lparr>entries := entries ctx @ [entry]\<rparr>))"

text \<open>\<open>get_entries()\<close>: a copy of the list of entries.\<close>

definition get_entries :: "medical_context \<Rightarrow> entry list" where
  "get_entries ctx = entries ctx"

text \<open>\<open>_format_timestamp\<close>: the display form, or the string itself when it is not an
  ISO timestamp.\<close>

definition format_timestamp :: "textlib \<Rightarrow> pystr \<Rightarrow> pystr" where
  "format_timestamp L timestamp_str =
     (case iso_strftime L timestamp_str of Some s \<Rightarrow> s | None \<Rightarrow> timestamp_str)"

text \<open>The four lines the loop of \<open>get_full_context\<close> appends for the entry number
  \<open>idx\<close>.\<close>

definition entry_lines :: "textlib \<Rightarrow> nat \<times> entry \<Rightarrow> pystr list" where
  "entry_lines L = (\<lambda>(idx, entry).
     [[10] @ asc ''['' @ str_nat idx @ asc ''] '' @ str_upper L (tipo entry),
      asc ''Timestamp: '' @ format_timestamp L (timestamp entry),
      asc ''Conte'' @ [250] @ asc ''do: '' @ conteudo entry,
      replicate 60 45])"

text \<open>\<open>get_full_context(format_type)\<close>.\<close>

definition get_full_context :: "textlib \<Rightarrow> pystr \<Rightarrow> medical_context \<Rightarrow> pystr" where
  "get_full_context L format_type ctx =
     (if format_type = asc ''json'' then json_dumps L ctx
      else
        (let formatted_text =
               [replicate 60 61,
                asc ''CONTEXTO DA CONSULTA M'' @ [201] @ asc ''DICA'',
                replicate 60 61,
                [10] @ asc ''Especialidade: '' @ especialidade ctx,
                asc ''Iniciado em: '' @ format_timestamp L (ctx_timestamp ctx),
                asc ''Total de entradas: '' @ str_nat (length (entries ctx)),
                [10] @ replicate 60 45];
             formatted_text =
               (if entries ctx \<noteq> []
                then formatted_text @
                       [[10] @ asc ''HIST'' @ [211] @ asc ''RICO DE ENTRADAS:'' @ [10]] @
                       concat (map (entry_lines L) (enumerate 1 (entries ctx)))
                else formatted_text @ [[10] @ asc ''Nenhuma entrada registrada ainda.''])
         in str_join [10] formatted_text))"

text \<open>The context text that \<open>process_chat_input\<close> of \<open>streamlit_app.py\<close> builds after
  each submission, stores in \<open>st.session_state.dados_consulta\<close> and sends to the
  pipeline.\<close>

definition dados_consulta :: "medical_context \<Rightarrow> pystr" where
  "dados_consulta ctx =
     (let all_entries = get_entries ctx
      in str_join [10, 10] (map conteudo all_entries))"

text \<open>A run of submissions: each is the clock reading, the text and the kind.\<close>

definition add_all :: "(pystr \<times> pystr \<times> pystr) list \<Rightarrow> medical_context \<Rightarrow> medical_context" where
  "add_all items ctx = foldl (\<lambda>c (now_iso, texto, tipo'). add_information now_iso texto tipo' c) ctx items"

text \<open>A library and a context to evaluate on: \<open>str.upper\<close> on ASCII text, two ISO
  timestamps with their display forms.\<close>

definition ascii_upper :: "pystr \<Rightarrow> pystr" where
  "ascii_upper s = map (\<lambda>c. if 97 \<le> c \<and> c \<le> 122 then c - 32 else c) s"

definition textlib0 :: textlib where
  "textlib0 =
     \<lparr>str_upper = ascii_upper,
      json_dumps = (\<lambda>c. []),
      iso_strftime = (\<lambda>s.
        if s = asc ''2024-01-01T10:00:00'' then Some (asc ''01/01/2024 10:00:00'')
        else if s = asc ''2024-01-01T10:05:00'' then Some (asc ''01/01/2024 10:05:00'')
        else None)\<rparr>"

definition context0 :: medical_context where
  "context0 =
     \<lparr>ctx_timestamp = asc ''2024-01-01T10:00:00'',
      especialidade = asc ''Cardiologia'',
      entries = []\<rparr>"

text \<open>The first two lines of the text rendering, each with its line break.\<close>

definition banner :: pystr where
  "banner = replicate 60 61 @ [10] @ asc ''CONTEXTO DA CONSULTA M'' @ [201] @ asc ''DICA'' @ [10]"

section \<open>Truncation-tolerant parser\<close>

text \<open>
  \<open>_parse_json_response\<close> of \<open>gemini_handler.py\<close> (here \<open>parse_json_response\<close>). What the
  standard library and the interpreter contribute is a parameter: \<open>json.loads\<close>, which
  returns the decoded value or raises, \<open>str.lower\<close>, and the text of the \<open>TypeError\<close>
  that a membership test, a subscript or \<open>len\<close> raises on a value that does not support
  it.
\<close>

record pylib =
  json_loads :: "pystr \<Rightarrow> exn + json"
  str_lower :: "pystr \<Rightarrow> pystr"
  type_error_text :: "json \<Rightarrow> pystr"

text \<open>\<open>key in obj\<close> for a string \<open>key\<close>: a key of a dict, an element of a list, a
  substring of a string; a \<open>TypeError\<close> on anything else.\<close>

fun py_in :: "pylib \<Rightarrow> pystr \<Rightarrow> json \<Rightarrow> exn + bool" where
  "py_in L key (JDict kvs) = Inr (map_of kvs key \<noteq> None)"
| "py_in L key (JList xs) = Inr (JStr key \<in> set xs)"
| "py_in L key (JStr s) = Inr (str_contains key s)"
| "py_in L key obj = Inl (Exn TypeError (type_error_text L obj))"

text \<open>\<open>obj[key]\<close> for a string \<open>key\<close>: the value in a dict, a \<open>KeyError\<close> when the key is
  missing, a \<open>TypeError\<close> on anything that is not a dict.\<close>

fun py_getitem :: "pylib \<Rightarrow> json \<Rightarrow> pystr \<Rightarrow> exn + json" where
  "py_getitem L (JDict kvs) key =
     (case map_of kvs key of
        Some v \<Rightarrow> Inr v
      | None \<Rightarrow> Inl (Exn KeyError ([39] @ key @ [39])))"
| "py_getitem L obj key = Inl (Exn TypeError (type_error_text L obj))"

text \<open>\<open>len(obj)\<close>: the length of a string, a list or a dict, a \<open>TypeError\<close> on anything
  else.\<close>

fun py_len :: "pylib \<Rightarrow> json \<Rightarrow> exn + nat" where
  "py_len L (JStr s) = Inr (length s)"
| "py_len L (JList xs) = Inr (length xs)"
| "py_len L (JDict kvs) = Inr (length (remdups (map fst kvs)))"
| "py_len L obj = Inl (Exn TypeError (type_error_text L obj))"

text \<open>\<open>obj[key] = v\<close> for a string \<open>key\<close>.\<close>

fun py_setitem :: "pylib \<Rightarrow> json \<Rightarrow> pystr \<Rightarrow> json \<Rightarrow> exn + json" where
  "py_setitem L (JDict kvs) key v = Inr (JDict (AList.update key v kvs))"
| "py_setitem L obj key v = Inl (Exn TypeError (type_error_text L obj))"

text \<open>Lines 160 to 171: surrounding whitespace and code fences removed.\<close>

definition clean_response :: "pystr \<Rightarrow> pystr" where
  "clean_response response_text =
     (let clean_text = str_strip response_text;
          clean_text =
            (if prefix (asc ''```json'') clean_text then drop 7 clean_text
             else if prefix (asc ''```'') clean_text then drop 3 clean_text
             else clean_text);
          clean_text =
            (if suffix (asc ''```'') clean_text then take (length clean_text - 3) clean_text
             else clean_text)
      in str_strip clean_text)"

text \<open>The text the repair looks for before it does anything: \<open>"diagnosticos": [\<close>.\<close>

definition diagnosticos_marker :: pystr where
  "diagnosticos_marker = [34] @ asc ''diagnosticos'' @ [34] @ asc '': [''"

text \<open>
  Lines 200 to 211: trailing commas, line feeds and spaces removed, then one
  \<open>"\n}"\<close> for each \<open>{\<close> more than \<open>}\<close> and one \<open>"\n]"\<close> for each \<open>[\<close> more than \<open>]\<close>. The
  counts are taken before anything is appended; \<open>range\<close> of a negative number is empty, as
  the difference of natural numbers is 0.
\<close>

definition repair_json :: "pystr \<Rightarrow> pystr" where
  "repair_json text =
     (let clean_text = str_rstrip [44, 10, 32] text;
          open_braces = str_count 123 clean_text;
          close_braces = str_count 125 clean_text;
          open_brackets = str_count 91 clean_text;
          close_brackets = str_count 93 clean_text;
          clean_text = clean_text @ concat (replicate (open_braces - close_braces) [10, 125]);
          clean_text = clean_text @ concat (replicate (open_brackets - close_brackets) [10, 93])
      in clean_text)"

text \<open>
  Lines 196 to 220, the inner \<open>try\<close>: the repaired text is parsed again, and the result
  is returned when it has a non-empty \<open>diagnosticos\<close>. Before the return, line 217 takes
  \<open>len\<close> of that entry for the message it shows, which raises on a number. Any exception
  ends the attempt (\<open>except: pass\<close>); \<open>None\<close> is control reaching the code after the
  block.
\<close>

definition recover_partial :: "pylib \<Rightarrow> pystr \<Rightarrow> json option" where
  "recover_partial L clean_text =
     (if str_contains diagnosticos_marker clean_text then
        (case json_loads L (repair_json clean_text) of
           Inl e \<Rightarrow> None
         | Inr partial_result \<Rightarrow>
             (case py_in L (asc ''diagnosticos'') partial_result of
                Inl e \<Rightarrow> None
              | Inr False \<Rightarrow> None
              | Inr True \<Rightarrow>
                  (case py_getitem L partial_result (asc ''diagnosticos'') of
                     Inl e \<Rightarrow> None
                   | Inr d \<Rightarrow>
                       if truthy d then
                         (case py_len L d of
                            Inl e \<Rightarrow> None
                          | Inr recovered \<Rightarrow> Some partial_result)
                       else None)))
      else None)"

text \<open>Whether the text of a \<open>JSONDecodeError\<close> counts as the sign of a truncated
  response (line 180).\<close>

definition truncation_signature :: "pystr \<Rightarrow> bool" where
  "truncation_signature error_msg \<longleftrightarrow>
     str_contains (asc ''Unterminated'') error_msg \<or> str_contains (asc ''Expecting'') error_msg"

definition parse_json_response :: "pylib \<Rightarrow> pystr \<Rightarrow> json option" where
  "parse_json_response L response_text =
     (let clean_text = clean_response response_text
      in case json_loads L clean_text of
           Inr v \<Rightarrow> Some v
         | Inl e \<Rightarrow>
             (if exn_class_of e = JSONDecodeError then
                (let error_msg = exn_str e
                 in if truncation_signature error_msg
                    then (case recover_partial L clean_text of
                            Some partial_result \<Rightarrow> Some partial_result
                          | None \<Rightarrow> None)
                    else None)
              else None))"

text \<open>
  Texts to evaluate on, with what \<open>json.loads\<close> of CPython 3.11 does on each: a
  response cut after the comma that follows the list of diagnoses and the same text
  without the comma, closed by one brace; a response cut inside the list, the same text closed by a brace
  and then a bracket, and closed by a bracket and then a brace; a response cut before its
  last brace that has no space after the colon, and the same text closed; a complete
  response with a probability of 150; a response cut before its last brace in which
  \<open>diagnosticos\<close> is a number, and the same text closed; a complete response with six
  diagnoses; prose.
\<close>

definition txt_cut_after_list :: pystr where
  "txt_cut_after_list =
     asc ''{'' @ [34] @ asc ''diagnosticos'' @ [34] @ asc '': [{'' @ [34] @ asc ''nome'' @
     [34] @ asc '': '' @ [34] @ asc ''A'' @ [34] @ asc ''}],''"

definition txt_cut_in_list :: pystr where
  "txt_cut_in_list =
     asc ''{'' @ [34] @ asc ''diagnosticos'' @ [34] @ asc '': [1, 2''"

definition txt_cut_no_space :: pystr where
  "txt_cut_no_space =
     asc ''{'' @ [34] @ asc ''diagnosticos'' @ [34] @ asc '':[{'' @ [34] @ asc ''nome'' @
     [34] @ asc '': '' @ [34] @ asc ''A'' @ [34] @ asc ''}]''"

definition txt_complete :: pystr where
  "txt_complete =
     asc ''{'' @ [34] @ asc ''diagnosticos'' @ [34] @ asc '': [{'' @ [34] @ asc ''nome'' @
     [34] @ asc '': '' @ [34] @ asc ''A'' @ [34] @ asc '', '' @ [34] @
     asc ''probabilidade'' @ [34] @ asc '': 150}]}''"

definition txt_six :: pystr where
  "txt_six =
     asc ''{'' @ [34] @ asc ''diagnosticos'' @ [34] @ asc '': [{'' @ [34] @ asc ''nome'' @
     [34] @ asc '': '' @ [34] @ asc ''A'' @ [34] @ asc '', '' @ [34] @
     asc ''probabilidade'' @ [34] @ asc '': 60}, {'' @ [34] @ asc ''nome'' @ [34] @
     asc '': '' @ [34] @ asc ''B'' @ [34] @ asc '', '' @ [34] @ asc ''probabilidade'' @
     [34] @ asc '': 50}, {'' @ [34] @ asc ''nome'' @ [34] @ asc '': '' @ [34] @ asc ''C'' @
     [34] @ asc '', '' @ [34] @ asc ''probabilidade'' @ [34] @ asc '': 40}, {'' @ [34] @
     asc ''nome'' @ [34] @ asc '': '' @ [34] @ asc ''D'' @ [34] @ asc '', '' @ [34] @
     asc ''probabilidade'' @ [34] @ asc '': 30}, {'' @ [34] @ asc ''nome'' @ [34] @
     asc '': '' @ [34] @ asc ''E'' @ [34] @ asc '', '' @ [34] @ asc ''probabilidade'' @
     [34] @ asc '': 20}, {'' @ [34] @ asc ''nome'' @ [34] @ asc '': '' @ [34] @ asc ''F'' @
     [34] @ asc '', '' @ [34] @ asc ''probabilidade'' @ [34] @ asc '': 10}]}''"

definition txt_cut_after_number :: pystr where
  "txt_cut_after_number =
     asc ''{'' @ [34] @ asc ''a'' @ [34] @ asc '': {'' @ [34] @ asc ''diagnosticos'' @
     [34] @ asc '': [1]}, '' @ [34] @ asc ''diagnosticos'' @ [34] @ asc '': 5''"

definition txt_prose :: pystr where
  "txt_prose = asc ''Sem JSON''"

definition diagnosis_a :: json where
  "diagnosis_a = JDict [(asc ''nome'', JStr (asc ''A''))]"

definition diagnosis_150 :: json where
  "diagnosis_150 = JDict [(asc ''nome'', JStr (asc ''A'')), (asc ''probabilidade'', JInt 150)]"

definition diagnosis :: "pystr \<Rightarrow> int \<Rightarrow> json" where
  "diagnosis name p = JDict [(asc ''nome'', JStr name), (asc ''probabilidade'', JInt p)]"

definition six_diagnoses :: "json list" where
  "six_diagnoses =
     [diagnosis (asc ''A'') 60, diagnosis (asc ''B'') 50, diagnosis (asc ''C'') 40,
      diagnosis (asc ''D'') 30, diagnosis (asc ''E'') 20, diagnosis (asc ''F'') 10]"

definition decode_error :: "pystr \<Rightarrow> exn + json" where
  "decode_error msg = Inl (Exn JSONDecodeError msg)"

definition json_loads0 :: "pystr \<Rightarrow> exn + json" where
  "json_loads0 s =
     (if s = txt_cut_after_list then
        decode_error
          (asc ''Expecting property name enclosed in double quotes: line 1 column 34 (char 33)'')
      else if s = str_rstrip [44, 10, 32] txt_cut_after_list @ [10, 125] then
        Inr (JDict [(asc ''diagnosticos'', JList [diagnosis_a])])
      else if s = txt_cut_in_list then
        decode_error
          (asc ''Expecting '' @ [39] @ asc '','' @ [39] @
           asc '' delimiter: line 1 column 23 (char 22)'')
      else if s = txt_cut_in_list @ [10, 125, 10, 93] then
        decode_error
          (asc ''Expecting '' @ [39] @ asc '','' @ [39] @
           asc '' delimiter: line 2 column 1 (char 23)'')
      else if s = txt_cut_in_list @ [10, 93, 10, 125] then
        Inr (JDict [(asc ''diagnosticos'', JList [JInt 1, JInt 2])])
      else if s = txt_cut_no_space then
        decode_error
          (asc ''Expecting '' @ [39] @ asc '','' @ [39] @
           asc '' delimiter: line 1 column 32 (char 31)'')
      else if s = txt_cut_no_space @ [10, 125] then
        Inr (JDict [(asc ''diagnosticos'', JList [diagnosis_a])])
      else if s = txt_complete then
        Inr (JDict [(asc ''diagnosticos'', JList [diagnosis_150])])
      else if s = txt_cut_after_number then
        decode_error
          (asc ''Expecting '' @ [39] @ asc '','' @ [39] @
           asc '' delimiter: line 1 column 47 (char 46)'')
      else if s = txt_cut_after_number @ [10, 125] then
        Inr (JDict [(asc ''a'', JDict [(asc ''diagnosticos'', JList [JInt 1])]),
                    (asc ''diagnosticos'', JInt 5)])
      else if s = txt_six then
        Inr (JDict [(asc ''diagnosticos'', JList six_diagnoses)])
      else decode_error (asc ''Expecting value: line 1 column 1 (char 0)''))"

definition pylib0 :: pylib where
  "pylib0 =
     \<lparr>json_loads = json_loads0,
      str_lower = ascii_lower,
      type_error_text = (\<lambda>v. asc ''unsupported operand'')\<rparr>"

text \<open>The list under \<open>diagnosticos\<close> of a decoded value, when it is a dict that has
  one.\<close>

definition diagnosticos_of :: "json \<Rightarrow> json list option" where
  "diagnosticos_of v =
     (case v of
        JDict kvs \<Rightarrow>
          (case map_of kvs (asc ''diagnosticos'') of Some (JList ds) \<Rightarrow> Some ds | _ \<Rightarrow> None)
      | _ \<Rightarrow> None)"

text \<open>A value that has a length, and a decoded value that is a dict whose
  \<open>diagnosticos\<close> is a non-empty string, list or dict.\<close>

fun has_len :: "json \<Rightarrow> bool" where
  "has_len (JStr s) = True"
| "has_len (JList xs) = True"
| "has_len (JDict kvs) = True"
| "has_len other = False"

definition has_diagnosticos :: "json \<Rightarrow> bool" where
  "has_diagnosticos v =
     (case v of
        JDict kvs \<Rightarrow>
          (case map_of kvs (asc ''diagnosticos'') of
             Some d \<Rightarrow> truthy d \<and> has_len d
           | None \<Rightarrow> False)
      | _ \<Rightarrow> False)"

section \<open>Response pipeline\<close>

text \<open>
  \<open>GeminiHandler.analyze_case\<close> of \<open>gemini_handler.py\<close>. The remote endpoint is the
  function \<open>remote\<close>: what \<open>generate_content(prompt)\<close> does on the attempt of that number,
  raise or return a response; \<open>clock\<close> is what \<open>datetime.now()\<close> returns on that attempt.
  A response can be falsy, and its \<open>text\<close> can be missing. The world is the session
  state together with the trace of the calls to the endpoint, the writes of
  \<open>last_api_call\<close> and the calls of \<open>time.sleep\<close>, in the order they happen.
\<close>

datatype response = NoResponse | Response "pystr option"

datatype remote_outcome = Raises exn | Returns response

datatype event = Generate nat | SetLastApiCall datetime | Sleep nat

record world = session +
  trace :: "event list"

definition msg_not_configured :: pystr where
  "msg_not_configured =
     asc ''Modelo Gemini n'' @ [227] @ asc ''o est'' @ [225] @ asc '' configurado corretamente''"

definition msg_empty_context :: pystr where
  "msg_empty_context = asc ''Contexto vazio fornecido para an'' @ [225] @ asc ''lise''"

definition msg_empty_response :: pystr where
  "msg_empty_response = asc ''Resposta vazia do modelo''"

definition msg_invalid_structure :: pystr where
  "msg_invalid_structure = asc ''Estrutura JSON inv'' @ [225] @ asc ''lida na resposta''"

definition msg_parse_failed :: pystr where
  "msg_parse_failed =
     asc ''Falha ao parsear resposta ap'' @ [243] @ asc ''s m'' @ [250] @ asc ''ltiplas tentativas''"

definition msg_unknown :: pystr where
  "msg_unknown = asc ''Erro desconhecido durante an'' @ [225] @ asc ''lise''"

text \<open>Lines 288 to 302: the result must have a list under \<open>diagnosticos\<close>, which is cut
  to its first five entries.\<close>

definition check_structure :: "pylib \<Rightarrow> json \<Rightarrow> exn + json" where
  "check_structure L result =
     (case py_in L (asc ''diagnosticos'') result of
        Inl e \<Rightarrow> Inl e
      | Inr False \<Rightarrow> Inl (Exn ValueError msg_invalid_structure)
      | Inr True \<Rightarrow>
          (case py_getitem L result (asc ''diagnosticos'') of
             Inl e \<Rightarrow> Inl e
           | Inr d \<Rightarrow>
               (case d of
                  JList ds \<Rightarrow> py_setitem L result (asc ''diagnosticos'') (JList (take 5 ds))
                | _ \<Rightarrow> Inl (Exn ValueError msg_invalid_structure))))"

text \<open>What one attempt comes to: a result, a response that did not parse, or an
  exception for the handler.\<close>

datatype attempt_outcome = Succeeded json | ParseFailed | Failed exn

text \<open>Lines 279 to 304, from the check of the response to the end of the \<open>try\<close> body.\<close>

definition process_response :: "pylib \<Rightarrow> response \<Rightarrow> attempt_outcome" where
  "process_response L response =
     (case response of
        NoResponse \<Rightarrow> Failed (Exn ValueError msg_empty_response)
      | Response None \<Rightarrow> Failed (Exn ValueError msg_empty_response)
      | Response (Some text) \<Rightarrow>
          if text = [] then Failed (Exn ValueError msg_empty_response)
          else
            (case parse_json_response L text of
               None \<Rightarrow> ParseFailed
             | Some result \<Rightarrow>
                 if truthy result then
                   (case check_structure L result of
                      Inr r \<Rightarrow> Succeeded r
                    | Inl e \<Rightarrow> Failed e)
                 else ParseFailed))"

text \<open>Lines 274 to 304: the call, the write of \<open>last_api_call\<close> once the call has
  returned, and the rest of the \<open>try\<close> body.\<close>

definition run_attempt ::
  "pylib \<Rightarrow> (nat \<Rightarrow> remote_outcome) \<Rightarrow> (nat \<Rightarrow> datetime) \<Rightarrow> nat \<Rightarrow> world \<Rightarrow>
   attempt_outcome \<times> world" where
  "run_attempt L remote clock attempt w =
     (let w = w\<lparr>trace := trace w @ [Generate attempt]\<rparr>
      in case remote attempt of
           Raises e \<Rightarrow> (Failed e, w)
         | Returns response \<Rightarrow>
             (let w = w\<lparr>last_api_call := Some (clock attempt),
                        trace := trace w @ [SetLastApiCall (clock attempt)]\<rparr>
              in (process_response L response, w)))"

definition sleep :: "nat \<Rightarrow> world \<Rightarrow> world" where
  "sleep seconds w = w\<lparr>trace := trace w @ [Sleep seconds]\<rparr>"

text \<open>The loop \<open>for attempt in range(max_retries)\<close> from the attempt of the given
  number on, with the two handlers of a failed attempt and the return after the loop.\<close>

function retry_loop ::
  "pylib \<Rightarrow> (nat \<Rightarrow> remote_outcome) \<Rightarrow> (nat \<Rightarrow> datetime) \<Rightarrow> int \<Rightarrow> nat \<Rightarrow> world \<Rightarrow>
   (json option \<times> pystr option) \<times> world" where
  "retry_loop L remote clock max_retries attempt w =
     (if int attempt < max_retries then
        (case run_attempt L remote clock attempt w of
           (Succeeded result, w') \<Rightarrow> ((Some result, None), w')
         | (ParseFailed, w') \<Rightarrow>
             if int attempt < max_retries - 1
             then retry_loop L remote clock max_retries (Suc attempt) (sleep (2 ^ attempt) w')
             else ((None, Some msg_parse_failed), w')
         | (Failed e, w') \<Rightarrow>
             (let error_msg = get_friendly_error_message (str_lower L) (exn_str e)
              in if int attempt < max_retries - 1
                 then retry_loop L remote clock max_retries (Suc attempt) (sleep (2 ^ attempt) w')
                 else ((None, Some error_msg), w')))
      else ((None, Some msg_unknown), w))"
  by pat_completeness auto

termination
  by (relation "measure (\<lambda>(L, remote, clock, max_retries, attempt, w).
        nat (max_retries - int attempt))") auto

declare retry_loop.simps [simp del]

text \<open>\<open>analyze_case(context, specialty, max_retries)\<close>; \<open>configured\<close> says whether
  \<open>self.model\<close> is set. The prompt built from \<open>context\<close> and \<open>specialty\<close> is what every
  attempt sends to the endpoint.\<close>

definition analyze_case ::
  "pylib \<Rightarrow> bool \<Rightarrow> (nat \<Rightarrow> remote_outcome) \<Rightarrow> (nat \<Rightarrow> datetime) \<Rightarrow> pystr \<Rightarrow> pystr \<Rightarrow> int \<Rightarrow>
   world \<Rightarrow> (json option \<times> pystr option) \<times> world" where
  "analyze_case L configured remote clock context' specialty max_retries w =
     (if \<not> configured then ((None, Some msg_not_configured), w)
      else if context' = [] \<or> str_strip context' = [] then ((None, Some msg_empty_context), w)
      else retry_loop L remote clock max_retries 0 w)"

text \<open>
  To speak about a run: the events of one attempt, its outcome, the events of the
  attempts \<open>a\<close> to \<open>n\<close> with the sleeps between them, the sleeps of a trace, the number of
  the last attempt up to \<open>n\<close> whose call returned, and the message for an attempt that
  was the last and failed.
\<close>

definition attempt_events :: "(nat \<Rightarrow> remote_outcome) \<Rightarrow> (nat \<Rightarrow> datetime) \<Rightarrow> nat \<Rightarrow> event list" where
  "attempt_events remote clock k =
     (case remote k of
        Raises e \<Rightarrow> [Generate k]
      | Returns response \<Rightarrow> [Generate k, SetLastApiCall (clock k)])"

definition attempt_outcome_of :: "pylib \<Rightarrow> (nat \<Rightarrow> remote_outcome) \<Rightarrow> nat \<Rightarrow> attempt_outcome" where
  "attempt_outcome_of L remote k =
     (case remote k of
        Raises e \<Rightarrow> Failed e
      | Returns response \<Rightarrow> process_response L response)"

definition run_events ::
  "(nat \<Rightarrow> remote_outcome) \<Rightarrow> (nat \<Rightarrow> datetime) \<Rightarrow> nat \<Rightarrow> nat \<Rightarrow> event list" where
  "run_events remote clock a n =
     concat (map (\<lambda>k. attempt_events remote clock k @ [Sleep (2 ^ k)]) [a..<n]) @
     attempt_events remote clock n"

fun sleeps :: "event list \<Rightarrow> nat list" where
  "sleeps [] = []"
| "sleeps (Sleep s # es) = s # sleeps es"
| "sleeps (e # es) = sleeps es"

fun is_success :: "attempt_outcome \<Rightarrow> bool" where
  "is_success (Succeeded r) = True"
| "is_success other = False"

fun last_returned :: "(nat \<Rightarrow> remote_outcome) \<Rightarrow> nat \<Rightarrow> nat option" where
  "last_returned remote 0 =
     (case remote 0 of Returns r \<Rightarrow> Some 0 | Raises e \<Rightarrow> None)"
| "last_returned remote (Suc n) =
     (case remote (Suc n) of Returns r \<Rightarrow> Some (Suc n) | Raises e \<Rightarrow> last_returned remote n)"

fun final_message :: "pylib \<Rightarrow> attempt_outcome \<Rightarrow> pystr" where
  "final_message L (Failed e) = get_friendly_error_message (str_lower L) (exn_str e)"
| "final_message L ParseFailed = msg_parse_failed"
| "final_message L (Succeeded r) = []"

text \<open>A case text, a specialty and a world to start from, and endpoints to evaluate on: one that is out of quota on
  every attempt, one that returns the complete response on every attempt, one that
  raises, returns prose and then returns the complete response, and others that return
  the same text on every attempt.\<close>

definition case_text0 :: pystr where
  "case_text0 = asc ''Paciente com febre e tosse''"

definition specialty0 :: pystr where
  "specialty0 = asc ''Pneumologia''"

definition world0 :: world where
  "world0 = \<lparr>last_api_call = None, trace = []\<rparr>"

definition clock0 :: "nat \<Rightarrow> datetime" where
  "clock0 k = 1000000 * (10 + int k)"

definition remote_quota :: "nat \<Rightarrow> remote_outcome" where
  "remote_quota k = Raises (Exn OtherException (asc ''429 Quota exceeded''))"

definition remote_complete :: "nat \<Rightarrow> remote_outcome" where
  "remote_complete k = Returns (Response (Some txt_complete))"

definition remote_mixed :: "nat \<Rightarrow> remote_outcome" where
  "remote_mixed k =
     (if k = 0 then Raises (Exn OtherException (asc ''Connection reset''))
      else if k = 1 then Returns (Response (Some txt_prose))
      else Returns (Response (Some txt_complete)))"

text \<open>The value that \<open>last_api_call\<close> has after the writes of a trace.\<close>

fun last_set :: "event list \<Rightarrow> datetime option \<Rightarrow> datetime option" where
  "last_set [] x = x"
| "last_set (SetLastApiCall t # es) x = last_set es (Some t)"
| "last_set (e # es) x = last_set es x"

definition remote_six :: "nat \<Rightarrow> remote_outcome" where
  "remote_six k = Returns (Response (Some txt_six))"

definition remote_number :: "nat \<Rightarrow> remote_outcome" where
  "remote_number k = Returns (Response (Some txt_cut_after_number))"

definition remote_prose :: "nat \<Rightarrow> remote_outcome" where
  "remote_prose k = Returns (Response (Some txt_prose))"

section \<open>Validation of diagnoses\<close>

text \<open>
  \<open>validate_diagnosticos\<close> of \<open>validators.py\<close>. A number is an \<open>int\<close>, a \<open>float\<close> or a
  \<open>bool\<close>, which Python counts as the integers 1 and 0; a comparison with \<open>NaN\<close> is false.
\<close>

fun is_number :: "json \<Rightarrow> bool" where
  "is_number (JInt i) = True"
| "is_number (JFloat f) = True"
| "is_number (JBool b) = True"
| "is_number other = False"

fun num_less :: "json \<Rightarrow> int \<Rightarrow> bool" where
  "num_less (JInt i) n = (i < n)"
| "num_less (JBool b) n = ((if b then 1 else 0) < n)"
| "num_less (JFloat (Finite q)) n = (q < of_int n)"
| "num_less (JFloat NegInf) n = True"
| "num_less other n = False"

fun num_greater :: "json \<Rightarrow> int \<Rightarrow> bool" where
  "num_greater (JInt i) n = (i > n)"
| "num_greater (JBool b) n = ((if b then 1 else 0) > n)"
| "num_greater (JFloat (Finite q)) n = (q > of_int n)"
| "num_greater (JFloat PosInf) n = True"
| "num_greater other n = False"

definition msg_diagnostico :: "nat \<Rightarrow> pystr \<Rightarrow> pystr" where
  "msg_diagnostico idx rest = asc ''Diagn'' @ [243] @ asc ''stico '' @ str_nat (idx + 1) @ rest"

definition msg_probabilidade :: "nat \<Rightarrow> pystr \<Rightarrow> pystr" where
  "msg_probabilidade idx rest =
     asc ''Probabilidade do diagn'' @ [243] @ asc ''stico '' @ str_nat (idx + 1) @ rest"

text \<open>The loop over \<open>enumerate(diagnosticos)\<close>, from the entry of index \<open>idx\<close> on.\<close>

fun validate_entries :: "nat \<Rightarrow> json list \<Rightarrow> bool \<times> pystr option" where
  "validate_entries idx [] = (True, None)"
| "validate_entries idx (diag # rest) =
     (case diag of
        JDict kvs \<Rightarrow>
          if map_of kvs (asc ''nome'') = None then
            (False, Some (msg_diagnostico idx
               (asc '' n'' @ [227] @ asc ''o tem campo '' @ [39] @ asc ''nome'' @ [39])))
          else if map_of kvs (asc ''probabilidade'') = None then
            (False, Some (msg_diagnostico idx
               (asc '' n'' @ [227] @ asc ''o tem campo '' @ [39] @ asc ''probabilidade'' @ [39])))
          else
            (let prob = (case map_of kvs (asc ''probabilidade'') of
                           Some v \<Rightarrow> v
                         | None \<Rightarrow> JInt 0)
             in if \<not> is_number prob then
                  (False, Some (msg_probabilidade idx (asc '' deve ser num'' @ [233] @ asc ''rica'')))
                else if num_less prob 0 \<or> num_greater prob 100 then
                  (False, Some (msg_probabilidade idx (asc '' deve estar entre 0 e 100'')))
                else validate_entries (Suc idx) rest)
      | _ \<Rightarrow>
          (False, Some (msg_diagnostico idx
             (asc '' n'' @ [227] @ asc ''o '' @ [233] @ asc '' um dicion'' @ [225] @
              asc ''rio v'' @ [225] @ asc ''lido''))))"

definition validate_diagnosticos :: "json \<Rightarrow> bool \<times> pystr option" where
  "validate_diagnosticos diagnosticos =
     (if \<not> truthy diagnosticos then
        (False, Some (asc ''Nenhum diagn'' @ [243] @ asc ''stico fornecido''))
      else
        (case diagnosticos of
           JList ds \<Rightarrow> validate_entries 0 ds
         | _ \<Rightarrow> (False, Some (asc ''Diagn'' @ [243] @ asc ''sticos devem ser uma lista''))))"

text \<open>A probability that is a number, not below 0 and not above 100.\<close>

definition probability_in_range :: "json \<Rightarrow> bool" where
  "probability_in_range p \<longleftrightarrow>
     (case p of
        JInt i \<Rightarrow> 0 \<le> i \<and> i \<le> 100
      | JBool b \<Rightarrow> True
      | JFloat (Finite q) \<Rightarrow> 0 \<le> q \<and> q \<le> 100
      | JFloat NaN \<Rightarrow> True
      | _ \<Rightarrow> False)"

section \<open>The other callers of the endpoint\<close>

text \<open>
  \<open>generate_traditional_record\<close> of \<open>medical_record_generator.py\<close> and
  \<open>generate_suggestions\<close> of \<open>gemini_handler.py\<close> call the endpoint in a loop of the same
  shape. The first two statements of the \<open>try\<close> body are the same in both: the call, and
  the write of \<open>last_api_call\<close> once the call has returned.
\<close>

definition call_endpoint ::
  "(nat \<Rightarrow> remote_outcome) \<Rightarrow> (nat \<Rightarrow> datetime) \<Rightarrow> nat \<Rightarrow> world \<Rightarrow> remote_outcome \<times> world" where
  "call_endpoint remote clock attempt w =
     (let w = w\<lparr>trace := trace w @ [Generate attempt]\<rparr>
      in case remote attempt of
           Raises e \<Rightarrow> (Raises e, w)
         | Returns response \<Rightarrow>
             (Returns response,
              w\<lparr>last_api_call := Some (clock attempt),
                trace := trace w @ [SetLastApiCall (clock attempt)]\<rparr>))"

text \<open>\<open>response and response.text\<close>: the text of a response that has one.\<close>

fun text_of :: "response \<Rightarrow> pystr option" where
  "text_of NoResponse = None"
| "text_of (Response None) = None"
| "text_of (Response (Some t)) = (if t = [] then None else Some t)"

definition msg_record_not_configured :: pystr where
  "msg_record_not_configured = asc ''Modelo Gemini n'' @ [227] @ asc ''o configurado''"

definition msg_record_unknown :: pystr where
  "msg_record_unknown = asc ''Erro desconhecido''"

text \<open>Lines 177 to 218 of \<open>medical_record_generator.py\<close>: the loop of
  \<open>generate_traditional_record\<close> from the attempt of the given number on.\<close>

function record_loop ::
  "(pystr \<Rightarrow> pystr) \<Rightarrow> (nat \<Rightarrow> remote_outcome) \<Rightarrow> (nat \<Rightarrow> datetime) \<Rightarrow> int \<Rightarrow> nat \<Rightarrow> world \<Rightarrow>
   (pystr option \<times> pystr option) \<times> world" where
  "record_loop lower remote clock max_retries attempt w =
     (if int attempt < max_retries then
        (case call_endpoint remote clock attempt w of
           (Raises e, w') \<Rightarrow>
             if int attempt < max_retries - 1
             then record_loop lower remote clock max_retries (Suc attempt) (sleep 1 w')
             else ((None, Some (get_friendly_error_message lower (exn_str e))), w')
         | (Returns response, w') \<Rightarrow>
             (case text_of response of
                Some t \<Rightarrow> ((Some (str_strip t), None), w')
              | None \<Rightarrow>
                  if int attempt < max_retries - 1
                  then record_loop lower remote clock max_retries (Suc attempt) (sleep 1 w')
                  else ((None, Some msg_empty_response), w')))
      else ((None, Some msg_record_unknown), w))"
  by pat_completeness auto

termination
  by (relation "measure (\<lambda>(lower, remote, clock, max_retries, attempt, w).
        nat (max_retries - int attempt))") auto

declare record_loop.simps [simp del]

text \<open>\<open>generate_traditional_record(context, diagnosticos, max_retries)\<close>; the prompt is
  built from \<open>context\<close> and \<open>diagnosticos\<close> before the loop.\<close>

definition generate_traditional_record ::
  "(pystr \<Rightarrow> pystr) \<Rightarrow> bool \<Rightarrow> (nat \<Rightarrow> remote_outcome) \<Rightarrow> (nat \<Rightarrow> datetime) \<Rightarrow> int \<Rightarrow> world \<Rightarrow>
   (pystr option \<times> pystr option) \<times> world" where
  "generate_traditional_record lower configured remote clock max_retries w =
     (if \<not> configured then ((None, Some msg_record_not_configured), w)
      else record_loop lower remote clock max_retries 0 w)"

text \<open>\<open>_validate_suggestions_structure\<close>: the three keys are in the data, and the value
  of each is a list. A membership test or a subscript that the data does not support
  raises.\<close>

fun all_keys_in :: "pylib \<Rightarrow> pystr list \<Rightarrow> json \<Rightarrow> exn + bool" where
  "all_keys_in L [] data = Inr True"
| "all_keys_in L (key # keys) data =
     (case py_in L key data of
        Inl e \<Rightarrow> Inl e
      | Inr False \<Rightarrow> Inr False
      | Inr True \<Rightarrow> all_keys_in L keys data)"

fun all_values_lists :: "pylib \<Rightarrow> pystr list \<Rightarrow> json \<Rightarrow> exn + bool" where
  "all_values_lists L [] data = Inr True"
| "all_values_lists L (key # keys) data =
     (case py_getitem L data key of
        Inl e \<Rightarrow> Inl e
      | Inr (JList xs) \<Rightarrow> all_values_lists L keys data
      | Inr _ \<Rightarrow> Inr False)"

definition validate_suggestions_structure :: "pylib \<Rightarrow> json \<Rightarrow> exn + bool" where
  "validate_suggestions_structure L data =
     (let required_keys =
            [asc ''follow_up_questions'', asc ''suggested_exams'', asc ''management_suggestions'']
      in case all_keys_in L required_keys data of
           Inl e \<Rightarrow> Inl e
         | Inr False \<Rightarrow> Inr False
         | Inr True \<Rightarrow> all_values_lists L required_keys data)"

text \<open>What an attempt of \<open>generate_suggestions\<close> comes to once the call has returned
  (lines 435 to 450): the suggestions, a response without text, a response that does not
  hold valid suggestions, or an exception.\<close>

datatype suggestions_outcome = Suggestions json | NoText | Invalid | Raised exn

definition process_suggestions :: "pylib \<Rightarrow> response \<Rightarrow> suggestions_outcome" where
  "process_suggestions L response =
     (case text_of response of
        None \<Rightarrow> NoText
      | Some t \<Rightarrow>
          (case parse_json_response L t of
             None \<Rightarrow> Invalid
           | Some result \<Rightarrow>
               if truthy result then
                 (case validate_suggestions_structure L result of
                    Inl e \<Rightarrow> Raised e
                  | Inr True \<Rightarrow> Suggestions result
                  | Inr False \<Rightarrow> Invalid)
               else Invalid))"

text \<open>Lines 427 to 463 of \<open>gemini_handler.py\<close>: the loop of \<open>generate_suggestions\<close> from
  the attempt of the given number on. A response without text, and an invalid response
  on the last attempt, go on to the next round of the loop without a sleep.\<close>

function suggestions_loop ::
  "pylib \<Rightarrow> (nat \<Rightarrow> remote_outcome) \<Rightarrow> (nat \<Rightarrow> datetime) \<Rightarrow> int \<Rightarrow> nat \<Rightarrow> world \<Rightarrow>
   json option \<times> world" where
  "suggestions_loop L remote clock max_retries attempt w =
     (if int attempt < max_retries then
        (case call_endpoint remote clock attempt w of
           (Raises e, w') \<Rightarrow>
             if int attempt < max_retries - 1
             then suggestions_loop L remote clock max_retries (Suc attempt) (sleep 1 w')
             else (None, w')
         | (Returns response, w') \<Rightarrow>
             (case process_suggestions L response of
                Suggestions result \<Rightarrow> (Some result, w')
              | NoText \<Rightarrow> suggestions_loop L remote clock max_retries (Suc attempt) w'
              | Invalid \<Rightarrow>
                  if int attempt < max_retries - 1
                  then suggestions_loop L remote clock max_retries (Suc attempt) (sleep 1 w')
                  else suggestions_loop L remote clock max_retries (Suc attempt) w'
              | Raised e \<Rightarrow>
                  if int attempt < max_retries - 1
                  then suggestions_loop L remote clock max_retries (Suc attempt) (sleep 1 w')
                  else (None, w')))
      else (None, w))"
  by pat_completeness auto

termination
  by (relation "measure (\<lambda>(L, remote, clock, max_retries, attempt, w).
        nat (max_retries - int attempt))") auto

declare suggestions_loop.simps [simp del]

text \<open>\<open>generate_suggestions(context, specialty, diagnosticos, max_retries)\<close>;
  \<open>prepared\<close> says whether the statements before the loop, which build the model object and
  the prompt, complete without an exception.\<close>

definition generate_suggestions ::
  "pylib \<Rightarrow> bool \<Rightarrow> (nat \<Rightarrow> remote_outcome) \<Rightarrow> (nat \<Rightarrow> datetime) \<Rightarrow> int \<Rightarrow> world \<Rightarrow>
   json option \<times> world" where
  "generate_suggestions L prepared remote clock max_retries w =
     (if \<not> prepared then (None, w)
      else suggestions_loop L remote clock max_retries 0 w)"

text \<open>The events of the attempts \<open>a\<close> to \<open>n\<close> when the attempt \<open>k\<close> is followed by the
  sleeps \<open>gap k\<close>, the sleep of one second after every attempt, and the sleeps after an
  attempt of \<open>generate_suggestions\<close>.\<close>

definition run_events_with ::
  "(nat \<Rightarrow> nat list) \<Rightarrow> (nat \<Rightarrow> remote_outcome) \<Rightarrow> (nat \<Rightarrow> datetime) \<Rightarrow> nat \<Rightarrow> nat \<Rightarrow> event list" where
  "run_events_with gap remote clock a n =
     concat (map (\<lambda>k. attempt_events remote clock k @ map Sleep (gap k)) [a..<n]) @
     attempt_events remote clock n"

definition gap_one :: "nat \<Rightarrow> nat list" where
  "gap_one k = [1]"

definition gap_suggestions :: "pylib \<Rightarrow> (nat \<Rightarrow> remote_outcome) \<Rightarrow> nat \<Rightarrow> nat list" where
  "gap_suggestions L remote k =
     (case remote k of
        Raises e \<Rightarrow> [1]
      | Returns response \<Rightarrow>
          (case process_suggestions L response of NoText \<Rightarrow> [] | _ \<Rightarrow> [1]))"

text \<open>The sleeps of a list, one after the other.\<close>

definition sleep_all :: "nat list \<Rightarrow> world \<Rightarrow> world" where
  "sleep_all ss w = foldl (\<lambda>w s. sleep s w) w ss"

section \<open>Properties\<close>

subsection \<open>Strings\<close>

lemma str_contains_iff: "str_contains needle hay \<longleftrightarrow> sublist needle hay"
  by (induction hay) (auto simp: sublist_Cons_right)

subsection \<open>True division\<close>

text \<open>Rounding to the nearest integer is within a half, monotone, and exact on
  multiples of the divisor.\<close>

lemma rhe_exact: "0 < b \<Longrightarrow> round_half_even (c * b) b = c"
  by (simp add: round_half_even_def Let_def)

lemma rhe_between:
  assumes "0 < b"
  shows "a div b \<le> round_half_even a b" "round_half_even a b \<le> a div b + 1"
  by (simp_all add: round_half_even_def Let_def)

lemma rhe_mono:
  assumes b: "0 < b" and le: "a \<le> a'"
  shows "round_half_even a b \<le> round_half_even a' b"
proof (cases "a div b = a' div b")
  case True
  have "a mod b = a - b * (a div b)" "a' mod b = a' - b * (a' div b)"
    by (simp_all add: minus_mult_div_eq_mod)
  with True le have "a mod b \<le> a' mod b" by simp
  with True show ?thesis
    by (auto simp add: round_half_even_def Let_def)
next
  case False
  have "a div b \<le> a' div b" using le b by (rule zdiv_mono1)
  with False have "a div b + 1 \<le> a' div b" by simp
  with rhe_between [OF b, of a] rhe_between [OF b, of a'] show ?thesis by simp
qed

lemma rhe_error:
  assumes b: "0 < b"
  shows "\<bar>of_int (round_half_even a b) - (of_int a :: rat) / of_int b\<bar> \<le> 1 / 2"
proof -
  let ?q = "a div b" and ?r = "a mod b"
  have a: "a = ?q * b + ?r" by simp
  have r: "0 \<le> ?r" "?r < b" using b by simp_all
  have q: "(of_int a :: rat) / of_int b = of_int ?q + of_int ?r / of_int b"
  proof -
    have "(of_int a :: rat) = of_int ?q * of_int b + of_int ?r"
      by (metis a of_int_add of_int_mult)
    then show ?thesis using b by (simp add: field_simps)
  qed
  have B: "(0::rat) < of_int b" using b by simp
  have lt: "(2 * ?r < b) = ((of_int ?r :: rat) / of_int b < 1 / 2)"
  proof -
    have "((of_int ?r :: rat) / of_int b < 1 / 2) = ((of_int (2 * ?r) :: rat) < of_int b)"
      using B by (simp add: field_simps)
    then show ?thesis by (simp only: of_int_less_iff)
  qed
  have gt: "(b < 2 * ?r) = (1 / 2 < (of_int ?r :: rat) / of_int b)"
  proof -
    have "(1 / 2 < (of_int ?r :: rat) / of_int b) = ((of_int b :: rat) < of_int (2 * ?r))"
      using B by (simp add: field_simps)
    then show ?thesis by (simp only: of_int_less_iff)
  qed
  have f0: "(0::rat) \<le> of_int ?r / of_int b" using r B by simp
  have f1: "(of_int ?r :: rat) / of_int b < 1" using r B by simp
  show ?thesis
    unfolding q using f0 f1 lt gt
    by (auto simp add: round_half_even_def Let_def abs_if)
qed

text \<open>Powers of two with an integer exponent.\<close>

lemma p2_pos: "(0::rat) < power_int 2 e"
  by (simp add: zero_less_power_int)

lemma p2_add: "(power_int 2 (m + n) :: rat) = power_int 2 m * power_int 2 n"
  by (simp add: power_int_add)

lemma p2_nat: "0 \<le> e \<Longrightarrow> (power_int 2 e :: rat) = 2 ^ nat e"
  by (simp add: power_int_def)

lemma p2_neg: "e < 0 \<Longrightarrow> (power_int 2 e :: rat) = 1 / 2 ^ nat (- e)"
  by (simp add: power_int_def field_simps)

lemma p2_mono: "m \<le> n \<Longrightarrow> (power_int 2 m :: rat) \<le> power_int 2 n"
  by (rule power_int_increasing) simp_all

lemma p2_less_cancel: "(power_int 2 m :: rat) < power_int 2 n \<Longrightarrow> m < n"
  using p2_mono [of n m] by (cases "m < n") auto

text \<open>The scaled quotient the mantissa rounds.\<close>

lemma mantissa_error:
  assumes b: "0 < b"
  shows "\<bar>of_int (mantissa e a b) - (of_int a :: rat) / of_int b * power_int 2 (- e)\<bar> \<le> 1 / 2"
proof (cases "0 \<le> e")
  case True
  have B: "0 < b * 2 ^ nat e" using b by simp
  have "(of_int a :: rat) / of_int (b * 2 ^ nat e) = of_int a / of_int b * power_int 2 (- e)"
    using True by (simp add: power_int_minus p2_nat field_simps)
  with rhe_error [OF B, of a] True show ?thesis by (simp add: mantissa_def)
next
  case False
  have p: "(power_int 2 (- e) :: rat) = 2 ^ nat (- e)"
    using False by (simp add: p2_nat)
  have "(of_int (a * 2 ^ nat (- e)) :: rat) / of_int b = of_int a / of_int b * power_int 2 (- e)"
    unfolding p by simp
  with rhe_error [OF b, of "a * 2 ^ nat (- e)"] False show ?thesis
    by (simp only: mantissa_def if_False)
qed

lemma mantissa_mono:
  assumes b: "0 < b" and le: "a \<le> a'"
  shows "mantissa e a b \<le> mantissa e a' b"
proof (cases "0 \<le> e")
  case True
  have B: "0 < b * 2 ^ nat e" using b by simp
  from rhe_mono [OF B le] True show ?thesis by (simp add: mantissa_def)
next
  case False
  have "a * 2 ^ nat (- e) \<le> a' * 2 ^ nat (- e)" using le by simp
  from rhe_mono [OF b this] False show ?thesis by (simp add: mantissa_def)
qed

lemma mantissa_exact:
  assumes b: "0 < b" and e: "e \<le> 0"
  shows "mantissa e (c * b) b = c * 2 ^ nat (- e)"
proof (cases "e = 0")
  case True
  then show ?thesis using rhe_exact [OF b, of c] by (simp add: mantissa_def)
next
  case False
  have "c * b * 2 ^ nat (- e) = (c * 2 ^ nat (- e)) * b" by simp
  then have "round_half_even (c * b * 2 ^ nat (- e)) b = c * 2 ^ nat (- e)"
    using rhe_exact [OF b, of "c * 2 ^ nat (- e)"] by (simp only:)
  with False e show ?thesis by (simp add: mantissa_def)
qed

lemma binade_spec:
  assumes a: "0 < a" and b: "0 < b"
  shows "power_int 2 (binade a b) \<le> (of_int a :: rat) / of_int b"
    and "(of_int a :: rat) / of_int b < power_int 2 (binade a b + 1)"
proof -
  let ?x = "(of_int a :: rat) / of_int b"
  let ?k = "bitlen a - bitlen b"
  have B: "(0::rat) < of_int b" and A: "(0::rat) < of_int a" using a b by simp_all
  have la: "bitlen a \<ge> 1" and lb: "bitlen b \<ge> 1"
    using a b bitlen_eq_zero_iff [of a] bitlen_eq_zero_iff [of b] bitlen_nonneg [of a]
      bitlen_nonneg [of b] by (simp_all add: order_less_le)
  have ra: "(power_int 2 (bitlen a - 1) :: rat) \<le> of_int a" "(of_int a :: rat) < power_int 2 (bitlen a)"
  proof -
    have "(of_int (2 ^ nat (bitlen a - 1)) :: rat) \<le> of_int a"
      using bitlen_bounds [OF a] by (simp only: of_int_le_iff)
    then show "(power_int 2 (bitlen a - 1) :: rat) \<le> of_int a"
      using la by (simp add: p2_nat)
    have "(of_int a :: rat) < of_int (2 ^ nat (bitlen a))"
      using bitlen_bounds [OF a] by (simp only: of_int_less_iff)
    then show "(of_int a :: rat) < power_int 2 (bitlen a)"
      using la by (simp add: p2_nat)
  qed
  have rb: "(power_int 2 (bitlen b - 1) :: rat) \<le> of_int b" "(of_int b :: rat) < power_int 2 (bitlen b)"
  proof -
    have "(of_int (2 ^ nat (bitlen b - 1)) :: rat) \<le> of_int b"
      using bitlen_bounds [OF b] by (simp only: of_int_le_iff)
    then show "(power_int 2 (bitlen b - 1) :: rat) \<le> of_int b"
      using lb by (simp add: p2_nat)
    have "(of_int b :: rat) < of_int (2 ^ nat (bitlen b))"
      using bitlen_bounds [OF b] by (simp only: of_int_less_iff)
    then show "(of_int b :: rat) < power_int 2 (bitlen b)"
      using lb by (simp add: p2_nat)
  qed
  have lo: "(power_int 2 (?k - 1) :: rat) < ?x"
  proof -
    have "(power_int 2 (?k - 1) :: rat) * of_int b < power_int 2 (?k - 1) * power_int 2 (bitlen b)"
      using rb(2) p2_pos [of "?k - 1"] by simp
    also have "\<dots> = power_int 2 (bitlen a - 1)"
      by (simp add: p2_add [symmetric])
    also have "\<dots> \<le> of_int a" by (rule ra(1))
    finally show ?thesis using B by (simp add: field_simps)
  qed
  have hi: "?x < (power_int 2 (?k + 1) :: rat)"
  proof -
    have "(of_int a :: rat) < power_int 2 (bitlen a)" by (rule ra(2))
    also have "\<dots> = power_int 2 (?k + 1) * power_int 2 (bitlen b - 1)"
      by (simp add: p2_add [symmetric])
    also have "\<dots> \<le> power_int 2 (?k + 1) * of_int b"
      using rb(1) p2_pos [of "?k + 1"] by simp
    finally show ?thesis using B by (simp add: field_simps)
  qed
  have test: "(if 0 \<le> ?k then b * 2 ^ nat ?k \<le> a else b \<le> a * 2 ^ nat (- ?k))
      = ((power_int 2 ?k :: rat) \<le> ?x)"
  proof (cases "0 \<le> ?k")
    case True
    have "((power_int 2 ?k :: rat) \<le> ?x) = ((of_int (b * 2 ^ nat ?k) :: rat) \<le> of_int a)"
      using True B by (simp add: p2_nat field_simps)
    also have "\<dots> = (b * 2 ^ nat ?k \<le> a)" by (simp only: of_int_le_iff)
    finally show ?thesis using True by simp
  next
    case False
    then have n: "?k < 0" by simp
    have "((power_int 2 ?k :: rat) \<le> ?x) = ((of_int b :: rat) \<le> of_int (a * 2 ^ nat (- ?k)))"
      using B by (simp add: p2_neg [OF n] field_simps)
    also have "\<dots> = (b \<le> a * 2 ^ nat (- ?k))" by (simp only: of_int_le_iff)
    finally show ?thesis using False by simp
  qed
  show "power_int 2 (binade a b) \<le> ?x"
    unfolding binade_def Let_def test using lo by (simp add: less_imp_le)
  show "?x < power_int 2 (binade a b + 1)"
    unfolding binade_def Let_def test using hi by (simp add: not_le)
qed

lemma binade_unique:
  assumes a: "0 < a" and b: "0 < b"
    and lo: "power_int 2 L \<le> (of_int a :: rat) / of_int b"
    and hi: "(of_int a :: rat) / of_int b < power_int 2 (L + 1)"
  shows "binade a b = L"
proof -
  have "(power_int 2 L :: rat) < power_int 2 (binade a b + 1)"
    using lo binade_spec(2) [OF a b] by simp
  then have 1: "L < binade a b + 1" by (rule p2_less_cancel)
  have "(power_int 2 (binade a b) :: rat) < power_int 2 (L + 1)"
    using hi binade_spec(1) [OF a b] by simp
  then have 2: "binade a b < L + 1" by (rule p2_less_cancel)
  from 1 2 show ?thesis by simp
qed

lemma binade_mono:
  assumes a: "0 < a" and b: "0 < b" and le: "a \<le> a'"
  shows "binade a b \<le> binade a' b"
proof -
  have a': "0 < a'" using a le by simp
  have "(of_int a :: rat) / of_int b \<le> of_int a' / of_int b"
    using le b by (simp add: divide_right_mono)
  then have "(power_int 2 (binade a b) :: rat) < power_int 2 (binade a' b + 1)"
    using binade_spec(1) [OF a b] binade_spec(2) [OF a' b] by simp
  then have "binade a b < binade a' b + 1" by (rule p2_less_cancel)
  then show ?thesis by simp
qed

text \<open>The nearest double lies in the binade of the quotient, within half a unit of its
  last place, and grows with the dividend.\<close>

lemma nearest_double_mantissa:
  assumes a: "0 < a" and b: "0 < b"
  shows "2 ^ 52 \<le> mantissa (binade a b - 52) a b" "mantissa (binade a b - 52) a b \<le> 2 ^ 53"
proof -
  define L where "L = binade a b"
  define x where "x = (of_int a :: rat) / of_int b"
  define s where "s = (power_int 2 (- (L - 52)) :: rat)"
  define m where "m = mantissa (L - 52) a b"
  have s: "0 < s" unfolding s_def by (rule p2_pos)
  have xl: "power_int 2 L \<le> x" and xh: "x < power_int 2 (L + 1)"
    unfolding L_def x_def by (rule binade_spec [OF a b])+
  have e1: "(power_int 2 L :: rat) * s = 2 ^ 52"
    unfolding s_def p2_add [symmetric] by simp
  have e2: "(power_int 2 (L + 1) :: rat) * s = 2 ^ 53"
    unfolding s_def p2_add [symmetric] by simp
  have "power_int 2 L * s \<le> x * s"
    using xl s by (rule mult_right_mono [OF _ less_imp_le])
  then have lo: "2 ^ 52 \<le> x * s" unfolding e1 .
  have "x * s < power_int 2 (L + 1) * s"
    using xh s by (rule mult_strict_right_mono)
  then have hi: "x * s < 2 ^ 53" unfolding e2 .
  have err: "\<bar>of_int m - x * s\<bar> \<le> 1 / 2"
    unfolding m_def x_def s_def by (rule mantissa_error [OF b])
  have lo': "4503599627370496 \<le> x * s" using lo by simp
  have hi': "x * s < 9007199254740992" using hi by simp
  have e: "x * s - 1 / 2 \<le> of_int m" "of_int m \<le> x * s + 1 / 2"
    using err by linarith+
  have "(4503599627370495 :: rat) < of_int m" using lo' e(1) by linarith
  then have "4503599627370495 < m" by simp
  then show "2 ^ 52 \<le> mantissa (binade a b - 52) a b"
    unfolding m_def L_def by simp
  have "of_int m < (9007199254740993 :: rat)" using hi' e(2) by linarith
  then have "m < 9007199254740993" by simp
  then show "mantissa (binade a b - 52) a b \<le> 2 ^ 53"
    unfolding m_def L_def by simp
qed

lemma nearest_double_range:
  assumes a: "0 < a" and b: "0 < b"
  shows "power_int 2 (binade a b) \<le> nearest_double a b"
    and "nearest_double a b \<le> power_int 2 (binade a b + 1)"
proof -
  define L where "L = binade a b"
  define p where "p = (power_int 2 (L - 52) :: rat)"
  define m where "m = (of_int (mantissa (L - 52) a b) :: rat)"
  have p: "0 < p" unfolding p_def by (rule p2_pos)
  have nd: "nearest_double a b = m * p"
    by (simp add: nearest_double_def Let_def m_def p_def L_def)
  have e1: "2 ^ 52 * p = power_int 2 L"
    unfolding p_def using p2_add [of 52 "L - 52"] by simp
  have e2: "2 ^ 53 * p = power_int 2 (L + 1)"
    unfolding p_def using p2_add [of 53 "L - 52"] by (simp add: add.commute)
  have "(of_int (2 ^ 52) :: rat) \<le> m"
    unfolding m_def L_def using nearest_double_mantissa(1) [OF a b] by (simp only: of_int_le_iff)
  then have m1: "2 ^ 52 \<le> m" by simp
  have "2 ^ 52 * p \<le> m * p"
    using m1 p by (rule mult_right_mono [OF _ less_imp_le])
  then show "power_int 2 (binade a b) \<le> nearest_double a b"
    unfolding nd e1 L_def .
  have "m \<le> (of_int (2 ^ 53) :: rat)"
    unfolding m_def L_def using nearest_double_mantissa(2) [OF a b] by (simp only: of_int_le_iff)
  then have m2: "m \<le> 2 ^ 53" by simp
  have "m * p \<le> 2 ^ 53 * p"
    using m2 p by (rule mult_right_mono [OF _ less_imp_le])
  then show "nearest_double a b \<le> power_int 2 (binade a b + 1)"
    unfolding nd e2 L_def .
qed

lemma nearest_double_pos:
  assumes a: "0 < a" and b: "0 < b"
  shows "0 < nearest_double a b"
proof -
  have "(0::rat) < power_int 2 (binade a b)" by (rule p2_pos)
  also have "\<dots> \<le> nearest_double a b" by (rule nearest_double_range(1) [OF a b])
  finally show ?thesis .
qed

lemma nearest_double_mono:
  assumes a: "0 < a" and b: "0 < b" and le: "a \<le> a'"
  shows "nearest_double a b \<le> nearest_double a' b"
proof (cases "binade a b = binade a' b")
  case True
  have "(of_int (mantissa (binade a' b - 52) a b) :: rat) \<le> of_int (mantissa (binade a' b - 52) a' b)"
    using mantissa_mono [OF b le] by (simp only: of_int_le_iff)
  then show ?thesis
    using True p2_pos [of "binade a' b - 52"] by (simp add: nearest_double_def Let_def)
next
  case False
  have a': "0 < a'" using a le by simp
  from False binade_mono [OF a b le] have "binade a b + 1 \<le> binade a' b" by simp
  then have "(power_int 2 (binade a b + 1) :: rat) \<le> power_int 2 (binade a' b)"
    by (rule p2_mono)
  with nearest_double_range(2) [OF a b] nearest_double_range(1) [OF a' b]
  show ?thesis by simp
qed

lemma nearest_double_error:
  assumes a: "0 < a" and b: "0 < b"
  shows "\<bar>nearest_double a b - (of_int a :: rat) / of_int b\<bar> \<le> power_int 2 (binade a b - 53)"
proof -
  define L where "L = binade a b"
  define x where "x = (of_int a :: rat) / of_int b"
  define s where "s = (power_int 2 (- (L - 52)) :: rat)"
  define p where "p = (power_int 2 (L - 52) :: rat)"
  define m where "m = (of_int (mantissa (L - 52) a b) :: rat)"
  have p: "0 < p" unfolding p_def by (rule p2_pos)
  have u: "s * p = 1"
    unfolding s_def p_def p2_add [symmetric] by simp
  have h: "1 / 2 * p = power_int 2 (L - 53)"
    unfolding p_def using p2_add [of "- 1" "L - 52"] by (simp add: power_int_minus)
  have nd: "nearest_double a b = m * p"
    by (simp add: nearest_double_def Let_def m_def p_def L_def)
  have err: "\<bar>m - x * s\<bar> \<le> 1 / 2"
    unfolding m_def x_def s_def by (rule mantissa_error [OF b])
  have "\<bar>m - x * s\<bar> * p \<le> 1 / 2 * p"
    using err p by (rule mult_right_mono [OF _ less_imp_le])
  moreover have "\<bar>m - x * s\<bar> * p = \<bar>(m - x * s) * p\<bar>"
    using p by (simp only: abs_mult abs_of_pos)
  moreover have "(m - x * s) * p = m * p - x * (s * p)"
    by (simp only: algebra_simps)
  ultimately have "\<bar>m * p - x\<bar> \<le> power_int 2 (L - 53)"
    unfolding u h by simp
  then show ?thesis unfolding nd x_def L_def .
qed

lemma nearest_double_exact:
  assumes c: "0 < c" "c < 2 ^ 53" and b: "0 < b"
  shows "nearest_double (c * b) b = of_int c"
proof -
  let ?L = "binade (c * b) b"
  have a: "0 < c * b" using c b by simp
  have x: "(of_int (c * b) :: rat) / of_int b = of_int c" using b by simp
  have "(power_int 2 ?L :: rat) \<le> of_int c"
    using binade_spec(1) [OF a b] unfolding x .
  also have "(of_int c :: rat) < of_int (2 ^ 53)"
    using c(2) by (simp only: of_int_less_iff)
  finally have "(power_int 2 ?L :: rat) < power_int 2 53" by simp
  then have "?L < 53" by (rule p2_less_cancel)
  then have e: "?L - 52 \<le> 0" by simp
  have p: "(power_int 2 (?L - 52) :: rat) = 1 / 2 ^ nat (- (?L - 52))"
  proof (cases "?L - 52 = 0")
    case True then show ?thesis by simp
  next
    case False with e show ?thesis by (simp add: p2_neg)
  qed
  show ?thesis
    unfolding nearest_double_def Let_def mantissa_exact [OF b e] p by simp
qed

text \<open>The quotient of the signed division.\<close>

lemma true_divide_mono:
  assumes b: "0 < b" and le: "a \<le> a'"
  shows "true_divide a b \<le> true_divide a' b"
proof -
  consider "0 < a" | "a = 0" | "a < 0" "a' < 0" | "a < 0" "0 \<le> a'" by linarith
  then show ?thesis
  proof cases
    case 1
    then show ?thesis using le nearest_double_mono [OF 1 b le] by (simp add: true_divide_def)
  next
    case 2
    then show ?thesis using le nearest_double_pos [of a' b] b
      by (auto simp add: true_divide_def less_imp_le)
  next
    case 3
    have "nearest_double (- a') b \<le> nearest_double (- a) b"
      using 3 le by (intro nearest_double_mono [OF _ b]) simp_all
    with 3 show ?thesis by (simp add: true_divide_def)
  next
    case 4
    have "0 < nearest_double (- a) b" using 4 b by (intro nearest_double_pos) simp_all
    moreover have "0 \<le> true_divide a' b"
      using 4 nearest_double_pos [of a' b] b by (auto simp add: true_divide_def less_imp_le)
    ultimately show ?thesis using 4 by (simp add: true_divide_def)
  qed
qed

lemma true_divide_exact:
  assumes b: "0 < b" and c: "\<bar>c\<bar> < 2 ^ 53"
  shows "true_divide (c * b) b = of_int c"
proof -
  consider "c = 0" | "0 < c" | "c < 0" by linarith
  then show ?thesis
  proof cases
    case 1 then show ?thesis by (simp add: true_divide_def)
  next
    case 2
    then have "0 < c * b" using b by simp
    then show ?thesis using 2 c b nearest_double_exact [of c b] by (simp add: true_divide_def)
  next
    case 3
    then have n: "c * b < 0" using b by (simp add: mult_neg_pos)
    have "nearest_double (- c * b) b = of_int (- c)"
      using 3 c b by (intro nearest_double_exact) simp_all
    then show ?thesis using n b by (simp add: true_divide_def)
  qed
qed

lemma true_divide_neg: "true_divide (- a) b = - true_divide a b"
  by (simp add: true_divide_def)

text \<open>
  The float of \<open>total_seconds\<close> is compared with a whole number of seconds up to
  \<open>2^32\<close> as the exact quotient is, because a microsecond is more than the rounding
  there; its truncation is the whole seconds of the difference, for a difference below
  \<open>2^32\<close> seconds.
\<close>

lemma total_seconds_mono: "td \<le> td' \<Longrightarrow> total_seconds td \<le> total_seconds td'"
  unfolding total_seconds_def by (rule true_divide_mono) simp_all

lemma total_seconds_whole: "\<bar>c\<bar> < 2 ^ 53 \<Longrightarrow> total_seconds (c * 1000000) = of_int c"
  unfolding total_seconds_def by (rule true_divide_exact) simp_all

lemma total_seconds_neg: "total_seconds (- td) = - total_seconds td"
  unfolding total_seconds_def by (rule true_divide_neg)

lemma total_seconds_negative: "td < 0 \<Longrightarrow> total_seconds td < 0"
  using nearest_double_pos [of "- td" 1000000] by (simp add: total_seconds_def true_divide_def)

lemma total_seconds_below:
  assumes n: "0 < n" "n \<le> 2 ^ 32"
  shows "total_seconds (n * 1000000 - 1) < of_int n"
proof -
  define a where "a = n * 1000000 - 1"
  define L where "L = binade a 1000000"
  define x where "x = (of_int a :: rat) / of_int 1000000"
  have a: "0 < a" using n by (simp add: a_def)
  have b: "(0::int) < 1000000" by simp
  have x: "x = of_int n - 1 / 1000000"
    by (simp add: x_def a_def field_simps)
  have "(of_int n :: rat) \<le> of_int (2 ^ 32)"
    using n(2) by (simp only: of_int_le_iff)
  then have n32: "(of_int n :: rat) \<le> 2 ^ 32" by simp
  have "(power_int 2 L :: rat) \<le> x"
    unfolding L_def x_def by (rule binade_spec(1) [OF a b])
  also have "x < 2 ^ 32" using n32 x by simp
  finally have "(power_int 2 L :: rat) < power_int 2 32" by simp
  then have "L < 32" by (rule p2_less_cancel)
  then have "L - 53 \<le> - 22" by simp
  then have "(power_int 2 (L - 53) :: rat) \<le> power_int 2 (- 22)" by (rule p2_mono)
  then have p: "(power_int 2 (L - 53) :: rat) \<le> 1 / 4194304" by simp
  have "\<bar>nearest_double a 1000000 - x\<bar> \<le> power_int 2 (L - 53)"
    unfolding L_def x_def by (rule nearest_double_error [OF a b])
  with p have "nearest_double a 1000000 \<le> x + 1 / 4194304" by linarith
  with x have "nearest_double a 1000000 < of_int n" by simp
  then show ?thesis
    using a by (simp add: total_seconds_def true_divide_def a_def)
qed

lemma total_seconds_ge:
  assumes n: "0 \<le> n" "n \<le> 2 ^ 32"
  shows "(of_int n \<le> total_seconds td) = (n * 1000000 \<le> td)"
proof (cases "n * 1000000 \<le> td")
  case True
  have "\<bar>n\<bar> < 2 ^ 53" using n by simp
  then have "total_seconds (n * 1000000) = of_int n" by (rule total_seconds_whole)
  with total_seconds_mono [OF True] True show ?thesis by simp
next
  case False
  then have le: "td \<le> n * 1000000 - 1" by simp
  have "total_seconds td < of_int n"
  proof (cases "n = 0")
    case True
    with False have "td < 0" by simp
    then show ?thesis using True by (simp add: total_seconds_negative)
  next
    case False
    with n have "0 < n" by simp
    from total_seconds_mono [OF le] total_seconds_below [OF this n(2)]
    show ?thesis by simp
  qed
  with False show ?thesis by simp
qed

lemma py_int_total_seconds:
  assumes td: "0 \<le> td" "td < 2 ^ 32 * 1000000"
  shows "py_int (total_seconds td) = td div 1000000"
proof -
  define k where "k = td div 1000000"
  have k: "0 \<le> k" "k * 1000000 \<le> td" "td < (k + 1) * 1000000"
    using td(1) by (simp_all add: k_def pos_imp_zdiv_nonneg_iff) 
  have k32: "k + 1 \<le> 2 ^ 32"
  proof -
    have "k * 1000000 < 2 ^ 32 * 1000000" using k(2) td(2) by simp
    then have "k < 2 ^ 32" by simp
    then show ?thesis by simp
  qed
  have lo: "of_int k \<le> total_seconds td"
    using total_seconds_ge [of k td] k k32 by simp
  have hi: "total_seconds td < of_int (k + 1)"
    using total_seconds_ge [of "k + 1" td] k k32 by (simp add: not_le [symmetric])
  have "\<lfloor>total_seconds td\<rfloor> = k"
    using lo hi by (simp add: floor_unique)
  moreover have "0 \<le> total_seconds td"
    using lo k(1) by (meson of_int_0_le_iff order_trans)
  ultimately show ?thesis by (simp add: py_int_def k_def)
qed

lemma py_int_total_seconds_neg:
  assumes td: "td < 0" "- (2 ^ 32 * 1000000) < td"
  shows "py_int (total_seconds td) = - ((- td) div 1000000)"
proof -
  have p: "py_int (total_seconds (- td)) = (- td) div 1000000"
    using td by (intro py_int_total_seconds) simp_all
  have n: "total_seconds td < 0" using td(1) by (rule total_seconds_negative)
  then have "0 \<le> total_seconds (- td)" by (simp add: total_seconds_neg)
  with p have "\<lfloor>total_seconds (- td)\<rfloor> = (- td) div 1000000" by (simp add: py_int_def)
  then have "\<lceil>total_seconds td\<rceil> = - ((- td) div 1000000)"
    by (simp add: total_seconds_neg ceiling_def)
  with n show ?thesis by (simp add: py_int_def)
qed

text \<open>The definitions evaluated: one and a half seconds, the double next to a tenth,
  the double below three seconds, and a difference of one microsecond less than \<open>2^38\<close>
  seconds, which rounds up to \<open>2^38\<close>.\<close>

lemma bitlen_values:
  "bitlen 1000000 = 20" "bitlen 1500000 = 21" "bitlen 100000 = 17" "bitlen 2999999 = 22"
  "bitlen 274877906943999999 = 58" "bitlen 3000000 = 22"
  by (simp_all add: compute_bitlen)

lemma total_seconds_values:
  "total_seconds 1500000 = 3 / 2"
  "total_seconds 100000 = 3602879701896397 / 36028797018963968"
  "total_seconds 2999999 = 3377698594627965 / 1125899906842624"
  "total_seconds (- 2999999) = - (3377698594627965 / 1125899906842624)"
  "total_seconds 274877906943999999 = 274877906944"
  "total_seconds 3000000 = 3"
  by (simp_all add: total_seconds_def true_divide_def nearest_double_def binade_def mantissa_def
      round_half_even_def bitlen_values Let_def)


subsection \<open>Rate gate\<close>

lemma can_make_api_call_int:
  assumes "0 \<le> n" and "n \<le> 2 ^ 32"
  shows "fst (can_make_api_call now (of_int n) st) =
     (case last_api_call st of None \<Rightarrow> True | Some t \<Rightarrow> t + n * 1000000 \<le> now)"
proof (cases "last_api_call st")
  case None
  then show ?thesis by (simp add: can_make_api_call_def)
next
  case (Some t)
  have "(of_int n \<le> total_seconds (now - t)) = (t + n * 1000000 \<le> now)"
    unfolding total_seconds_ge [OF assms] by arith
  with Some show ?thesis by (simp add: can_make_api_call_def)
qed

lemma check_rate_limit_status_verdict:
  "fst (fst (check_rate_limit_status now st)) =
     (case last_api_call st of None \<Rightarrow> True | Some t \<Rightarrow> t + 3 * 1000000 \<le> now)"
proof (cases "last_api_call st")
  case None
  then show ?thesis by (simp add: check_rate_limit_status_def)
next
  case (Some t)
  have "(of_int 3 \<le> total_seconds (now - t)) = (3 * 1000000 \<le> now - t)"
    by (rule total_seconds_ge) simp_all
  then have "(total_seconds (now - t) < 3) = (\<not> t + 3 * 1000000 \<le> now)"
    by (simp add: not_le [symmetric]) arith
  with Some show ?thesis by (simp add: check_rate_limit_status_def Let_def)
qed

text \<open>
  Without the bound on the interval the float decides otherwise than the exact quotient:
  one microsecond short of \<open>2^38\<close> seconds counts as \<open>2^38\<close> seconds.
\<close>

lemma can_make_api_call_rounded:
  "fst (can_make_api_call 274877906943999999 274877906944 \<lparr>last_api_call = Some 0\<rparr>)"
  by (simp add: can_make_api_call_def total_seconds_values)

text \<open>
  C6. Both rate gates leave the session state as it was. The gate of the application
  answers true exactly when no last call is recorded or the float of the seconds elapsed
  since it is at least \<open>min_interval\<close>; for an interval of \<open>n\<close> whole seconds, \<open>n\<close> from 0
  to \<open>2^32\<close>, that is exactly when at least \<open>n\<close> seconds have passed, so also when exactly
  \<open>n\<close> seconds have passed. The gate of the validators does the same with the interval of
  3 seconds, and with its false it returns the text that asks to wait, in seconds, 3 minus
  the whole seconds elapsed; when the recorded call lies ahead of the clock those are the
  whole seconds up to it, negated, for a call less than \<open>2^32\<close> seconds ahead.
\<close>

theorem rate_gate_can_proceed:
  assumes "0 \<le> n" and "n \<le> 2 ^ 32"
  shows
  "snd (can_make_api_call now min_interval st) = st \<and>
   snd (check_rate_limit_status now st) = st \<and>
   fst (can_make_api_call now min_interval st) =
     (case last_api_call st of None \<Rightarrow> True
      | Some t \<Rightarrow> min_interval \<le> total_seconds (now - t)) \<and>
   fst (can_make_api_call now (of_int n) st) =
     (case last_api_call st of None \<Rightarrow> True | Some t \<Rightarrow> t + n * 1000000 \<le> now) \<and>
   fst (fst (check_rate_limit_status now st)) =
     (case last_api_call st of None \<Rightarrow> True | Some t \<Rightarrow> t + 3 * 1000000 \<le> now) \<and>
   snd (fst (check_rate_limit_status now st)) =
     (case last_api_call st of None \<Rightarrow> None
      | Some t \<Rightarrow>
          if t + 3 * 1000000 \<le> now then None
          else Some ([9201, 65039] @ asc '' Aguarde '' @
                 str_int (3 - (if t \<le> now then (now - t) div 1000000
                               else if t - now < 2 ^ 32 * 1000000
                                    then - ((t - now) div 1000000)
                                    else py_int (total_seconds (now - t)))) @
                 asc '' segundo(s) antes da pr'' @ [243] @ asc ''xima an'' @ [225] @
                 asc ''lise (rate limiting)''))"
proof (cases "last_api_call st")
  case None
  then show ?thesis
    by (simp add: can_make_api_call_def check_rate_limit_status_def)
next
  case (Some t)
  have a: "snd (can_make_api_call now min_interval st) = st"
    using Some by (simp add: can_make_api_call_def)
  have b: "snd (check_rate_limit_status now st) = st"
    using Some by (simp add: check_rate_limit_status_def Let_def)
  have c: "fst (can_make_api_call now min_interval st) = (min_interval \<le> total_seconds (now - t))"
    using Some by (simp add: can_make_api_call_def)
  have d: "fst (can_make_api_call now (of_int n) st) = (t + n * 1000000 \<le> now)"
    using Some can_make_api_call_int [OF assms, of now st] by simp
  have e: "fst (fst (check_rate_limit_status now st)) = (t + 3 * 1000000 \<le> now)"
    using Some by (simp add: check_rate_limit_status_verdict)
  have lt: "(total_seconds (now - t) < 3) = (\<not> t + 3 * 1000000 \<le> now)"
    using total_seconds_ge [of 3 "now - t"] by (simp add: not_le [symmetric]) arith
  have tr: "py_int (total_seconds (now - t)) =
      (if t \<le> now then (now - t) div 1000000
       else if t - now < 2 ^ 32 * 1000000 then - ((t - now) div 1000000)
       else py_int (total_seconds (now - t)))"
    if "\<not> t + 3 * 1000000 \<le> now"
  proof -
    consider "t \<le> now" | "\<not> t \<le> now" "t - now < 2 ^ 32 * 1000000"
      | "\<not> t \<le> now" "\<not> t - now < 2 ^ 32 * 1000000" by blast
    then show ?thesis
    proof cases
      case 1
      have "py_int (total_seconds (now - t)) = (now - t) div 1000000"
        using 1 that by (intro py_int_total_seconds) simp_all
      with 1 show ?thesis by simp
    next
      case 2
      have "py_int (total_seconds (now - t)) = - ((- (now - t)) div 1000000)"
        using 2 by (intro py_int_total_seconds_neg) simp_all
      with 2 show ?thesis by simp
    next
      case 3
      then show ?thesis by simp
    qed
  qed
  have g: "snd (fst (check_rate_limit_status now st)) =
     (if t + 3 * 1000000 \<le> now then None
      else Some ([9201, 65039] @ asc '' Aguarde '' @
             str_int (3 - (if t \<le> now then (now - t) div 1000000
                           else if t - now < 2 ^ 32 * 1000000
                                then - ((t - now) div 1000000)
                                else py_int (total_seconds (now - t)))) @
             asc '' segundo(s) antes da pr'' @ [243] @ asc ''xima an'' @ [225] @
             asc ''lise (rate limiting)''))"
  proof (cases "t + 3 * 1000000 \<le> now")
    case True
    then show ?thesis using Some by (simp add: check_rate_limit_status_def Let_def lt)
  next
    case False
    have "snd (fst (check_rate_limit_status now st)) =
        Some (rate_limit_message (3 - py_int (total_seconds (now - t))))"
      using Some False by (simp add: check_rate_limit_status_def Let_def lt)
    also have "py_int (total_seconds (now - t)) =
      (if t \<le> now then (now - t) div 1000000
       else if t - now < 2 ^ 32 * 1000000 then - ((t - now) div 1000000)
       else py_int (total_seconds (now - t)))"
      by (rule tr [OF False])
    finally show ?thesis using False by (simp add: rate_limit_message_def)
  qed
  show ?thesis
    using Some a b c d e g by simp
qed

theorem rate_gate_can_proceed_witness:
  "fst (can_make_api_call 3000000 3 \<lparr>last_api_call = Some 0\<rparr>) \<and>
   \<not> fst (can_make_api_call 2999999 3 \<lparr>last_api_call = Some 0\<rparr>) \<and>
   fst (can_make_api_call 2999999 3 \<lparr>last_api_call = None\<rparr>) \<and>
   snd (can_make_api_call 2999999 3 \<lparr>last_api_call = Some 0\<rparr>) = \<lparr>last_api_call = Some 0\<rparr> \<and>
   check_rate_limit_status 1500000 \<lparr>last_api_call = Some 0\<rparr> =
     ((False, Some ([9201, 65039] @ asc '' Aguarde 2 segundo(s) antes da pr'' @ [243] @
                    asc ''xima an'' @ [225] @ asc ''lise (rate limiting)'')),
      \<lparr>last_api_call = Some 0\<rparr>) \<and>
   fst (check_rate_limit_status 999999 \<lparr>last_api_call = Some 0\<rparr>) =
     (False, Some ([9201, 65039] @ asc '' Aguarde 3 segundo(s) antes da pr'' @ [243] @
                   asc ''xima an'' @ [225] @ asc ''lise (rate limiting)'')) \<and>
   fst (check_rate_limit_status 2999999 \<lparr>last_api_call = Some 0\<rparr>) =
     (False, Some ([9201, 65039] @ asc '' Aguarde 1 segundo(s) antes da pr'' @ [243] @
                   asc ''xima an'' @ [225] @ asc ''lise (rate limiting)'')) \<and>
   fst (check_rate_limit_status 0 \<lparr>last_api_call = Some 1500000\<rparr>) =
     (False, Some ([9201, 65039] @ asc '' Aguarde 4 segundo(s) antes da pr'' @ [243] @
                   asc ''xima an'' @ [225] @ asc ''lise (rate limiting)'')) \<and>
   fst (check_rate_limit_status 3000000 \<lparr>last_api_call = Some 0\<rparr>) = (True, None) \<and>
   fst (check_rate_limit_status 1500000 \<lparr>last_api_call = None\<rparr>) = (True, None)"
  using rate_gate_can_proceed [where n = 3 and now = 3000000 and min_interval = 3
          and st = "\<lparr>last_api_call = Some 0\<rparr>"]
        rate_gate_can_proceed [where n = 3 and now = 2999999 and min_interval = 3
          and st = "\<lparr>last_api_call = Some 0\<rparr>"]
        rate_gate_can_proceed [where n = 3 and now = 2999999 and min_interval = 3
          and st = "\<lparr>last_api_call = None\<rparr>"]
        rate_gate_can_proceed [where n = 3 and now = 1500000 and min_interval = 3
          and st = "\<lparr>last_api_call = Some 0\<rparr>"]
        rate_gate_can_proceed [where n = 3 and now = 999999 and min_interval = 3
          and st = "\<lparr>last_api_call = Some 0\<rparr>"]
        rate_gate_can_proceed [where n = 3 and now = 0 and min_interval = 3
          and st = "\<lparr>last_api_call = Some 1500000\<rparr>"]
        rate_gate_can_proceed [where n = 3 and now = 1500000 and min_interval = 3
          and st = "\<lparr>last_api_call = None\<rparr>"]
  by (simp add: prod_eq_iff str_int_def str_nat.simps total_seconds_values)

text \<open>
  C10. The two rate gates agree: whatever the last-call timestamp and the clock,
  \<open>check_rate_limit_status\<close> answers what \<open>can_make_api_call\<close> answers with its
  default interval of 3 seconds.
\<close>

theorem rate_gates_agree:
  "fst (fst (check_rate_limit_status now st)) = fst (can_make_api_call now 3 st)"
  by (cases "last_api_call st")
     (simp_all add: check_rate_limit_status_def can_make_api_call_def Let_def not_less)

subsection \<open>Error classifier\<close>

lemma fixed_messages_nonempty:
  "msg_api_key \<noteq> []" "msg_quota \<noteq> []" "msg_rate_limit \<noteq> []" "msg_timeout \<noteq> []"
  "msg_connection \<noteq> []" "msg_permission \<noteq> []" "msg_not_found \<noteq> []"
  "msg_invalid_request \<noteq> []" "msg_generic_prefix \<noteq> []"
  by (simp_all add: msg_api_key_def msg_quota_def msg_rate_limit_def msg_timeout_def
      msg_connection_def msg_permission_def msg_not_found_def msg_invalid_request_def
      msg_generic_prefix_def)

lemma friendly_nonempty: "get_friendly_error_message lower error \<noteq> []"
  by (simp add: get_friendly_error_message_def Let_def fixed_messages_nonempty)

lemma friendly_unmatched:
  "\<not> matches_known_category (lower error) \<Longrightarrow>
   get_friendly_error_message lower error = msg_generic_prefix @ take 100 error"
  by (simp add: get_friendly_error_message_def Let_def matches_known_category_def
      known_keywords_def)

lemma friendly_matched:
  "matches_known_category (lower error) \<Longrightarrow>
   get_friendly_error_message lower error \<in>
     {msg_api_key, msg_quota, msg_rate_limit, msg_timeout, msg_connection, msg_permission,
      msg_not_found, msg_invalid_request}"
  by (auto simp add: get_friendly_error_message_def Let_def matches_known_category_def
      known_keywords_def)

text \<open>
  C5. The classifier returns a non-empty string for every error text, whatever the
  case mapping. A text whose lower-cased form holds one of the known keywords gets one
  of the eight fixed messages; any other text gets the generic prefix followed by its
  first 100 characters (the whole text when it is shorter).
\<close>

theorem classifier_total:
  "get_friendly_error_message lower error \<noteq> [] \<and>
   (if matches_known_category (lower error)
    then get_friendly_error_message lower error \<in>
      {msg_api_key, msg_quota, msg_rate_limit, msg_timeout, msg_connection, msg_permission,
       msg_not_found, msg_invalid_request}
    else get_friendly_error_message lower error = msg_generic_prefix @ take 100 error \<and>
      prefix (take 100 error) error \<and> length (take 100 error) \<le> 100)"
  using friendly_nonempty [of lower error] friendly_unmatched [of lower error]
    friendly_matched [of lower error]
  by (simp add: take_is_prefix)

theorem classifier_total_witness:
  "\<not> matches_known_category (ascii_lower (asc ''Boom'')) \<and>
   get_friendly_error_message ascii_lower (asc ''Boom'') = msg_generic_prefix @ asc ''Boom'' \<and>
   \<not> matches_known_category (ascii_lower []) \<and>
   get_friendly_error_message ascii_lower [] = msg_generic_prefix \<and>
   get_friendly_error_message ascii_lower [] \<noteq> [] \<and>
   matches_known_category (ascii_lower (asc ''429 Quota exceeded'')) \<and>
   get_friendly_error_message ascii_lower (asc ''429 Quota exceeded'') \<in>
     {msg_api_key, msg_quota, msg_rate_limit, msg_timeout, msg_connection, msg_permission,
      msg_not_found, msg_invalid_request}"
proof -
  have a: "\<not> matches_known_category (ascii_lower (asc ''Boom''))"
    by (simp add: matches_known_category_def known_keywords_def ascii_lower_def)
  have b: "\<not> matches_known_category (ascii_lower [])"
    by (simp add: matches_known_category_def known_keywords_def ascii_lower_def)
  have c: "matches_known_category (ascii_lower (asc ''429 Quota exceeded''))"
    by (simp add: matches_known_category_def known_keywords_def ascii_lower_def)
  show ?thesis
    using a b c classifier_total [of ascii_lower "asc ''Boom''"]
      classifier_total [of ascii_lower "[]"]
      classifier_total [of ascii_lower "asc ''429 Quota exceeded''"]
    by (simp add: fixed_messages_nonempty)
qed

subsection \<open>Context accumulator\<close>

lemma sublist_trans: "sublist a b \<Longrightarrow> sublist b c \<Longrightarrow> sublist a c"
  unfolding sublist_def by (metis append_assoc)

lemma sublist_str_join: "x \<in> set xs \<Longrightarrow> sublist x (str_join sep xs)"
proof (induction sep xs rule: str_join.induct)
  case (1 sep)
  then show ?case by simp
next
  case (2 sep y)
  then show ?case by simp
next
  case (3 sep a b ys)
  show ?case
  proof (cases "x = a")
    case True
    then show ?thesis by simp
  next
    case False
    with 3 have "sublist x (str_join sep (b # ys))" by simp
    then show ?thesis
      using sublist_trans [of x "str_join sep (b # ys)" "a @ sep @ str_join sep (b # ys)"]
      by (simp add: sublist_append_leftI [of _ "a @ sep", simplified])
  qed
qed

lemma add_information_blank:
  "str_strip texto = [] \<Longrightarrow> add_information now_iso texto k ctx = ctx"
  by (simp add: add_information_def)

lemma str_strip_Nil: "str_strip [] = []"
  by (simp add: str_strip_def)

lemma add_information_entries:
  "str_strip texto \<noteq> [] \<Longrightarrow>
   entries (add_information now_iso texto k ctx) =
     entries ctx @ [\<lparr>timestamp = now_iso, tipo = k, conteudo = str_strip texto\<rparr>]"
  by (auto simp add: add_information_def Let_def str_strip_Nil)

lemma get_full_context_contains:
  assumes "e \<in> set (entries ctx)" "format_type \<noteq> asc ''json''"
  shows "sublist (conteudo e) (get_full_context L format_type ctx)"
proof -
  from assms(1) obtain i where i: "i < length (entries ctx)" "entries ctx ! i = e"
    by (auto simp: in_set_conv_nth)
  let ?line = "asc ''Conte'' @ [250] @ asc ''do: '' @ conteudo e"
  have "(Suc i, e) \<in> set (enumerate 1 (entries ctx))"
    using i by (auto simp: in_set_enumerate_eq)
  then have "?line \<in> set (concat (map (entry_lines L) (enumerate 1 (entries ctx))))"
    by (force simp: entry_lines_def)
  moreover have "entries ctx \<noteq> []" using assms(1) by auto
  ultimately have "sublist ?line (get_full_context L format_type ctx)"
    using assms(2)
    by (auto simp: get_full_context_def Let_def simp del: str_join.simps intro!: sublist_str_join)
  moreover have "sublist (conteudo e) ?line"
    by (metis sublist_append_leftI append_assoc)
  ultimately show ?thesis
    using sublist_trans by blast
qed

lemma str_join_Cons: "str_join sep (x # xs) = x @ concat (map (\<lambda>y. sep @ y) xs)"
  by (induction xs arbitrary: x) simp_all

lemma get_full_context_line:
  assumes "i < length (entries ctx)" "format_type \<noteq> asc ''json''"
    and "line \<in> set (entry_lines L (Suc i, entries ctx ! i))"
  shows "sublist line (get_full_context L format_type ctx)"
proof -
  have "(Suc i, entries ctx ! i) \<in> set (enumerate 1 (entries ctx))"
    using assms(1) by (auto simp: in_set_enumerate_eq)
  then have "line \<in> set (concat (map (entry_lines L) (enumerate 1 (entries ctx))))"
    using assms(3) by auto
  moreover have "entries ctx \<noteq> []" using assms(1) by auto
  ultimately show ?thesis
    using assms(2)
    by (auto simp: get_full_context_def Let_def simp del: str_join.simps intro!: sublist_str_join)
qed

lemma dados_consulta_contains:
  "e \<in> set (entries ctx) \<Longrightarrow> sublist (conteudo e) (dados_consulta ctx)"
  by (simp add: dados_consulta_def get_entries_def sublist_str_join)

lemma add_all_entries:
  "entries (add_all items ctx) =
     entries ctx @
     map (\<lambda>(now_iso, texto, k). \<lparr>timestamp = now_iso, tipo = k, conteudo = str_strip texto\<rparr>)
       (filter (\<lambda>(now_iso, texto, k). str_strip texto \<noteq> []) items)"
proof (induction items arbitrary: ctx)
  case Nil
  then show ?case by (simp add: add_all_def)
next
  case (Cons it items)
  obtain n t k where it: "it = (n, t, k)" by (cases it) auto
  have step: "add_all (it # items) ctx = add_all items (add_information n t k ctx)"
    by (simp add: add_all_def it)
  show ?case
  proof (cases "str_strip t = []")
    case True
    then show ?thesis
      unfolding step using Cons.IH [of ctx] by (simp add: add_information_blank it)
  next
    case False
    then show ?thesis
      unfolding step using Cons.IH [of "add_information n t k ctx"]
      by (simp add: add_information_entries it)
  qed
qed

lemma replicate_60: "replicate 60 c = [c, c, c, c, c, c, c, c, c, c, c, c, c, c, c, c, c, c, c, c, c, c, c, c, c, c, c, c, c, c, c, c, c, c, c, c, c, c, c, c, c, c, c, c, c, c, c, c, c, c, c, c, c, c, c, c, c, c, c, c]"
  by (simp add: numeral_eq_Suc)

lemma get_full_context_banner:
  "format_type \<noteq> asc ''json'' \<Longrightarrow> prefix banner (get_full_context L format_type ctx)"
  by (simp add: get_full_context_def Let_def banner_def)

text \<open>
  C7. A text whose trimmed form is empty leaves the context as it is. Any other text
  appends exactly one entry, which holds the trimmed text, the kind and the clock
  reading, after the entries that were there, which stay as they were; the context
  text sent to the pipeline and the text rendering of the context then both contain the
  trimmed text as a contiguous substring.
\<close>

theorem add_information_effect:
  "(str_strip texto = [] \<longrightarrow> add_information now_iso texto k ctx = ctx) \<and>
   (str_strip texto \<noteq> [] \<longrightarrow>
      entries (add_information now_iso texto k ctx) =
        entries ctx @ [\<lparr>timestamp = now_iso, tipo = k, conteudo = str_strip texto\<rparr>] \<and>
      length (entries (add_information now_iso texto k ctx)) = length (entries ctx) + 1 \<and>
      take (length (entries ctx)) (entries (add_information now_iso texto k ctx)) = entries ctx \<and>
      str_contains (str_strip texto) (dados_consulta (add_information now_iso texto k ctx)) \<and>
      (format_type \<noteq> asc ''json'' \<longrightarrow>
         str_contains (str_strip texto)
           (get_full_context L format_type (add_information now_iso texto k ctx))))"
proof (cases "str_strip texto = []")
  case True
  then show ?thesis by (simp add: add_information_blank)
next
  case False
  let ?c = "add_information now_iso texto k ctx"
  let ?e = "\<lparr>timestamp = now_iso, tipo = k, conteudo = str_strip texto\<rparr>"
  have es: "entries ?c = entries ctx @ [?e]"
    using False by (rule add_information_entries)
  then have mem: "?e \<in> set (entries ?c)" by simp
  have d: "str_contains (str_strip texto) (dados_consulta ?c)"
    using dados_consulta_contains [OF mem] by (simp add: str_contains_iff)
  have g: "format_type \<noteq> asc ''json'' \<Longrightarrow>
      str_contains (str_strip texto) (get_full_context L format_type ?c)"
    using get_full_context_contains [OF mem] by (simp add: str_contains_iff)
  show ?thesis
    using False es d g by simp
qed

theorem add_information_effect_witness:
  "str_strip (asc ''   '') = [] \<and>
   add_information (asc ''2024-01-01T10:05:00'') (asc ''   '') (asc ''dados_paciente'') context0
     = context0 \<and>
   add_information (asc ''2024-01-01T10:05:00'') [] (asc ''dados_paciente'') context0
     = context0 \<and>
   str_strip (asc '' Febre alta '') = asc ''Febre alta'' \<and>
   length (entries (add_information (asc ''2024-01-01T10:05:00'') (asc '' Febre alta '')
     (asc ''dados_paciente'') context0)) = 1 \<and>
   str_contains (asc ''Febre alta'')
     (get_full_context textlib0 (asc ''text'')
        (add_information (asc ''2024-01-01T10:05:00'') (asc '' Febre alta '')
           (asc ''dados_paciente'') context0))"
proof -
  have a: "str_strip (asc ''   '') = []"
    by (simp add: str_strip_def py_isspace_def)
  have b: "str_strip ([] :: pystr) = []"
    by (simp add: str_strip_def)
  have c: "str_strip (asc '' Febre alta '') = asc ''Febre alta''"
    by (simp add: str_strip_def py_isspace_def)
  have e: "entries context0 = []"
    by (simp add: context0_def)
  show ?thesis
    using a b c e
      add_information_effect [of "asc ''   ''" "asc ''2024-01-01T10:05:00''"
        "asc ''dados_paciente''" context0 "asc ''text''" textlib0]
      add_information_effect [of "[]" "asc ''2024-01-01T10:05:00''"
        "asc ''dados_paciente''" context0 "asc ''text''" textlib0]
      add_information_effect [of "asc '' Febre alta ''" "asc ''2024-01-01T10:05:00''"
        "asc ''dados_paciente''" context0 "asc ''text''" textlib0]
    by simp
qed

text \<open>
  The text as submitted need not occur in either rendering: of \<open>"q "\<close> only the
  trimmed \<open>"q"\<close> is stored.
\<close>

theorem add_information_render_counterexample:
  "asc ''q '' \<noteq> [] \<and> str_strip (asc ''q '') \<noteq> [] \<and>
   length (entries (add_information (asc ''2024-01-01T10:05:00'') (asc ''q '')
     (asc ''dados_paciente'') context0)) = length (entries context0) + 1 \<and>
   \<not> str_contains (asc ''q '')
     (get_full_context textlib0 (asc ''text'')
        (add_information (asc ''2024-01-01T10:05:00'') (asc ''q '')
           (asc ''dados_paciente'') context0)) \<and>
   \<not> str_contains (asc ''q '')
     (dados_consulta
        (add_information (asc ''2024-01-01T10:05:00'') (asc ''q '')
           (asc ''dados_paciente'') context0))"
  by (simp add: add_information_def context0_def str_strip_def py_isspace_def
      get_full_context_def dados_consulta_def get_entries_def textlib0_def entry_lines_def
      format_timestamp_def ascii_upper_def enumerate_eq_zip str_nat.simps Let_def replicate_60)

text \<open>
  C8. The context text that \<open>process_chat_input\<close> builds and sends to the pipeline is
  the contents of the entries joined by a blank line, in insertion order: the content of
  the first entry followed, for each later entry in turn, by two line feeds and its
  content, and the empty text when there is no entry. After a run of submissions the
  contents are those already there followed by the trimmed texts of the submissions that
  were not blank. The method \<open>get_full_context\<close>, whose text the
  application shows and sends nowhere, is a report: it starts with a banner and has, for
  the entry number \<open>i + 1\<close>, a line with that number and the kind in upper case, a line
  with the timestamp in display form and a line with the content.
\<close>

theorem context_text_is_join:
  "dados_consulta ctx = str_join [10, 10] (map conteudo (entries ctx)) \<and>
   dados_consulta ctx =
     (case entries ctx of
        [] \<Rightarrow> []
      | e # es \<Rightarrow> conteudo e @ concat (map (\<lambda>x. [10, 10] @ conteudo x) es)) \<and>
   dados_consulta (add_all items ctx) =
     str_join [10, 10]
       (map conteudo (entries ctx) @
        map (\<lambda>(now_iso, texto, k). str_strip texto)
          (filter (\<lambda>(now_iso, texto, k). str_strip texto \<noteq> []) items)) \<and>
   (format_type \<noteq> asc ''json'' \<longrightarrow>
      prefix banner (get_full_context L format_type ctx) \<and>
      (\<forall>e \<in> set (entries ctx). str_contains (conteudo e) (get_full_context L format_type ctx)) \<and>
      (\<forall>i < length (entries ctx).
         str_contains
           ([10] @ asc ''['' @ str_nat (i + 1) @ asc ''] '' @ str_upper L (tipo (entries ctx ! i)))
           (get_full_context L format_type ctx) \<and>
         str_contains (asc ''Timestamp: '' @ format_timestamp L (timestamp (entries ctx ! i)))
           (get_full_context L format_type ctx) \<and>
         str_contains (asc ''Conte'' @ [250] @ asc ''do: '' @ conteudo (entries ctx ! i))
           (get_full_context L format_type ctx)))"
proof -
  have a: "dados_consulta ctx = str_join [10, 10] (map conteudo (entries ctx))" for ctx
    by (simp add: dados_consulta_def get_entries_def)
  have m: "map conteudo
       (map (\<lambda>(now_iso, texto, k). \<lparr>timestamp = now_iso, tipo = k, conteudo = str_strip texto\<rparr>) xs) =
     map (\<lambda>(now_iso, texto, k). str_strip texto) xs" for xs :: "(pystr \<times> pystr \<times> pystr) list"
    by (induction xs) auto
  have b: "dados_consulta (add_all items ctx) =
     str_join [10, 10]
       (map conteudo (entries ctx) @
        map (\<lambda>(now_iso, texto, k). str_strip texto)
          (filter (\<lambda>(now_iso, texto, k). str_strip texto \<noteq> []) items))"
    unfolding a add_all_entries by (simp only: map_append m)
  have c: "format_type \<noteq> asc ''json'' \<Longrightarrow>
      \<forall>e \<in> set (entries ctx). str_contains (conteudo e) (get_full_context L format_type ctx)"
    using get_full_context_contains [of _ ctx format_type L] by (simp add: str_contains_iff)
  have x: "dados_consulta ctx =
     (case entries ctx of
        [] \<Rightarrow> []
      | e # es \<Rightarrow> conteudo e @ concat (map (\<lambda>x. [10, 10] @ conteudo x) es))"
  proof (cases "entries ctx")
    case Nil
    then show ?thesis unfolding a by simp
  next
    case (Cons e es)
    then show ?thesis unfolding a by (simp add: str_join_Cons comp_def del: str_join.simps)
  qed
  have d: "str_contains
           ([10] @ asc ''['' @ str_nat (i + 1) @ asc ''] '' @ str_upper L (tipo (entries ctx ! i)))
           (get_full_context L format_type ctx) \<and>
         str_contains (asc ''Timestamp: '' @ format_timestamp L (timestamp (entries ctx ! i)))
           (get_full_context L format_type ctx) \<and>
         str_contains (asc ''Conte'' @ [250] @ asc ''do: '' @ conteudo (entries ctx ! i))
           (get_full_context L format_type ctx)"
    if "format_type \<noteq> asc ''json''" "i < length (entries ctx)" for i
    unfolding str_contains_iff
    using that by (auto intro!: get_full_context_line [where i = i] simp add: entry_lines_def)
  show ?thesis
    using a [of ctx] x b c d get_full_context_banner [of format_type L ctx] by blast
qed

theorem context_text_is_join_witness:
  "dados_consulta
     (add_all [(asc ''2024-01-01T10:00:00'', asc '' Febre '', asc ''dados_paciente''),
               (asc ''2024-01-01T10:02:00'', asc ''   '', asc ''dados_paciente''),
               (asc ''2024-01-01T10:05:00'', asc ''Tosse'', asc ''dados_paciente'')] context0)
     = asc ''Febre'' @ [10, 10] @ asc ''Tosse'' \<and>
   dados_consulta context0 = [] \<and>
   prefix banner
     (get_full_context textlib0 (asc ''text'')
        (add_information (asc ''2024-01-01T10:05:00'') (asc ''Tosse'') (asc ''dados_paciente'')
           context0)) \<and>
   str_contains (asc ''Tosse'')
     (get_full_context textlib0 (asc ''text'')
        (add_information (asc ''2024-01-01T10:05:00'') (asc ''Tosse'') (asc ''dados_paciente'')
           context0)) \<and>
   str_contains ([10] @ asc ''[1] DADOS_PACIENTE'')
     (get_full_context textlib0 (asc ''text'')
        (add_information (asc ''2024-01-01T10:05:00'') (asc ''Tosse'') (asc ''dados_paciente'')
           context0)) \<and>
   str_contains (asc ''Timestamp: 01/01/2024 10:05:00'')
     (get_full_context textlib0 (asc ''text'')
        (add_information (asc ''2024-01-01T10:05:00'') (asc ''Tosse'') (asc ''dados_paciente'')
           context0)) \<and>
   str_contains (asc ''Conte'' @ [250] @ asc ''do: Tosse'')
     (get_full_context textlib0 (asc ''text'')
        (add_information (asc ''2024-01-01T10:05:00'') (asc ''Tosse'') (asc ''dados_paciente'')
           context0))"
proof -
  let ?c = "add_information (asc ''2024-01-01T10:05:00'') (asc ''Tosse'') (asc ''dados_paciente'')
           context0"
  have e: "entries ?c =
      [\<lparr>timestamp = asc ''2024-01-01T10:05:00'', tipo = asc ''dados_paciente'',
        conteudo = asc ''Tosse''\<rparr>]"
    by (simp add: add_information_def context0_def str_strip_def py_isspace_def)
  have s: "str_strip (asc '' Febre '') = asc ''Febre''" "str_strip (asc ''   '') = []"
    "str_strip (asc ''Tosse'') = asc ''Tosse''"
    by (simp_all add: str_strip_def py_isspace_def)
  have e0: "entries context0 = []" by (simp add: context0_def)
  have u: "str_upper textlib0 (asc ''dados_paciente'') = asc ''DADOS_PACIENTE''"
    "format_timestamp textlib0 (asc ''2024-01-01T10:05:00'') = asc ''01/01/2024 10:05:00''"
    "str_nat 1 = asc ''1''"
    by (simp_all add: textlib0_def ascii_upper_def format_timestamp_def str_nat.simps)
  show ?thesis
    using context_text_is_join [of context0
        "[(asc ''2024-01-01T10:00:00'', asc '' Febre '', asc ''dados_paciente''),
          (asc ''2024-01-01T10:02:00'', asc ''   '', asc ''dados_paciente''),
          (asc ''2024-01-01T10:05:00'', asc ''Tosse'', asc ''dados_paciente'')]"
        "asc ''text''" textlib0]
      context_text_is_join [of ?c "[]" "asc ''text''" textlib0] e s e0 u
    by simp
qed

text \<open>
  The report of \<open>get_full_context\<close> is not the blank-line join: not for the empty
  context, and not for a context of one entry.
\<close>

lemma get_full_context_is_not_join:
  "get_full_context textlib0 (asc ''text'') context0
     \<noteq> str_join [10, 10] (map conteudo (entries context0)) \<and>
   get_full_context textlib0 (asc ''text'')
       (add_information (asc ''2024-01-01T10:05:00'') (asc ''Tosse'') (asc ''dados_paciente'')
          context0)
     \<noteq> str_join [10, 10] (map conteudo (entries
       (add_information (asc ''2024-01-01T10:05:00'') (asc ''Tosse'') (asc ''dados_paciente'')
          context0)))"
  by (simp add: add_information_def context0_def str_strip_def py_isspace_def
      get_full_context_def textlib0_def entry_lines_def
      format_timestamp_def ascii_upper_def enumerate_eq_zip str_nat.simps Let_def replicate_60)

subsection \<open>Truncation-tolerant parser\<close>

lemma str_rstrip_decomp:
  "\<exists>tail. text = str_rstrip cs text @ tail \<and> set tail \<subseteq> set cs \<and>
     (str_rstrip cs text = [] \<or> last (str_rstrip cs text) \<notin> set cs)"
proof -
  let ?P = "\<lambda>c. c \<in> set cs"
  have split: "rev text = takeWhile ?P (rev text) @ dropWhile ?P (rev text)"
    by simp
  then have "text = rev (dropWhile ?P (rev text)) @ rev (takeWhile ?P (rev text))"
    by (metis rev_append rev_rev_ident)
  moreover have "set (rev (takeWhile ?P (rev text))) \<subseteq> set cs"
    using set_takeWhileD by fastforce
  moreover have "dropWhile ?P (rev text) = [] \<or> \<not> ?P (hd (dropWhile ?P (rev text)))"
    using hd_dropWhile by blast
  then have "str_rstrip cs text = [] \<or> last (str_rstrip cs text) \<notin> set cs"
    by (auto simp: str_rstrip_def last_rev)
  ultimately show ?thesis
    unfolding str_rstrip_def by blast
qed

lemma recover_inner:
  "(case py_in L (asc ''diagnosticos'') v of
      Inl e \<Rightarrow> None
    | Inr False \<Rightarrow> None
    | Inr True \<Rightarrow>
        (case py_getitem L v (asc ''diagnosticos'') of
           Inl e \<Rightarrow> None
         | Inr d \<Rightarrow>
             if truthy d then
               (case py_len L d of
                  Inl e \<Rightarrow> None
                | Inr recovered \<Rightarrow> Some v)
             else None)) =
   (if has_diagnosticos v then Some v else None)"
proof (cases v)
  case (JDict kvs)
  show ?thesis
  proof (cases "map_of kvs (asc ''diagnosticos'')")
    case None
    with JDict show ?thesis by (simp add: has_diagnosticos_def)
  next
    case (Some d)
    with JDict show ?thesis
      by (cases d) (simp_all add: has_diagnosticos_def)
  qed
qed (auto simp: has_diagnosticos_def split: bool.splits)

lemma recover_partial_eq:
  "recover_partial L clean_text =
     (if str_contains diagnosticos_marker clean_text then
        (case json_loads L (repair_json clean_text) of
           Inl e \<Rightarrow> None
         | Inr partial_result \<Rightarrow>
             if has_diagnosticos partial_result then Some partial_result else None)
      else None)"
  unfolding recover_partial_def recover_inner ..

lemma repair_json_tokens:
  "\<exists>tokens. repair_json text = str_rstrip [44, 10, 32] text @ concat tokens \<and>
     set tokens \<subseteq> {[10, 125], [10, 93]} \<and>
     length (filter (\<lambda>t. t = [10, 125]) tokens) =
       str_count 123 (str_rstrip [44, 10, 32] text) - str_count 125 (str_rstrip [44, 10, 32] text) \<and>
     length (filter (\<lambda>t. t = [10, 93]) tokens) =
       str_count 91 (str_rstrip [44, 10, 32] text) - str_count 93 (str_rstrip [44, 10, 32] text)"
proof -
  let ?c = "str_rstrip [44, 10, 32] text"
  let ?m = "str_count 123 ?c - str_count 125 ?c"
  let ?n = "str_count 91 ?c - str_count 93 ?c"
  let ?tokens = "replicate ?m [10, 125 :: nat] @ replicate ?n [10, 93]"
  have "repair_json text = ?c @ concat ?tokens"
    by (simp add: repair_json_def Let_def)
  moreover have "set ?tokens \<subseteq> {[10, 125], [10, 93]}"
    by auto
  moreover have "length (filter (\<lambda>t. t = [10, 125]) ?tokens) = ?m"
    by simp
  moreover have "length (filter (\<lambda>t. t = [10, 93]) ?tokens) = ?n"
    by simp
  ultimately show ?thesis by blast
qed

lemma str_count_append: "str_count c (xs @ ys) = str_count c xs + str_count c ys"
  by (simp add: str_count_def)

lemma str_count_concat_replicate:
  "str_count c (concat (replicate n t)) = n * str_count c t"
  by (induction n) (simp_all add: str_count_append, simp add: str_count_def)

lemma repair_json_balanced:
  "str_count 123 (repair_json text) \<le> str_count 125 (repair_json text) \<and>
   str_count 91 (repair_json text) \<le> str_count 93 (repair_json text)"
proof -
  have le: "a \<le> b + (a - b)" for a b :: nat
    by arith
  show ?thesis
    by (simp add: repair_json_def Let_def str_count_append str_count_concat_replicate)
       (simp add: str_count_def le)
qed

lemma txt_simps:
  "str_strip txt_cut_after_list = txt_cut_after_list"
  "str_rstrip [44, 10, 32] txt_cut_in_list = txt_cut_in_list"
  "str_rstrip [44, 10, 32] txt_cut_no_space = txt_cut_no_space"
  by (simp_all add: str_strip_def str_rstrip_def py_isspace_def txt_cut_after_list_def
      txt_cut_in_list_def txt_cut_no_space_def)

lemma clean_fenced:
  "clean_response (asc ''```json'' @ [10] @ txt_cut_after_list) = txt_cut_after_list"
  by (simp add: clean_response_def str_strip_def py_isspace_def txt_cut_after_list_def Let_def suffix_to_prefix)

lemma clean_plain:
  "clean_response txt_cut_in_list = txt_cut_in_list"
  "clean_response txt_cut_no_space = txt_cut_no_space"
  "clean_response txt_complete = txt_complete"
  by (simp_all add: clean_response_def str_strip_def py_isspace_def txt_cut_in_list_def
      txt_cut_no_space_def txt_complete_def Let_def suffix_to_prefix)

lemmas txt_defs = txt_cut_after_list_def txt_cut_in_list_def txt_cut_no_space_def txt_complete_def
  txt_six_def txt_cut_after_number_def

lemma loads0_values:
  "json_loads0 txt_cut_after_list = decode_error
     (asc ''Expecting property name enclosed in double quotes: line 1 column 34 (char 33)'')"
  "json_loads0 (str_rstrip [44, 10, 32] txt_cut_after_list @ [10, 125]) =
     Inr (JDict [(asc ''diagnosticos'', JList [diagnosis_a])])"
  "json_loads0 txt_cut_in_list = decode_error
     (asc ''Expecting '' @ [39] @ asc '','' @ [39] @ asc '' delimiter: line 1 column 23 (char 22)'')"
  "json_loads0 (txt_cut_in_list @ [10, 125, 10, 93]) = decode_error
     (asc ''Expecting '' @ [39] @ asc '','' @ [39] @ asc '' delimiter: line 2 column 1 (char 23)'')"
  "json_loads0 (txt_cut_in_list @ [10, 93, 10, 125]) =
     Inr (JDict [(asc ''diagnosticos'', JList [JInt 1, JInt 2])])"
  "json_loads0 txt_cut_no_space = decode_error
     (asc ''Expecting '' @ [39] @ asc '','' @ [39] @ asc '' delimiter: line 1 column 32 (char 31)'')"
  "json_loads0 (txt_cut_no_space @ [10, 125]) =
     Inr (JDict [(asc ''diagnosticos'', JList [diagnosis_a])])"
  "json_loads0 txt_complete = Inr (JDict [(asc ''diagnosticos'', JList [diagnosis_150])])"
  by (simp_all add: json_loads0_def txt_defs str_rstrip_def)

lemma repair_values:
  "repair_json txt_cut_after_list = str_rstrip [44, 10, 32] txt_cut_after_list @ [10, 125]"
  "repair_json txt_cut_in_list = txt_cut_in_list @ [10, 125, 10, 93]"
  "repair_json txt_cut_no_space = txt_cut_no_space @ [10, 125]"
  by (simp_all add: repair_json_def Let_def str_rstrip_def str_count_def txt_defs)

lemma marker_values:
  "str_contains diagnosticos_marker txt_cut_after_list"
  "str_contains diagnosticos_marker txt_cut_in_list"
  "\<not> str_contains diagnosticos_marker txt_cut_no_space"
  by (simp_all add: diagnosticos_marker_def txt_defs)

lemma number_values:
  "clean_response txt_cut_after_number = txt_cut_after_number"
  "json_loads0 txt_cut_after_number = decode_error
     (asc ''Expecting '' @ [39] @ asc '','' @ [39] @ asc '' delimiter: line 1 column 47 (char 46)'')"
  "repair_json txt_cut_after_number = txt_cut_after_number @ [10, 125]"
  "json_loads0 (txt_cut_after_number @ [10, 125]) =
     Inr (JDict [(asc ''a'', JDict [(asc ''diagnosticos'', JList [JInt 1])]),
                 (asc ''diagnosticos'', JInt 5)])"
  "str_contains diagnosticos_marker txt_cut_after_number"
  "txt_cut_after_number \<noteq> []"
  by (simp_all add: clean_response_def str_strip_def py_isspace_def Let_def suffix_to_prefix
      json_loads0_def txt_defs str_rstrip_def repair_json_def str_count_def
      diagnosticos_marker_def)

text \<open>
  C1. A response whose cleaned text fails the strict parse with a \<open>JSONDecodeError\<close>
  whose message holds \<open>Unterminated\<close> or \<open>Expecting\<close> is repaired only when the text
  contains \<open>"diagnosticos": [\<close>; otherwise the parser returns \<open>None\<close>. The repair removes
  trailing commas, line feeds and spaces, appends one closing brace for each opening
  brace without a partner and one closing bracket for each such opening bracket, each on
  a line of its own, so that no opening token outnumbers its closing token, and parses
  the result strictly again; the parsed value is returned when it is a dict whose
  \<open>diagnosticos\<close> is a non-empty string, list or dict, and \<open>None\<close> otherwise.
\<close>

theorem truncated_response_repair:
  assumes "json_loads L (clean_response response_text) = Inl (Exn JSONDecodeError error_msg)"
    and "truncation_signature error_msg"
  shows "parse_json_response L response_text =
           (if str_contains diagnosticos_marker (clean_response response_text) then
              (case json_loads L (repair_json (clean_response response_text)) of
                 Inl e \<Rightarrow> None
               | Inr partial_result \<Rightarrow>
                   if has_diagnosticos partial_result then Some partial_result else None)
            else None) \<and>
         (\<exists>tail tokens.
            clean_response response_text = str_rstrip [44, 10, 32] (clean_response response_text) @ tail \<and>
            set tail \<subseteq> {44, 10, 32} \<and>
            (str_rstrip [44, 10, 32] (clean_response response_text) = [] \<or>
             last (str_rstrip [44, 10, 32] (clean_response response_text)) \<notin> {44, 10, 32}) \<and>
            repair_json (clean_response response_text) =
              str_rstrip [44, 10, 32] (clean_response response_text) @ concat tokens \<and>
            set tokens \<subseteq> {[10, 125], [10, 93]} \<and>
            length (filter (\<lambda>t. t = [10, 125]) tokens) =
              str_count 123 (str_rstrip [44, 10, 32] (clean_response response_text)) -
              str_count 125 (str_rstrip [44, 10, 32] (clean_response response_text)) \<and>
            length (filter (\<lambda>t. t = [10, 93]) tokens) =
              str_count 91 (str_rstrip [44, 10, 32] (clean_response response_text)) -
              str_count 93 (str_rstrip [44, 10, 32] (clean_response response_text))) \<and>
         str_count 123 (repair_json (clean_response response_text))
           \<le> str_count 125 (repair_json (clean_response response_text)) \<and>
         str_count 91 (repair_json (clean_response response_text))
           \<le> str_count 93 (repair_json (clean_response response_text))"
proof -
  let ?c = "clean_response response_text"
  have p: "parse_json_response L response_text = recover_partial L ?c"
    using assms by (simp add: parse_json_response_def Let_def split: option.splits)
  obtain tail where t: "?c = str_rstrip [44, 10, 32] ?c @ tail" "set tail \<subseteq> set [44, 10, 32]"
    "str_rstrip [44, 10, 32] ?c = [] \<or> last (str_rstrip [44, 10, 32] ?c) \<notin> set [44, 10, 32]"
    using str_rstrip_decomp [of ?c "[44, 10, 32]"] by blast
  obtain tokens where k: "repair_json ?c = str_rstrip [44, 10, 32] ?c @ concat tokens"
    "set tokens \<subseteq> {[10, 125], [10, 93]}"
    "length (filter (\<lambda>t. t = [10, 125]) tokens) =
       str_count 123 (str_rstrip [44, 10, 32] ?c) - str_count 125 (str_rstrip [44, 10, 32] ?c)"
    "length (filter (\<lambda>t. t = [10, 93]) tokens) =
       str_count 91 (str_rstrip [44, 10, 32] ?c) - str_count 93 (str_rstrip [44, 10, 32] ?c)"
    using repair_json_tokens [of ?c] by blast
  from t(2) have t2: "set tail \<subseteq> {44, 10, 32}" by simp
  from t(3) have t3: "str_rstrip [44, 10, 32] ?c = [] \<or>
      last (str_rstrip [44, 10, 32] ?c) \<notin> {44, 10, 32}" by simp
  have ex: "\<exists>tail tokens.
            ?c = str_rstrip [44, 10, 32] ?c @ tail \<and>
            set tail \<subseteq> {44, 10, 32} \<and>
            (str_rstrip [44, 10, 32] ?c = [] \<or>
             last (str_rstrip [44, 10, 32] ?c) \<notin> {44, 10, 32}) \<and>
            repair_json ?c = str_rstrip [44, 10, 32] ?c @ concat tokens \<and>
            set tokens \<subseteq> {[10, 125], [10, 93]} \<and>
            length (filter (\<lambda>t. t = [10, 125]) tokens) =
              str_count 123 (str_rstrip [44, 10, 32] ?c) -
              str_count 125 (str_rstrip [44, 10, 32] ?c) \<and>
            length (filter (\<lambda>t. t = [10, 93]) tokens) =
              str_count 91 (str_rstrip [44, 10, 32] ?c) -
              str_count 93 (str_rstrip [44, 10, 32] ?c)"
    using t(1) t2 t3 k by blast
  show ?thesis
    using p recover_partial_eq [of L ?c] ex repair_json_balanced [of ?c] by simp
qed

theorem truncated_response_repair_witness:
  "json_loads pylib0 (clean_response (asc ''```json'' @ [10] @ txt_cut_after_list)) =
     Inl (Exn JSONDecodeError
       (asc ''Expecting property name enclosed in double quotes: line 1 column 34 (char 33)'')) \<and>
   truncation_signature
     (asc ''Expecting property name enclosed in double quotes: line 1 column 34 (char 33)'') \<and>
   str_contains diagnosticos_marker (clean_response (asc ''```json'' @ [10] @ txt_cut_after_list)) \<and>
   parse_json_response pylib0 (asc ''```json'' @ [10] @ txt_cut_after_list) =
     Some (JDict [(asc ''diagnosticos'', JList [diagnosis_a])]) \<and>
   json_loads pylib0 (clean_response txt_cut_after_number) =
     Inl (Exn JSONDecodeError
       (asc ''Expecting '' @ [39] @ asc '','' @ [39] @
        asc '' delimiter: line 1 column 47 (char 46)'')) \<and>
   truncation_signature
     (asc ''Expecting '' @ [39] @ asc '','' @ [39] @ asc '' delimiter: line 1 column 47 (char 46)'') \<and>
   str_contains diagnosticos_marker (clean_response txt_cut_after_number) \<and>
   json_loads pylib0 (repair_json (clean_response txt_cut_after_number)) =
     Inr (JDict [(asc ''a'', JDict [(asc ''diagnosticos'', JList [JInt 1])]),
                 (asc ''diagnosticos'', JInt 5)]) \<and>
   \<not> has_diagnosticos
     (JDict [(asc ''a'', JDict [(asc ''diagnosticos'', JList [JInt 1])]),
             (asc ''diagnosticos'', JInt 5)]) \<and>
   parse_json_response pylib0 txt_cut_after_number = None"
proof -
  let ?r = "asc ''```json'' @ [10] @ txt_cut_after_list"
  let ?m = "asc ''Expecting property name enclosed in double quotes: line 1 column 34 (char 33)''"
  let ?n = "asc ''Expecting '' @ [39] @ asc '','' @ [39] @
        asc '' delimiter: line 1 column 47 (char 46)''"
  let ?v = "JDict [(asc ''a'', JDict [(asc ''diagnosticos'', JList [JInt 1])]),
             (asc ''diagnosticos'', JInt 5)]"
  have c: "clean_response ?r = txt_cut_after_list"
    by (rule clean_fenced)
  have h1: "json_loads pylib0 (clean_response ?r) = Inl (Exn JSONDecodeError ?m)"
    unfolding c by (simp add: pylib0_def loads0_values(1) decode_error_def)
  have h2: "truncation_signature ?m"
    by (simp add: truncation_signature_def)
  have d: "has_diagnosticos (JDict [(asc ''diagnosticos'', JList [diagnosis_a])])"
    by (simp add: has_diagnosticos_def)
  have l2: "json_loads pylib0 (repair_json txt_cut_after_list) =
      Inr (JDict [(asc ''diagnosticos'', JList [diagnosis_a])])"
    by (simp add: pylib0_def repair_values(1) loads0_values(2))
  have first: "str_contains diagnosticos_marker (clean_response ?r) \<and>
      parse_json_response pylib0 ?r = Some (JDict [(asc ''diagnosticos'', JList [diagnosis_a])])"
    using truncated_response_repair [OF h1 h2] d l2 marker_values(1)
    unfolding c by simp
  have g1: "json_loads pylib0 (clean_response txt_cut_after_number) = Inl (Exn JSONDecodeError ?n)"
    unfolding number_values(1) by (simp add: pylib0_def number_values(2) decode_error_def)
  have g2: "truncation_signature ?n"
    by (simp add: truncation_signature_def)
  have e: "\<not> has_diagnosticos ?v"
    by (simp add: has_diagnosticos_def)
  have l3: "json_loads pylib0 (repair_json (clean_response txt_cut_after_number)) = Inr ?v"
    unfolding number_values(1) by (simp add: pylib0_def number_values(3) number_values(4))
  have m3: "str_contains diagnosticos_marker (clean_response txt_cut_after_number)"
    unfolding number_values(1) by (rule number_values(5))
  have second: "parse_json_response pylib0 txt_cut_after_number = None"
    using truncated_response_repair [OF g1 g2] e l3 m3 by simp
  show ?thesis
    using h1 h2 first g1 g2 m3 l3 e second by simp
qed

text \<open>
  Without the marker there is no second parse, although the repaired text would parse:
  the key followed by a colon without a space. And where both a brace and a bracket are
  missing, the braces come first: a response cut inside the list of diagnoses is closed
  by \<open>"\n}\n]"\<close>, which does not parse, where \<open>"\n]\n}"\<close> would.
\<close>

theorem truncated_response_repair_counterexample:
  "json_loads pylib0 (clean_response txt_cut_no_space) =
     Inl (Exn JSONDecodeError
       (asc ''Expecting '' @ [39] @ asc '','' @ [39] @
        asc '' delimiter: line 1 column 32 (char 31)'')) \<and>
   truncation_signature
     (asc ''Expecting '' @ [39] @ asc '','' @ [39] @ asc '' delimiter: line 1 column 32 (char 31)'') \<and>
   json_loads pylib0 (repair_json (clean_response txt_cut_no_space)) =
     Inr (JDict [(asc ''diagnosticos'', JList [diagnosis_a])]) \<and>
   parse_json_response pylib0 txt_cut_no_space = None \<and>
   json_loads pylib0 (clean_response txt_cut_in_list) =
     Inl (Exn JSONDecodeError
       (asc ''Expecting '' @ [39] @ asc '','' @ [39] @
        asc '' delimiter: line 1 column 23 (char 22)'')) \<and>
   repair_json (clean_response txt_cut_in_list) = txt_cut_in_list @ [10, 125] @ [10, 93] \<and>
   repair_json (clean_response txt_cut_in_list) \<noteq> txt_cut_in_list @ [10, 93] @ [10, 125] \<and>
   json_loads pylib0 (txt_cut_in_list @ [10, 93] @ [10, 125]) =
     Inr (JDict [(asc ''diagnosticos'', JList [JInt 1, JInt 2])]) \<and>
   parse_json_response pylib0 txt_cut_in_list = None"
  by (simp add: clean_plain pylib0_def loads0_values repair_values decode_error_def
      truncation_signature_def parse_json_response_def recover_partial_def marker_values)

subsection \<open>Response pipeline\<close>

lemma last_set_append: "last_set (xs @ ys) x = last_set ys (last_set xs x)"
  by (induction xs x rule: last_set.induct) auto

lemma sleeps_append: "sleeps (xs @ ys) = sleeps xs @ sleeps ys"
  by (induction xs rule: sleeps.induct) auto

lemma sleeps_attempt_events: "sleeps (attempt_events remote clock k) = []"
  by (simp add: attempt_events_def split: remote_outcome.splits)

lemma run_events_same: "run_events remote clock n n = attempt_events remote clock n"
  by (simp add: run_events_def)

lemma run_events_step:
  "a < n \<Longrightarrow> run_events remote clock a n =
     attempt_events remote clock a @ [Sleep (2 ^ a)] @ run_events remote clock (Suc a) n"
  by (simp add: run_events_def upt_conv_Cons)

lemma sleeps_run_events:
  "a \<le> n \<Longrightarrow> sleeps (run_events remote clock a n) = map (\<lambda>k. 2 ^ k) [a..<n]"
proof (induction "n - a" arbitrary: a)
  case 0
  then show ?case by (simp add: run_events_same sleeps_attempt_events)
next
  case (Suc d)
  then have lt: "a < n" and d: "d = n - Suc a" and le: "Suc a \<le> n" by auto
  show ?case
    using Suc.hyps(1) [OF d le] lt
    by (simp add: run_events_step sleeps_append sleeps_attempt_events upt_conv_Cons)
qed

lemma run_attempt_outcome:
  "fst (run_attempt L remote clock attempt w) = attempt_outcome_of L remote attempt"
  by (simp add: run_attempt_def attempt_outcome_of_def Let_def split: remote_outcome.splits)

lemma run_attempt_trace:
  "trace (snd (run_attempt L remote clock attempt w)) =
     trace w @ attempt_events remote clock attempt"
  by (simp add: run_attempt_def attempt_events_def Let_def split: remote_outcome.splits)

lemma run_attempt_last:
  "last_api_call (snd (run_attempt L remote clock attempt w)) =
     last_set (attempt_events remote clock attempt) (last_api_call w)"
  by (simp add: run_attempt_def attempt_events_def Let_def split: remote_outcome.splits)

lemma retry_loop_success:
  assumes "int attempt < max_retries"
    and "attempt_outcome_of L remote attempt = Succeeded r"
  shows "retry_loop L remote clock max_retries attempt w =
     ((Some r, None), snd (run_attempt L remote clock attempt w))"
proof -
  obtain o' w' where rw: "run_attempt L remote clock attempt w = (o', w')"
    by (cases "run_attempt L remote clock attempt w")
  with run_attempt_outcome [of L remote clock attempt w] assms(2) have "o' = Succeeded r"
    by simp
  with rw assms(1) show ?thesis
    by (subst retry_loop.simps) simp
qed

lemma retry_loop_last:
  assumes "int attempt < max_retries" "\<not> int attempt < max_retries - 1"
    and "\<not> is_success (attempt_outcome_of L remote attempt)"
  shows "retry_loop L remote clock max_retries attempt w =
     ((None, Some (final_message L (attempt_outcome_of L remote attempt))),
      snd (run_attempt L remote clock attempt w))"
proof -
  obtain o' w' where rw: "run_attempt L remote clock attempt w = (o', w')"
    by (cases "run_attempt L remote clock attempt w")
  with run_attempt_outcome [of L remote clock attempt w]
  have o: "attempt_outcome_of L remote attempt = o'"
    by simp
  show ?thesis
    using assms rw unfolding o
    by (subst retry_loop.simps) (cases o'; simp add: Let_def)
qed

lemma retry_loop_again:
  assumes "int attempt < max_retries - 1"
    and "\<not> is_success (attempt_outcome_of L remote attempt)"
  shows "retry_loop L remote clock max_retries attempt w =
     retry_loop L remote clock max_retries (Suc attempt)
       (sleep (2 ^ attempt) (snd (run_attempt L remote clock attempt w)))"
proof -
  obtain o' w' where rw: "run_attempt L remote clock attempt w = (o', w')"
    by (cases "run_attempt L remote clock attempt w")
  with run_attempt_outcome [of L remote clock attempt w]
  have o: "attempt_outcome_of L remote attempt = o'"
    by simp
  show ?thesis
    using assms rw unfolding o
    by (subst retry_loop.simps) (cases o'; simp add: Let_def)
qed

lemma retry_loop_none:
  "\<not> int attempt < max_retries \<Longrightarrow>
   retry_loop L remote clock max_retries attempt w = ((None, Some msg_unknown), w)"
  by (subst retry_loop.simps) simp

lemma retry_loop_run:
  assumes "int attempt < max_retries"
  shows "\<exists>n. attempt \<le> n \<and> int n < max_retries \<and>
     trace (snd (retry_loop L remote clock max_retries attempt w)) =
       trace w @ run_events remote clock attempt n \<and>
     last_api_call (snd (retry_loop L remote clock max_retries attempt w)) =
       last_set (run_events remote clock attempt n) (last_api_call w) \<and>
     (\<forall>k. attempt \<le> k \<and> k < n \<longrightarrow> \<not> is_success (attempt_outcome_of L remote k)) \<and>
     (is_success (attempt_outcome_of L remote n) \<or> int n = max_retries - 1) \<and>
     fst (retry_loop L remote clock max_retries attempt w) =
       (case attempt_outcome_of L remote n of
          Succeeded r \<Rightarrow> (Some r, None)
        | ParseFailed \<Rightarrow> (None, Some (final_message L ParseFailed))
        | Failed e \<Rightarrow> (None, Some (final_message L (Failed e))))"
  using assms
proof (induction "nat (max_retries - 1 - int attempt)" arbitrary: attempt w)
  case 0
  then have last: "\<not> int attempt < max_retries - 1" by simp
  let ?w = "snd (run_attempt L remote clock attempt w)"
  show ?case
  proof (cases "attempt_outcome_of L remote attempt")
    case (Succeeded r)
    have "retry_loop L remote clock max_retries attempt w = ((Some r, None), ?w)"
      using retry_loop_success [OF "0.prems" Succeeded] .
    then show ?thesis
      using Succeeded "0.prems"
      by (intro exI [of _ attempt])
         (auto simp add: run_events_same run_attempt_trace run_attempt_last)
  next
    case ParseFailed
    then have ns: "\<not> is_success (attempt_outcome_of L remote attempt)" by simp
    show ?thesis
      using retry_loop_last [OF "0.prems" last ns, of clock w] ParseFailed "0.prems" last
      by (intro exI [of _ attempt])
         (auto simp add: run_events_same run_attempt_trace run_attempt_last)
  next
    case (Failed e)
    then have ns: "\<not> is_success (attempt_outcome_of L remote attempt)" by simp
    show ?thesis
      using retry_loop_last [OF "0.prems" last ns, of clock w] Failed "0.prems" last
      by (intro exI [of _ attempt])
         (auto simp add: run_events_same run_attempt_trace run_attempt_last)
  qed
next
  case (Suc d)
  then have more: "int attempt < max_retries - 1" by simp
  then have lt: "int attempt < max_retries" by simp
  let ?w = "snd (run_attempt L remote clock attempt w)"
  show ?case
  proof (cases "is_success (attempt_outcome_of L remote attempt)")
    case True
    then obtain r where r: "attempt_outcome_of L remote attempt = Succeeded r"
      by (cases "attempt_outcome_of L remote attempt") auto
    have "retry_loop L remote clock max_retries attempt w = ((Some r, None), ?w)"
      using retry_loop_success [OF lt r] .
    then show ?thesis
      using r lt
      by (intro exI [of _ attempt])
         (auto simp add: run_events_same run_attempt_trace run_attempt_last)
  next
    case False
    let ?w' = "sleep (2 ^ attempt) ?w"
    have step: "retry_loop L remote clock max_retries attempt w =
        retry_loop L remote clock max_retries (Suc attempt) ?w'"
      using retry_loop_again [OF more False] .
    have d: "d = nat (max_retries - 1 - int (Suc attempt))"
      using Suc.hyps(2) by simp
    have lt': "int (Suc attempt) < max_retries"
      using more by simp
    obtain n where n: "Suc attempt \<le> n" "int n < max_retries"
      "trace (snd (retry_loop L remote clock max_retries (Suc attempt) ?w')) =
         trace ?w' @ run_events remote clock (Suc attempt) n"
      "last_api_call (snd (retry_loop L remote clock max_retries (Suc attempt) ?w')) =
         last_set (run_events remote clock (Suc attempt) n) (last_api_call ?w')"
      "\<forall>k. Suc attempt \<le> k \<and> k < n \<longrightarrow> \<not> is_success (attempt_outcome_of L remote k)"
      "is_success (attempt_outcome_of L remote n) \<or> int n = max_retries - 1"
      "fst (retry_loop L remote clock max_retries (Suc attempt) ?w') =
         (case attempt_outcome_of L remote n of
            Succeeded r \<Rightarrow> (Some r, None)
          | ParseFailed \<Rightarrow> (None, Some (final_message L ParseFailed))
          | Failed e \<Rightarrow> (None, Some (final_message L (Failed e))))"
      using Suc.hyps(1) [OF d lt', of ?w'] by blast
    have an: "attempt < n" using n(1) by simp
    have tr: "trace ?w' = trace w @ attempt_events remote clock attempt @ [Sleep (2 ^ attempt)]"
      by (simp add: sleep_def run_attempt_trace)
    have la: "last_api_call ?w' = last_set (attempt_events remote clock attempt) (last_api_call w)"
      by (simp add: sleep_def run_attempt_last)
    have t: "trace (snd (retry_loop L remote clock max_retries attempt w)) =
        trace w @ run_events remote clock attempt n"
      unfolding step n(3) tr run_events_step [OF an] by simp
    have l: "last_api_call (snd (retry_loop L remote clock max_retries attempt w)) =
        last_set (run_events remote clock attempt n) (last_api_call w)"
      unfolding step n(4) la run_events_step [OF an] by (simp add: last_set_append)
    have f: "\<forall>k. attempt \<le> k \<and> k < n \<longrightarrow> \<not> is_success (attempt_outcome_of L remote k)"
    proof (intro allI impI)
      fix k assume k: "attempt \<le> k \<and> k < n"
      show "\<not> is_success (attempt_outcome_of L remote k)"
      proof (cases "k = attempt")
        case True
        with False show ?thesis by simp
      next
        case ne: False
        with k have "Suc attempt \<le> k \<and> k < n" by auto
        with n(5) show ?thesis by blast
      qed
    qed
    show ?thesis
      using an n(2) t l f n(6) n(7) unfolding step
      by (intro exI [of _ n]) simp
  qed
qed

lemma analyze_case_loop:
  "configured \<Longrightarrow> str_strip ctx \<noteq> [] \<Longrightarrow>
   analyze_case L configured remote clock ctx specialty max_retries w =
     retry_loop L remote clock max_retries 0 w"
  by (auto simp: analyze_case_def str_strip_def)

lemma analyze_case_early:
  "\<not> configured \<or> str_strip ctx = [] \<Longrightarrow>
   snd (analyze_case L configured remote clock ctx specialty max_retries w) = w \<and>
   (\<exists>m. fst (analyze_case L configured remote clock ctx specialty max_retries w) = (None, Some m)
      \<and> m \<noteq> [])"
  by (auto simp: analyze_case_def msg_not_configured_def msg_empty_context_def)

lemma attempt_events_ends:
  "hd (attempt_events remote clock k) = Generate k"
  "attempt_events remote clock k \<noteq> []"
  "last (attempt_events remote clock k) \<noteq> Sleep s"
  by (simp_all add: attempt_events_def split: remote_outcome.splits)

lemma run_events_ends:
  assumes "a \<le> n"
  shows "hd (run_events remote clock a n) = Generate a"
    and "last (run_events remote clock a n) \<noteq> Sleep s"
proof -
  show "hd (run_events remote clock a n) = Generate a"
  proof (cases "a = n")
    case True
    then show ?thesis by (simp add: run_events_same attempt_events_ends)
  next
    case False
    with assms have "a < n" by simp
    then show ?thesis
      by (simp add: run_events_step attempt_events_ends)
  qed
  show "last (run_events remote clock a n) \<noteq> Sleep s"
    by (simp add: run_events_def attempt_events_ends)
qed

lemma run_events_0_2:
  "run_events remote clock 0 2 =
     attempt_events remote clock 0 @ [Sleep 1] @
     attempt_events remote clock 1 @ [Sleep 2] @
     attempt_events remote clock 2"
proof -
  have "[0..<2] = [0, Suc 0]"
    by (simp add: upt_conv_Cons)
  then show ?thesis
    by (simp add: run_events_def)
qed

lemma lib0: "json_loads pylib0 = json_loads0" "str_lower pylib0 = ascii_lower"
  by (simp_all add: pylib0_def)

lemma clean_complete: "clean_response txt_complete = txt_complete"
  by (simp add: clean_response_def str_strip_def py_isspace_def txt_complete_def Let_def
      suffix_to_prefix)

lemma loads0_complete:
  "json_loads0 txt_complete = Inr (JDict [(asc ''diagnosticos'', JList [diagnosis_150])])"
  by (simp add: json_loads0_def txt_defs str_rstrip_def)

lemma parse_complete:
  "parse_json_response pylib0 txt_complete =
     Some (JDict [(asc ''diagnosticos'', JList [diagnosis_150])])"
  by (simp add: parse_json_response_def clean_complete lib0 loads0_complete)

lemma parse_prose: "parse_json_response pylib0 txt_prose = None"
proof -
  have c: "clean_response txt_prose = txt_prose"
    by (simp add: clean_response_def str_strip_def py_isspace_def Let_def suffix_to_prefix
        txt_prose_def)
  have l: "json_loads0 txt_prose =
      decode_error (asc ''Expecting value: line 1 column 1 (char 0)'')"
    by (simp add: json_loads0_def txt_defs str_rstrip_def txt_prose_def)
  have m: "\<not> str_contains diagnosticos_marker txt_prose"
    by (simp add: diagnosticos_marker_def txt_prose_def)
  have t: "truncation_signature (asc ''Expecting value: line 1 column 1 (char 0)'')"
    by (simp add: truncation_signature_def)
  show ?thesis
    unfolding parse_json_response_def c
    using t by (simp add: lib0 l decode_error_def recover_partial_def m)
qed

lemma nonempty_complete: "txt_complete \<noteq> []" "txt_prose \<noteq> []"
  by (simp_all add: txt_complete_def txt_prose_def)

lemma outcome_quota:
  "attempt_outcome_of pylib0 remote_quota k =
     Failed (Exn OtherException (asc ''429 Quota exceeded''))"
  by (simp add: attempt_outcome_of_def remote_quota_def)

lemma outcome_prose: "attempt_outcome_of pylib0 remote_prose k = ParseFailed"
  by (simp add: attempt_outcome_of_def remote_prose_def process_response_def
      parse_prose nonempty_complete)

lemma parse_number: "parse_json_response pylib0 txt_cut_after_number = None"
proof -
  have t: "truncation_signature
      (asc ''Expecting '' @ [39] @ asc '','' @ [39] @ asc '' delimiter: line 1 column 47 (char 46)'')"
    by (simp add: truncation_signature_def)
  show ?thesis
    unfolding parse_json_response_def number_values(1)
    using t
    by (simp add: lib0 number_values(2) decode_error_def recover_partial_def number_values(5)
        number_values(3) number_values(4))
qed

lemma outcome_number: "attempt_outcome_of pylib0 remote_number k = ParseFailed"
  by (simp add: attempt_outcome_of_def remote_number_def process_response_def parse_number
      number_values(6))

lemma outcome_complete:
  "attempt_outcome_of pylib0 remote_complete k =
     Succeeded (JDict [(asc ''diagnosticos'', JList [diagnosis_150])])"
  by (simp add: attempt_outcome_of_def remote_complete_def process_response_def parse_complete
      check_structure_def nonempty_complete)

lemma outcome_mixed:
  "attempt_outcome_of pylib0 remote_mixed 0 = Failed (Exn OtherException (asc ''Connection reset''))"
  "attempt_outcome_of pylib0 remote_mixed (Suc 0) = ParseFailed"
  "attempt_outcome_of pylib0 remote_mixed (Suc (Suc 0)) =
     Succeeded (JDict [(asc ''diagnosticos'', JList [diagnosis_150])])"
  by (simp_all add: attempt_outcome_of_def remote_mixed_def process_response_def parse_complete
      parse_prose check_structure_def nonempty_complete)

lemma friendly_quota:
  "get_friendly_error_message ascii_lower (asc ''429 Quota exceeded'') = msg_quota"
  by (simp add: get_friendly_error_message_def ascii_lower_def Let_def)

lemma ctx_nonblank: "str_strip case_text0 \<noteq> []"
  by (simp add: str_strip_def py_isspace_def case_text0_def)

lemma run_quota:
  "fst (analyze_case pylib0 True remote_quota clock0 case_text0 specialty0 3 world0) = (None, Some msg_quota)"
  "last_api_call (snd (analyze_case pylib0 True remote_quota clock0 case_text0 specialty0 3 world0)) = None"
  by (simp_all add: analyze_case_loop ctx_nonblank retry_loop_again retry_loop_last outcome_quota
      friendly_quota [simplified] lib0 run_attempt_def sleep_def remote_quota_def world0_def Let_def)

lemma run_prose:
  "fst (analyze_case pylib0 True remote_prose clock0 case_text0 specialty0 3 world0) = (None, Some msg_parse_failed)"
  by (simp add: analyze_case_loop ctx_nonblank retry_loop_again retry_loop_last outcome_prose)

lemma run_number:
  "fst (analyze_case pylib0 True remote_number clock0 case_text0 specialty0 3 world0) =
     (None, Some msg_parse_failed)"
  by (simp add: analyze_case_loop ctx_nonblank retry_loop_again retry_loop_last outcome_number)

lemma run_complete:
  "fst (analyze_case pylib0 True remote_complete clock0 case_text0 specialty0 3 world0) =
     (Some (JDict [(asc ''diagnosticos'', JList [diagnosis_150])]), None)"
  by (simp add: analyze_case_loop ctx_nonblank retry_loop_success outcome_complete)

lemma run_mixed:
  "fst (analyze_case pylib0 True remote_mixed clock0 case_text0 specialty0 3 world0) =
     (Some (JDict [(asc ''diagnosticos'', JList [diagnosis_150])]), None)"
  by (simp add: analyze_case_loop ctx_nonblank retry_loop_again retry_loop_success outcome_mixed)

lemma pipeline_messages_nonempty:
  "msg_parse_failed \<noteq> []" "msg_unknown \<noteq> []" "msg_not_configured \<noteq> []"
  "msg_empty_context \<noteq> []"
  by (simp_all add: msg_parse_failed_def msg_unknown_def msg_not_configured_def
      msg_empty_context_def)

lemma run_events_Suc:
  "a \<le> n \<Longrightarrow> run_events remote clock a (Suc n) =
     run_events remote clock a n @ [Sleep (2 ^ n)] @ attempt_events remote clock (Suc n)"
  by (simp add: run_events_def)

lemma last_set_attempt_events:
  "last_set (attempt_events remote clock k) x =
     (case remote k of Returns r \<Rightarrow> Some (clock k) | Raises e \<Rightarrow> x)"
  by (simp add: attempt_events_def split: remote_outcome.splits)

lemma last_set_run_events:
  "last_set (run_events remote clock 0 n) x =
     (case last_returned remote n of Some k \<Rightarrow> Some (clock k) | None \<Rightarrow> x)"
proof (induction n)
  case 0
  show ?case
    by (simp add: run_events_same last_set_attempt_events split: remote_outcome.splits)
next
  case (Suc n)
  show ?case
    using Suc.IH
    by (simp add: run_events_Suc last_set_append last_set_attempt_events
        split: remote_outcome.splits)
qed

lemma trace_mixed:
  "snd (analyze_case pylib0 True remote_mixed clock0 case_text0 specialty0 3 world0) =
     \<lparr>last_api_call = Some (clock0 2),
      trace = [Generate 0, Sleep 1, Generate 1, SetLastApiCall (clock0 1), Sleep 2,
               Generate 2, SetLastApiCall (clock0 2)]\<rparr>"
  by (simp add: analyze_case_loop ctx_nonblank retry_loop_again retry_loop_success outcome_mixed
      run_attempt_def sleep_def remote_mixed_def world0_def Let_def numeral_2_eq_2)

lemma trace_quota:
  "snd (analyze_case pylib0 True remote_quota clock0 case_text0 specialty0 3 world0) =
     \<lparr>last_api_call = None,
      trace = [Generate 0, Sleep 1, Generate 1, Sleep 2, Generate 2]\<rparr>"
  by (simp add: analyze_case_loop ctx_nonblank retry_loop_again retry_loop_last outcome_quota
      run_attempt_def sleep_def remote_quota_def world0_def Let_def numeral_2_eq_2)

lemma check_structure_Inr:
  assumes "check_structure L result = Inr r"
  shows "\<exists>ds. diagnosticos_of result = Some ds \<and> diagnosticos_of r = Some (take 5 ds)"
proof (cases result)
  case (JDict kvs)
  show ?thesis
  proof (cases "map_of kvs (asc ''diagnosticos'')")
    case None
    with assms JDict show ?thesis by (simp add: check_structure_def)
  next
    case (Some d)
    with assms JDict obtain ds where d: "d = JList ds"
      by (cases d) (simp_all add: check_structure_def)
    with assms JDict Some
    have "r = JDict (AList.update (asc ''diagnosticos'') (JList (take 5 ds)) kvs)"
      by (simp add: check_structure_def)
    with JDict Some d show ?thesis
      by (simp add: diagnosticos_of_def update_conv')
  qed
qed (insert assms, auto simp add: check_structure_def split: bool.splits)

lemma process_response_Succeeded:
  assumes "process_response L response = Succeeded r"
  shows "\<exists>body result. response = Response (Some body) \<and>
     parse_json_response L body = Some result \<and> check_structure L result = Inr r"
  using assms
  by (auto simp: process_response_def
      split: response.splits option.splits if_splits sum.splits)

lemma analyze_case_Some:
  assumes "fst (analyze_case L configured remote clock ctx specialty max_retries w) = (Some r, None)"
  shows "\<exists>n. int n < max_retries \<and> attempt_outcome_of L remote n = Succeeded r"
proof -
  let ?R = "analyze_case L configured remote clock ctx specialty max_retries w"
  have c: "configured \<and> str_strip ctx \<noteq> []"
    using assms analyze_case_early [of configured ctx L remote clock specialty max_retries w]
    by auto
  then have eq: "?R = retry_loop L remote clock max_retries 0 w"
    by (simp add: analyze_case_loop)
  have pos: "int 0 < max_retries"
    using assms retry_loop_none [of 0 max_retries L remote clock w] unfolding eq
    by (cases "0 < max_retries") auto
  obtain n where n: "int n < max_retries"
    "fst ?R =
       (case attempt_outcome_of L remote n of
          Succeeded r \<Rightarrow> (Some r, None)
        | ParseFailed \<Rightarrow> (None, Some (final_message L ParseFailed))
        | Failed e \<Rightarrow> (None, Some (final_message L (Failed e))))"
    using retry_loop_run [OF pos, of L remote clock w] unfolding eq by auto
  from n(2) assms have "attempt_outcome_of L remote n = Succeeded r"
    by (cases "attempt_outcome_of L remote n") simp_all
  with n(1) show ?thesis by blast
qed

lemma in_range_from_checks:
  "is_number p \<Longrightarrow> \<not> num_less p 0 \<Longrightarrow> \<not> num_greater p 100 \<Longrightarrow> probability_in_range p"
proof (cases p)
  case (JFloat f)
  assume "is_number p" "\<not> num_less p 0" "\<not> num_greater p 100"
  with JFloat show ?thesis
    by (cases f) (simp_all add: probability_in_range_def)
qed (simp_all add: probability_in_range_def)

lemma validate_entries_ok:
  "fst (validate_entries idx ds) \<Longrightarrow>
   \<forall>d \<in> set ds. \<exists>kvs p. d = JDict kvs \<and> map_of kvs (asc ''probabilidade'') = Some p \<and>
     probability_in_range p"
proof (induction ds arbitrary: idx)
  case Nil
  then show ?case by simp
next
  case (Cons d ds)
  from Cons.prems obtain kvs where d: "d = JDict kvs"
    by (cases d) simp_all
  from Cons.prems d obtain p where p: "map_of kvs (asc ''probabilidade'') = Some p"
    by (cases "map_of kvs (asc ''probabilidade'')") (simp_all split: if_splits)
  from Cons.prems d p have chk: "is_number p" "\<not> num_less p 0" "\<not> num_greater p 100"
    and rest: "fst (validate_entries (Suc idx) ds)"
    by (simp_all add: Let_def split: if_splits)
  from chk have "probability_in_range p"
    by (rule in_range_from_checks)
  with d p Cons.IH [OF rest] show ?case by simp
qed

lemma validate_diagnosticos_ok:
  "fst (validate_diagnosticos (JList ds)) \<Longrightarrow>
   \<forall>d \<in> set ds. \<exists>kvs p. d = JDict kvs \<and> map_of kvs (asc ''probabilidade'') = Some p \<and>
     probability_in_range p"
  using validate_entries_ok [of 0 ds]
  by (simp add: validate_diagnosticos_def split: if_splits)

lemma parse_six:
  "parse_json_response pylib0 txt_six = Some (JDict [(asc ''diagnosticos'', JList six_diagnoses)])"
proof -
  have c: "clean_response txt_six = txt_six"
    by (simp add: clean_response_def str_strip_def py_isspace_def txt_six_def Let_def
        suffix_to_prefix)
  have l: "json_loads0 txt_six = Inr (JDict [(asc ''diagnosticos'', JList six_diagnoses)])"
    by (simp add: json_loads0_def txt_defs str_rstrip_def)
  show ?thesis
    unfolding parse_json_response_def c by (simp add: lib0 l)
qed

lemma take_six:
  "take 5 six_diagnoses =
     [diagnosis (asc ''A'') 60, diagnosis (asc ''B'') 50, diagnosis (asc ''C'') 40,
      diagnosis (asc ''D'') 30, diagnosis (asc ''E'') 20]"
  by (simp add: six_diagnoses_def)

lemma outcome_six:
  "attempt_outcome_of pylib0 remote_six k =
     Succeeded (JDict [(asc ''diagnosticos'', JList (take 5 six_diagnoses))])"
proof -
  have n: "txt_six \<noteq> []" "six_diagnoses \<noteq> []"
    by (simp_all add: txt_six_def six_diagnoses_def)
  show ?thesis
    by (simp add: attempt_outcome_of_def remote_six_def process_response_def parse_six
        check_structure_def n)
qed

lemma run_six:
  "fst (analyze_case pylib0 True remote_six clock0 case_text0 specialty0 3 world0) =
     (Some (JDict [(asc ''diagnosticos'', JList (take 5 six_diagnoses))]), None)"
  by (simp add: analyze_case_loop ctx_nonblank retry_loop_success outcome_six)

lemma validate_five:
  "validate_diagnosticos (JList (take 5 six_diagnoses)) = (True, None)"
  by (simp add: take_six validate_diagnosticos_def diagnosis_def Let_def)

text \<open>
  C2. A call with \<open>max_retries = 3\<close> that is refused before the loop (no model, blank
  context) calls the endpoint and sleeps not at all. Any other call runs the attempts 0
  to \<open>n\<close> for some \<open>n\<close> below 3: the trace is the events of attempt 0, then for each further
  attempt a sleep of 2 to the power of the number of the attempt before it, followed by
  the events of the attempt. It starts with the call of attempt 0 and does not end with a
  sleep. When no result is returned all three attempts have run and the sleeps are 1 and
  2, between attempts 0 and 1 and between attempts 1 and 2.
\<close>

theorem backoff_schedule:
  "(\<not> configured \<or> str_strip ctx = [] \<longrightarrow>
      trace (snd (analyze_case L configured remote clock ctx specialty 3 w)) = trace w) \<and>
   (configured \<and> str_strip ctx \<noteq> [] \<longrightarrow>
      (\<exists>n<3.
         trace (snd (analyze_case L configured remote clock ctx specialty 3 w)) =
           trace w @ run_events remote clock 0 n \<and>
         sleeps (run_events remote clock 0 n) = map (\<lambda>k. 2 ^ k) [0..<n] \<and>
         hd (run_events remote clock 0 n) = Generate 0 \<and>
         (\<forall>s. last (run_events remote clock 0 n) \<noteq> Sleep s) \<and>
         (fst (fst (analyze_case L configured remote clock ctx specialty 3 w)) = None \<longrightarrow>
            n = 2 \<and>
            sleeps (run_events remote clock 0 n) = [1, 2] \<and>
            run_events remote clock 0 n =
              attempt_events remote clock 0 @ [Sleep 1] @
              attempt_events remote clock 1 @ [Sleep 2] @
              attempt_events remote clock 2)))"
proof (intro conjI impI)
  assume "\<not> configured \<or> str_strip ctx = []"
  then show "trace (snd (analyze_case L configured remote clock ctx specialty 3 w)) = trace w"
    using analyze_case_early [of configured ctx L remote clock specialty 3 w] by simp
next
  assume a: "configured \<and> str_strip ctx \<noteq> []"
  let ?R = "analyze_case L configured remote clock ctx specialty 3 w"
  have eq: "?R = retry_loop L remote clock 3 0 w"
    using a by (simp add: analyze_case_loop)
  obtain n where n: "int n < 3"
    "trace (snd ?R) = trace w @ run_events remote clock 0 n"
    "is_success (attempt_outcome_of L remote n) \<or> int n = 3 - 1"
    "fst ?R =
       (case attempt_outcome_of L remote n of
          Succeeded r \<Rightarrow> (Some r, None)
        | ParseFailed \<Rightarrow> (None, Some (final_message L ParseFailed))
        | Failed e \<Rightarrow> (None, Some (final_message L (Failed e))))"
    using retry_loop_run [of 0 3 L remote clock w] unfolding eq by auto
  have s: "sleeps (run_events remote clock 0 n) = map (\<lambda>k. 2 ^ k) [0..<n]"
    by (simp add: sleeps_run_events)
  have none: "n = 2" if "fst (fst ?R) = None"
  proof -
    from that n(4) have "\<not> is_success (attempt_outcome_of L remote n)"
      by (cases "attempt_outcome_of L remote n") auto
    with n(3) show ?thesis by simp
  qed
  have two: "[0..<2] = [0, Suc 0]"
    by (simp add: upt_conv_Cons)
  have s2: "sleeps (run_events remote clock 0 2) = [1, 2]"
    by (simp add: sleeps_run_events two)
  show "\<exists>n<3.
         trace (snd ?R) = trace w @ run_events remote clock 0 n \<and>
         sleeps (run_events remote clock 0 n) = map (\<lambda>k. 2 ^ k) [0..<n] \<and>
         hd (run_events remote clock 0 n) = Generate 0 \<and>
         (\<forall>s. last (run_events remote clock 0 n) \<noteq> Sleep s) \<and>
         (fst (fst ?R) = None \<longrightarrow>
            n = 2 \<and>
            sleeps (run_events remote clock 0 n) = [1, 2] \<and>
            run_events remote clock 0 n =
              attempt_events remote clock 0 @ [Sleep 1] @
              attempt_events remote clock 1 @ [Sleep 2] @
              attempt_events remote clock 2)"
  proof (intro exI [of _ n] conjI impI allI)
    show "n < 3" using n(1) by simp
    show "trace (snd ?R) = trace w @ run_events remote clock 0 n" by (rule n(2))
    show "sleeps (run_events remote clock 0 n) = map (\<lambda>k. 2 ^ k) [0..<n]" by (rule s)
    show "hd (run_events remote clock 0 n) = Generate 0"
      by (simp add: run_events_ends)
    show "last (run_events remote clock 0 n) \<noteq> Sleep s" for s
      by (simp add: run_events_ends)
    show "n = 2" if "fst (fst ?R) = None"
      using that by (rule none)
    show "sleeps (run_events remote clock 0 n) = [1, 2]" if "fst (fst ?R) = None"
      using none [OF that] s2 by simp
    show "run_events remote clock 0 n =
              attempt_events remote clock 0 @ [Sleep 1] @
              attempt_events remote clock 1 @ [Sleep 2] @
              attempt_events remote clock 2" if "fst (fst ?R) = None"
      using none [OF that] run_events_0_2 [of remote clock] by simp
  qed
qed

theorem backoff_schedule_witness:
  "str_strip case_text0 \<noteq> [] \<and>
   fst (analyze_case pylib0 True remote_quota clock0 case_text0 specialty0 3 world0) = (None, Some msg_quota) \<and>
   trace (snd (analyze_case pylib0 True remote_quota clock0 case_text0 specialty0 3 world0)) =
     [Generate 0, Sleep 1, Generate 1, Sleep 2, Generate 2] \<and>
   trace (snd (analyze_case pylib0 False remote_quota clock0 case_text0 specialty0 3 world0)) = []"
  using backoff_schedule [of True case_text0 pylib0 remote_quota clock0
      specialty0 world0]
    backoff_schedule [of False case_text0 pylib0 remote_quota clock0
      specialty0 world0]
    ctx_nonblank run_quota(1)
  by (auto simp add: attempt_events_def remote_quota_def world0_def)

text \<open>
  C3. A result that \<open>analyze_case\<close> returns is the value parsed from the response of some
  attempt with the list under \<open>diagnosticos\<close> cut to its first five entries, so the list
  has at most five entries; the entries themselves, with their probabilities, are what
  the parser delivered. \<open>validate_diagnosticos\<close>, which the pipeline does not call,
  accepts such a list only when every entry has a probability that is a number, not
  below 0 and not above 100.
\<close>

theorem analysis_result_diagnoses:
  "fst (analyze_case L configured remote clock ctx specialty max_retries w) = (Some r, None) \<longrightarrow>
     (\<exists>n body parsed ds.
        remote n = Returns (Response (Some body)) \<and>
        parse_json_response L body = Some parsed \<and>
        diagnosticos_of parsed = Some ds \<and>
        diagnosticos_of r = Some (take 5 ds) \<and>
        length (take 5 ds) \<le> 5 \<and>
        (fst (validate_diagnosticos (JList (take 5 ds))) \<longrightarrow>
           (\<forall>d \<in> set (take 5 ds). \<exists>kvs p. d = JDict kvs \<and>
              map_of kvs (asc ''probabilidade'') = Some p \<and> probability_in_range p)))"
proof
  assume a: "fst (analyze_case L configured remote clock ctx specialty max_retries w) = (Some r, None)"
  then obtain n where n: "attempt_outcome_of L remote n = Succeeded r"
    using analyze_case_Some by blast
  then obtain response where r: "remote n = Returns response"
    "process_response L response = Succeeded r"
    by (cases "remote n") (simp_all add: attempt_outcome_of_def)
  then obtain body parsed where t: "response = Response (Some body)"
    "parse_json_response L body = Some parsed" "check_structure L parsed = Inr r"
    using process_response_Succeeded by blast
  then obtain ds where ds: "diagnosticos_of parsed = Some ds" "diagnosticos_of r = Some (take 5 ds)"
    using check_structure_Inr by blast
  show "\<exists>n body parsed ds.
        remote n = Returns (Response (Some body)) \<and>
        parse_json_response L body = Some parsed \<and>
        diagnosticos_of parsed = Some ds \<and>
        diagnosticos_of r = Some (take 5 ds) \<and>
        length (take 5 ds) \<le> 5 \<and>
        (fst (validate_diagnosticos (JList (take 5 ds))) \<longrightarrow>
           (\<forall>d \<in> set (take 5 ds). \<exists>kvs p. d = JDict kvs \<and>
              map_of kvs (asc ''probabilidade'') = Some p \<and> probability_in_range p))"
    using r(1) t(1,2) ds validate_diagnosticos_ok [of "take 5 ds"]
    by (intro exI [of _ n] exI [of _ body] exI [of _ parsed] exI [of _ ds]) simp
qed

theorem analysis_result_diagnoses_witness:
  "fst (analyze_case pylib0 True remote_six clock0 case_text0 specialty0 3 world0) =
     (Some (JDict [(asc ''diagnosticos'', JList (take 5 six_diagnoses))]), None) \<and>
   length six_diagnoses = 6 \<and>
   length (take 5 six_diagnoses) = 5 \<and>
   fst (validate_diagnosticos (JList (take 5 six_diagnoses))) \<and>
   probability_in_range (JInt 60) \<and> probability_in_range (JInt 50) \<and>
   probability_in_range (JInt 40) \<and> probability_in_range (JInt 30) \<and>
   probability_in_range (JInt 20)"
proof -
  have len: "length six_diagnoses = 6"
    by (simp add: six_diagnoses_def)
  have d: "diagnosticos_of (JDict [(asc ''diagnosticos'', JList six_diagnoses)]) = Some six_diagnoses"
    by (simp add: diagnosticos_of_def)
  show ?thesis
    using analysis_result_diagnoses [of pylib0 True remote_six clock0 case_text0 specialty0 3 world0
        "JDict [(asc ''diagnosticos'', JList (take 5 six_diagnoses))]"]
      run_six validate_five len d
    by (auto simp add: remote_six_def parse_six take_six diagnosis_def)
qed

text \<open>
  The pipeline returns a diagnosis with the probability 150 as the endpoint sent it;
  \<open>validate_diagnosticos\<close> would reject it.
\<close>

theorem analysis_result_probability_counterexample:
  "fst (analyze_case pylib0 True remote_complete clock0 case_text0 specialty0 3 world0) =
     (Some (JDict [(asc ''diagnosticos'', JList [diagnosis_150])]), None) \<and>
   diagnosticos_of (JDict [(asc ''diagnosticos'', JList [diagnosis_150])]) = Some [diagnosis_150] \<and>
   diagnosis_150 = JDict [(asc ''nome'', JStr (asc ''A'')), (asc ''probabilidade'', JInt 150)] \<and>
   \<not> (150 :: int) \<le> 100 \<and>
   \<not> probability_in_range (JInt 150) \<and>
   \<not> fst (validate_diagnosticos (JList [diagnosis_150]))"
  by (simp add: run_complete diagnosticos_of_def)
     (simp add: diagnosis_150_def probability_in_range_def validate_diagnosticos_def Let_def)

text \<open>
  C9. \<open>analyze_case\<close> always returns a pair: a result and no error, or no result and a
  non-empty error message. When every attempt fails, the message is the classifier's
  message for the exception of the last attempt or, when the response of the last attempt
  did not parse, the fixed text \<open>msg_parse_failed\<close>.
\<close>

theorem analyze_case_returns_pair:
  "((\<exists>r. fst (analyze_case L configured remote clock ctx specialty max_retries w) = (Some r, None)) \<or>
    (\<exists>m. fst (analyze_case L configured remote clock ctx specialty max_retries w) = (None, Some m)
       \<and> m \<noteq> [])) \<and>
   (configured \<and> str_strip ctx \<noteq> [] \<and> 0 < max_retries \<and>
    (\<forall>k. int k < max_retries \<longrightarrow> \<not> is_success (attempt_outcome_of L remote k)) \<longrightarrow>
      (case attempt_outcome_of L remote (nat (max_retries - 1)) of
         Failed e \<Rightarrow>
           fst (analyze_case L configured remote clock ctx specialty max_retries w) =
             (None, Some (get_friendly_error_message (str_lower L) (exn_str e)))
       | ParseFailed \<Rightarrow>
           fst (analyze_case L configured remote clock ctx specialty max_retries w) =
             (None, Some msg_parse_failed)
       | Succeeded r \<Rightarrow> False))"
proof -
  let ?R = "analyze_case L configured remote clock ctx specialty max_retries w"
  have pair: "(\<exists>r. fst ?R = (Some r, None)) \<or> (\<exists>m. fst ?R = (None, Some m) \<and> m \<noteq> [])"
  proof (cases "configured \<and> str_strip ctx \<noteq> []")
    case False
    then show ?thesis
      using analyze_case_early [of configured ctx L remote clock specialty max_retries w] by blast
  next
    case True
    then have eq: "?R = retry_loop L remote clock max_retries 0 w"
      by (simp add: analyze_case_loop)
    show ?thesis
    proof (cases "0 < max_retries")
      case False
      then show ?thesis
        unfolding eq by (simp add: retry_loop_none pipeline_messages_nonempty)
    next
      case pos: True
      then obtain n where
        "fst ?R =
          (case attempt_outcome_of L remote n of
             Succeeded r \<Rightarrow> (Some r, None)
           | ParseFailed \<Rightarrow> (None, Some (final_message L ParseFailed))
           | Failed e \<Rightarrow> (None, Some (final_message L (Failed e))))"
        using retry_loop_run [of 0 max_retries L remote clock w] unfolding eq by auto
      then show ?thesis
        by (cases "attempt_outcome_of L remote n")
           (simp_all add: pipeline_messages_nonempty friendly_nonempty)
    qed
  qed
  have last: "(case attempt_outcome_of L remote (nat (max_retries - 1)) of
         Failed e \<Rightarrow> fst ?R = (None, Some (get_friendly_error_message (str_lower L) (exn_str e)))
       | ParseFailed \<Rightarrow> fst ?R = (None, Some msg_parse_failed)
       | Succeeded r \<Rightarrow> False)"
    if a: "configured \<and> str_strip ctx \<noteq> [] \<and> 0 < max_retries \<and>
      (\<forall>k. int k < max_retries \<longrightarrow> \<not> is_success (attempt_outcome_of L remote k))"
  proof -
    from a have eq: "?R = retry_loop L remote clock max_retries 0 w"
      by (simp add: analyze_case_loop)
    from a obtain n where n: "int n < max_retries"
      "is_success (attempt_outcome_of L remote n) \<or> int n = max_retries - 1"
      "fst ?R =
          (case attempt_outcome_of L remote n of
             Succeeded r \<Rightarrow> (Some r, None)
           | ParseFailed \<Rightarrow> (None, Some (final_message L ParseFailed))
           | Failed e \<Rightarrow> (None, Some (final_message L (Failed e))))"
      using retry_loop_run [of 0 max_retries L remote clock w] unfolding eq by auto
    from a n(1) have ns: "\<not> is_success (attempt_outcome_of L remote n)" by blast
    with n(2) have "n = nat (max_retries - 1)" by simp
    with n(3) ns show ?thesis
      by (cases "attempt_outcome_of L remote n") simp_all
  qed
  show ?thesis
    using pair last by blast
qed

theorem analyze_case_returns_pair_witness:
  "str_strip case_text0 \<noteq> [] \<and>
   \<not> is_success (attempt_outcome_of pylib0 remote_quota 0) \<and>
   \<not> is_success (attempt_outcome_of pylib0 remote_quota 1) \<and>
   \<not> is_success (attempt_outcome_of pylib0 remote_quota 2) \<and>
   attempt_outcome_of pylib0 remote_quota (nat (3 - 1)) =
     Failed (Exn OtherException (asc ''429 Quota exceeded'')) \<and>
   fst (analyze_case pylib0 True remote_quota clock0 case_text0 specialty0 3 world0) =
     (None, Some (get_friendly_error_message ascii_lower (asc ''429 Quota exceeded''))) \<and>
   get_friendly_error_message ascii_lower (asc ''429 Quota exceeded'') = msg_quota"
  using analyze_case_returns_pair [of pylib0 True remote_quota clock0 case_text0 specialty0 3 world0]
    ctx_nonblank friendly_quota
  by (simp add: outcome_quota lib0)

text \<open>
  After three responses that do not parse the message is the fixed text, which is none
  of the classifier's messages: for prose, and for a cut response whose repaired form has
  a number under \<open>diagnosticos\<close>.
\<close>

theorem analyze_case_parse_failure_counterexample:
  "fst (analyze_case pylib0 True remote_prose clock0 case_text0 specialty0 3 world0) =
     (None, Some msg_parse_failed) \<and>
   fst (analyze_case pylib0 True remote_number clock0 case_text0 specialty0 3 world0) =
     (None, Some (asc ''Falha ao parsear resposta ap'' @ [243] @ asc ''s m'' @ [250] @
                  asc ''ltiplas tentativas'')) \<and>
   msg_parse_failed \<notin>
     {msg_api_key, msg_quota, msg_rate_limit, msg_timeout, msg_connection, msg_permission,
      msg_not_found, msg_invalid_request} \<and>
   \<not> prefix msg_generic_prefix msg_parse_failed"
  by (simp add: run_prose run_number)
     (simp add: msg_parse_failed_def msg_api_key_def msg_quota_def msg_rate_limit_def
      msg_timeout_def msg_connection_def msg_permission_def msg_not_found_def
      msg_invalid_request_def msg_generic_prefix_def)

subsection \<open>The other callers of the endpoint\<close>

lemma last_set_sleeps: "last_set (map Sleep ss) x = x"
  by (induction ss) auto

lemma sleep_all_trace: "trace (sleep_all ss w) = trace w @ map Sleep ss"
  unfolding sleep_all_def by (induction ss arbitrary: w) (simp_all add: sleep_def)

lemma sleep_all_last: "last_api_call (sleep_all ss w) = last_api_call w"
  unfolding sleep_all_def by (induction ss arbitrary: w) (simp_all add: sleep_def)

lemma sleep_all_simps: "sleep_all [] w = w" "sleep_all [s] w = sleep s w"
  by (simp_all add: sleep_all_def)

lemma call_endpoint_trace:
  "trace (snd (call_endpoint remote clock attempt w)) = trace w @ attempt_events remote clock attempt"
  by (simp add: call_endpoint_def attempt_events_def Let_def split: remote_outcome.splits)

lemma call_endpoint_last:
  "last_api_call (snd (call_endpoint remote clock attempt w)) =
     last_set (attempt_events remote clock attempt) (last_api_call w)"
  by (simp add: call_endpoint_def attempt_events_def Let_def split: remote_outcome.splits)

lemma call_endpoint_fst: "fst (call_endpoint remote clock attempt w) = remote attempt"
  by (simp add: call_endpoint_def Let_def split: remote_outcome.splits)

lemma run_events_with_same:
  "run_events_with gap remote clock n n = attempt_events remote clock n"
  by (simp add: run_events_with_def)

lemma run_events_with_step:
  "a < n \<Longrightarrow> run_events_with gap remote clock a n =
     attempt_events remote clock a @ map Sleep (gap a) @ run_events_with gap remote clock (Suc a) n"
  by (simp add: run_events_with_def upt_conv_Cons)

lemma run_events_with_Suc:
  "a \<le> n \<Longrightarrow> run_events_with gap remote clock a (Suc n) =
     run_events_with gap remote clock a n @ map Sleep (gap n) @ attempt_events remote clock (Suc n)"
  by (simp add: run_events_with_def)

lemma last_set_run_events_with:
  "last_set (run_events_with gap remote clock 0 n) x =
     (case last_returned remote n of Some k \<Rightarrow> Some (clock k) | None \<Rightarrow> x)"
proof (induction n)
  case 0
  show ?case
    by (simp add: run_events_with_same last_set_attempt_events split: remote_outcome.splits)
next
  case (Suc n)
  show ?case
    using Suc.IH
    by (simp add: run_events_with_Suc last_set_append last_set_attempt_events last_set_sleeps
        split: remote_outcome.splits)
qed

lemma loop_run:
  fixes F :: "nat \<Rightarrow> world \<Rightarrow> 'r \<times> world"
  assumes step: "\<And>attempt w. int attempt < max_retries \<Longrightarrow>
      snd (F attempt w) = snd (call_endpoint remote clock attempt w) \<or>
      (int attempt < max_retries - 1 \<and>
       F attempt w =
         F (Suc attempt) (sleep_all (gap attempt) (snd (call_endpoint remote clock attempt w))))"
    and lt: "int attempt < max_retries"
  shows "\<exists>n. attempt \<le> n \<and> int n < max_retries \<and>
     trace (snd (F attempt w)) = trace w @ run_events_with gap remote clock attempt n \<and>
     last_api_call (snd (F attempt w)) =
       last_set (run_events_with gap remote clock attempt n) (last_api_call w)"
  using lt
proof (induction "nat (max_retries - 1 - int attempt)" arbitrary: attempt w)
  case 0
  then have "\<not> int attempt < max_retries - 1" by simp
  with step [OF "0.prems", of w]
  have "snd (F attempt w) = snd (call_endpoint remote clock attempt w)" by blast
  then show ?case
    using "0.prems"
    by (intro exI [of _ attempt])
       (simp add: run_events_with_same call_endpoint_trace call_endpoint_last)
next
  case (Suc d)
  let ?w = "snd (call_endpoint remote clock attempt w)"
  from step [OF Suc.prems, of w] show ?case
  proof
    assume "snd (F attempt w) = ?w"
    then show ?thesis
      using Suc.prems
      by (intro exI [of _ attempt])
         (simp add: run_events_with_same call_endpoint_trace call_endpoint_last)
  next
    let ?w' = "sleep_all (gap attempt) ?w"
    assume a: "int attempt < max_retries - 1 \<and> F attempt w = F (Suc attempt) ?w'"
    then have eq: "F attempt w = F (Suc attempt) ?w'" by blast
    have d: "d = nat (max_retries - 1 - int (Suc attempt))"
      using Suc.hyps(2) by simp
    have lt': "int (Suc attempt) < max_retries"
      using a by simp
    obtain n where n: "Suc attempt \<le> n" "int n < max_retries"
      "trace (snd (F (Suc attempt) ?w')) =
         trace ?w' @ run_events_with gap remote clock (Suc attempt) n"
      "last_api_call (snd (F (Suc attempt) ?w')) =
         last_set (run_events_with gap remote clock (Suc attempt) n) (last_api_call ?w')"
      using Suc.hyps(1) [OF d lt', of ?w'] by blast
    have an: "attempt < n" using n(1) by simp
    have t: "trace (snd (F attempt w)) = trace w @ run_events_with gap remote clock attempt n"
      unfolding eq n(3) run_events_with_step [OF an]
      by (simp add: sleep_all_trace call_endpoint_trace)
    have l: "last_api_call (snd (F attempt w)) =
        last_set (run_events_with gap remote clock attempt n) (last_api_call w)"
      unfolding eq n(4) run_events_with_step [OF an]
      by (simp add: sleep_all_last call_endpoint_last last_set_append last_set_sleeps)
    show ?thesis
      using an n(2) t l by (intro exI [of _ n]) simp
  qed
qed

lemma record_loop_step:
  assumes "int attempt < max_retries"
  shows "snd (record_loop lower remote clock max_retries attempt w) =
        snd (call_endpoint remote clock attempt w) \<or>
      (int attempt < max_retries - 1 \<and>
       record_loop lower remote clock max_retries attempt w =
         record_loop lower remote clock max_retries (Suc attempt)
           (sleep_all (gap_one attempt) (snd (call_endpoint remote clock attempt w))))"
proof -
  obtain out w' where c: "call_endpoint remote clock attempt w = (out, w')"
    by (cases "call_endpoint remote clock attempt w")
  show ?thesis
    using assms c
    by (subst (1 2) record_loop.simps)
       (auto simp: gap_one_def sleep_all_simps split: remote_outcome.splits option.splits)
qed

lemma suggestions_loop_end:
  "\<not> int attempt < max_retries \<Longrightarrow>
   suggestions_loop L remote clock max_retries attempt w = (None, w)"
  by (subst suggestions_loop.simps) simp

lemma suggestions_loop_step:
  assumes "int attempt < max_retries"
  shows "snd (suggestions_loop L remote clock max_retries attempt w) =
        snd (call_endpoint remote clock attempt w) \<or>
      (int attempt < max_retries - 1 \<and>
       suggestions_loop L remote clock max_retries attempt w =
         suggestions_loop L remote clock max_retries (Suc attempt)
           (sleep_all (gap_suggestions L remote attempt)
              (snd (call_endpoint remote clock attempt w))))"
proof -
  obtain out w' where c: "call_endpoint remote clock attempt w = (out, w')"
    by (cases "call_endpoint remote clock attempt w")
  then have out: "out = remote attempt"
    using call_endpoint_fst [of remote clock attempt w] by simp
  show ?thesis
  proof (cases "int attempt < max_retries - 1")
    case True
    then show ?thesis
      using assms c out
      by (subst (1 2) suggestions_loop.simps)
         (auto simp: gap_suggestions_def sleep_all_simps
            split: remote_outcome.splits suggestions_outcome.splits)
  next
    case False
    then have e: "suggestions_loop L remote clock max_retries (Suc attempt) w' = (None, w')"
      by (intro suggestions_loop_end) simp
    show ?thesis
      using assms c out False e
      by (subst suggestions_loop.simps)
         (auto split: remote_outcome.splits suggestions_outcome.splits)
  qed
qed

lemma record_loop_end:
  "\<not> int attempt < max_retries \<Longrightarrow>
   record_loop lower remote clock max_retries attempt w = ((None, Some msg_record_unknown), w)"
  by (subst record_loop.simps) simp

lemma generate_traditional_record_run:
  "(\<not> configured \<or> max_retries \<le> 0 \<longrightarrow>
      snd (generate_traditional_record lower configured remote clock max_retries w) = w) \<and>
   (configured \<and> 0 < max_retries \<longrightarrow>
      (\<exists>n. int n < max_retries \<and>
         trace (snd (generate_traditional_record lower configured remote clock max_retries w)) =
           trace w @ run_events_with gap_one remote clock 0 n \<and>
         last_api_call (snd (generate_traditional_record lower configured remote clock max_retries w)) =
           (case last_returned remote n of
              Some k \<Rightarrow> Some (clock k)
            | None \<Rightarrow> last_api_call w)))"
proof (intro conjI impI)
  assume "\<not> configured \<or> max_retries \<le> 0"
  then show "snd (generate_traditional_record lower configured remote clock max_retries w) = w"
    by (auto simp: generate_traditional_record_def record_loop_end)
next
  assume a: "configured \<and> 0 < max_retries"
  then have lt: "int 0 < max_retries" by simp
  have eq: "generate_traditional_record lower configured remote clock max_retries w =
      record_loop lower remote clock max_retries 0 w"
    using a by (simp add: generate_traditional_record_def)
  obtain n where "int n < max_retries"
    "trace (snd (record_loop lower remote clock max_retries 0 w)) =
       trace w @ run_events_with gap_one remote clock 0 n"
    "last_api_call (snd (record_loop lower remote clock max_retries 0 w)) =
       last_set (run_events_with gap_one remote clock 0 n) (last_api_call w)"
    using loop_run [of max_retries "record_loop lower remote clock max_retries" remote clock
        gap_one 0 w, OF record_loop_step lt]
    by blast
  then show "\<exists>n. int n < max_retries \<and>
         trace (snd (generate_traditional_record lower configured remote clock max_retries w)) =
           trace w @ run_events_with gap_one remote clock 0 n \<and>
         last_api_call (snd (generate_traditional_record lower configured remote clock max_retries w)) =
           (case last_returned remote n of
              Some k \<Rightarrow> Some (clock k)
            | None \<Rightarrow> last_api_call w)"
    unfolding eq by (intro exI [of _ n]) (simp add: last_set_run_events_with)
qed

lemma generate_suggestions_run:
  "(\<not> prepared \<or> max_retries \<le> 0 \<longrightarrow>
      snd (generate_suggestions L prepared remote clock max_retries w) = w) \<and>
   (prepared \<and> 0 < max_retries \<longrightarrow>
      (\<exists>n. int n < max_retries \<and>
         trace (snd (generate_suggestions L prepared remote clock max_retries w)) =
           trace w @ run_events_with (gap_suggestions L remote) remote clock 0 n \<and>
         last_api_call (snd (generate_suggestions L prepared remote clock max_retries w)) =
           (case last_returned remote n of
              Some k \<Rightarrow> Some (clock k)
            | None \<Rightarrow> last_api_call w)))"
proof (intro conjI impI)
  assume "\<not> prepared \<or> max_retries \<le> 0"
  then show "snd (generate_suggestions L prepared remote clock max_retries w) = w"
    by (auto simp: generate_suggestions_def suggestions_loop_end)
next
  assume a: "prepared \<and> 0 < max_retries"
  then have lt: "int 0 < max_retries" by simp
  have eq: "generate_suggestions L prepared remote clock max_retries w =
      suggestions_loop L remote clock max_retries 0 w"
    using a by (simp add: generate_suggestions_def)
  obtain n where "int n < max_retries"
    "trace (snd (suggestions_loop L remote clock max_retries 0 w)) =
       trace w @ run_events_with (gap_suggestions L remote) remote clock 0 n"
    "last_api_call (snd (suggestions_loop L remote clock max_retries 0 w)) =
       last_set (run_events_with (gap_suggestions L remote) remote clock 0 n) (last_api_call w)"
    using loop_run [of max_retries "suggestions_loop L remote clock max_retries" remote clock
        "gap_suggestions L remote" 0 w, OF suggestions_loop_step lt]
    by blast
  then show "\<exists>n. int n < max_retries \<and>
         trace (snd (generate_suggestions L prepared remote clock max_retries w)) =
           trace w @ run_events_with (gap_suggestions L remote) remote clock 0 n \<and>
         last_api_call (snd (generate_suggestions L prepared remote clock max_retries w)) =
           (case last_returned remote n of
              Some k \<Rightarrow> Some (clock k)
            | None \<Rightarrow> last_api_call w)"
    unfolding eq by (intro exI [of _ n]) (simp add: last_set_run_events_with)
qed

lemma record_mixed:
  "generate_traditional_record ascii_lower True remote_mixed clock0 2 world0 =
     ((Some txt_prose, None),
      \<lparr>last_api_call = Some (clock0 1),
       trace = [Generate 0, Sleep 1, Generate 1, SetLastApiCall (clock0 1)]\<rparr>)"
proof -
  have s: "str_strip txt_prose = txt_prose" "txt_prose \<noteq> []"
    by (simp_all add: txt_prose_def str_strip_def py_isspace_def)
  show ?thesis
    by (simp add: generate_traditional_record_def record_loop.simps call_endpoint_def
        remote_mixed_def sleep_def world0_def Let_def s)
qed

lemma suggestions_mixed:
  "generate_suggestions pylib0 True remote_mixed clock0 2 world0 =
     (None,
      \<lparr>last_api_call = Some (clock0 1),
       trace = [Generate 0, Sleep 1, Generate 1, SetLastApiCall (clock0 1)]\<rparr>)"
proof -
  have s: "txt_prose \<noteq> []"
    by (simp add: txt_prose_def)
  show ?thesis
    by (simp add: generate_suggestions_def suggestions_loop.simps call_endpoint_def
        remote_mixed_def sleep_def world0_def Let_def s process_suggestions_def parse_prose)
qed

lemma analyze_case_run:
  "(\<not> configured \<or> str_strip ctx = [] \<or> max_retries \<le> 0 \<longrightarrow>
      snd (analyze_case L configured remote clock ctx specialty max_retries w) = w) \<and>
   (configured \<and> str_strip ctx \<noteq> [] \<and> 0 < max_retries \<longrightarrow>
      (\<exists>n. int n < max_retries \<and>
         trace (snd (analyze_case L configured remote clock ctx specialty max_retries w)) =
           trace w @ run_events remote clock 0 n \<and>
         last_api_call (snd (analyze_case L configured remote clock ctx specialty max_retries w)) =
           (case last_returned remote n of
              Some k \<Rightarrow> Some (clock k)
            | None \<Rightarrow> last_api_call w)))"
proof (intro conjI impI)
  let ?R = "analyze_case L configured remote clock ctx specialty max_retries w"
  assume a: "\<not> configured \<or> str_strip ctx = [] \<or> max_retries \<le> 0"
  show "snd ?R = w"
  proof (cases "\<not> configured \<or> str_strip ctx = []")
    case True
    then show ?thesis
      using analyze_case_early [of configured ctx L remote clock specialty max_retries w] by simp
  next
    case False
    with a have "\<not> int 0 < max_retries" by simp
    then have "retry_loop L remote clock max_retries 0 w = ((None, Some msg_unknown), w)"
      by (rule retry_loop_none)
    with False show ?thesis
      by (simp add: analyze_case_loop)
  qed
next
  let ?R = "analyze_case L configured remote clock ctx specialty max_retries w"
  assume a: "configured \<and> str_strip ctx \<noteq> [] \<and> 0 < max_retries"
  then have eq: "?R = retry_loop L remote clock max_retries 0 w"
    by (simp add: analyze_case_loop)
  from a obtain n where n: "int n < max_retries"
    "trace (snd ?R) = trace w @ run_events remote clock 0 n"
    "last_api_call (snd ?R) = last_set (run_events remote clock 0 n) (last_api_call w)"
    using retry_loop_run [of 0 max_retries L remote clock w] unfolding eq by auto
  show "\<exists>n. int n < max_retries \<and>
         trace (snd ?R) = trace w @ run_events remote clock 0 n \<and>
         last_api_call (snd ?R) =
           (case last_returned remote n of
              Some k \<Rightarrow> Some (clock k)
            | None \<Rightarrow> last_api_call w)"
    using n by (intro exI [of _ n]) (simp add: last_set_run_events)
qed

text \<open>
  C4. In \<open>analyze_case\<close>, \<open>generate_traditional_record\<close> and \<open>generate_suggestions\<close>, a
  call that is refused before the loop leaves the world as it is. Any other call runs the
  attempts 0 to \<open>n\<close>; an attempt whose call of the endpoint returns writes \<open>last_api_call\<close>
  right after the call, before the response is looked at and so whatever becomes of the
  attempt, and an attempt whose call raises writes nothing. At the end \<open>last_api_call\<close> is
  the clock reading of the last attempt whose call returned, or what it was before when
  every call raised.
\<close>

theorem last_api_call_update:
  "(\<forall>k. attempt_events remote clock k =
      (case remote k of
         Raises e \<Rightarrow> [Generate k]
       | Returns response \<Rightarrow> [Generate k, SetLastApiCall (clock k)])) \<and>
   (\<not> configured \<or> str_strip ctx = [] \<or> max_retries \<le> 0 \<longrightarrow>
      snd (analyze_case L configured remote clock ctx specialty max_retries w) = w) \<and>
   (configured \<and> str_strip ctx \<noteq> [] \<and> 0 < max_retries \<longrightarrow>
      (\<exists>n. int n < max_retries \<and>
         trace (snd (analyze_case L configured remote clock ctx specialty max_retries w)) =
           trace w @ run_events remote clock 0 n \<and>
         last_api_call (snd (analyze_case L configured remote clock ctx specialty max_retries w)) =
           (case last_returned remote n of
              Some k \<Rightarrow> Some (clock k)
            | None \<Rightarrow> last_api_call w))) \<and>
   (\<not> configured \<or> max_retries \<le> 0 \<longrightarrow>
      snd (generate_traditional_record (str_lower L) configured remote clock max_retries w) = w) \<and>
   (configured \<and> 0 < max_retries \<longrightarrow>
      (\<exists>n. int n < max_retries \<and>
         trace (snd (generate_traditional_record (str_lower L) configured remote clock
                  max_retries w)) =
           trace w @ run_events_with gap_one remote clock 0 n \<and>
         last_api_call (snd (generate_traditional_record (str_lower L) configured remote clock
                  max_retries w)) =
           (case last_returned remote n of
              Some k \<Rightarrow> Some (clock k)
            | None \<Rightarrow> last_api_call w))) \<and>
   (\<not> prepared \<or> max_retries \<le> 0 \<longrightarrow>
      snd (generate_suggestions L prepared remote clock max_retries w) = w) \<and>
   (prepared \<and> 0 < max_retries \<longrightarrow>
      (\<exists>n. int n < max_retries \<and>
         trace (snd (generate_suggestions L prepared remote clock max_retries w)) =
           trace w @ run_events_with (gap_suggestions L remote) remote clock 0 n \<and>
         last_api_call (snd (generate_suggestions L prepared remote clock max_retries w)) =
           (case last_returned remote n of
              Some k \<Rightarrow> Some (clock k)
            | None \<Rightarrow> last_api_call w)))"
proof -
  have ev: "\<forall>k. attempt_events remote clock k =
      (case remote k of
         Raises e \<Rightarrow> [Generate k]
       | Returns response \<Rightarrow> [Generate k, SetLastApiCall (clock k)])"
    by (simp add: attempt_events_def)
  show ?thesis
    using ev analyze_case_run [of configured ctx max_retries L remote clock specialty w]
      generate_traditional_record_run [of configured max_retries "str_lower L" remote clock w]
      generate_suggestions_run [of prepared max_retries L remote clock w]
    by blast
qed

theorem last_api_call_update_witness:
  "str_strip case_text0 \<noteq> [] \<and> (0 :: int) < 2 \<and>
   (\<exists>n. int n < 2 \<and>
      trace (snd (analyze_case pylib0 True remote_mixed clock0 case_text0 specialty0 2 world0)) =
        trace world0 @ run_events remote_mixed clock0 0 n \<and>
      last_api_call (snd (analyze_case pylib0 True remote_mixed clock0 case_text0 specialty0 2 world0)) =
        (case last_returned remote_mixed n of
           Some k \<Rightarrow> Some (clock0 k)
         | None \<Rightarrow> last_api_call world0)) \<and>
   (\<exists>n. int n < 2 \<and>
      trace (snd (generate_traditional_record (str_lower pylib0) True remote_mixed clock0 2 world0)) =
        trace world0 @ run_events_with gap_one remote_mixed clock0 0 n \<and>
      last_api_call (snd (generate_traditional_record (str_lower pylib0) True remote_mixed clock0 2
          world0)) =
        (case last_returned remote_mixed n of
           Some k \<Rightarrow> Some (clock0 k)
         | None \<Rightarrow> last_api_call world0)) \<and>
   (\<exists>n. int n < 2 \<and>
      trace (snd (generate_suggestions pylib0 True remote_mixed clock0 2 world0)) =
        trace world0 @ run_events_with (gap_suggestions pylib0 remote_mixed) remote_mixed clock0 0 n \<and>
      last_api_call (snd (generate_suggestions pylib0 True remote_mixed clock0 2 world0)) =
        (case last_returned remote_mixed n of
           Some k \<Rightarrow> Some (clock0 k)
         | None \<Rightarrow> last_api_call world0)) \<and>
   snd (analyze_case pylib0 True remote_mixed clock0 case_text0 specialty0 3 world0) =
     \<lparr>last_api_call = Some (clock0 2),
      trace = [Generate 0, Sleep 1, Generate 1, SetLastApiCall (clock0 1), Sleep 2,
               Generate 2, SetLastApiCall (clock0 2)]\<rparr> \<and>
   snd (generate_traditional_record ascii_lower True remote_mixed clock0 2 world0) =
     \<lparr>last_api_call = Some (clock0 1),
      trace = [Generate 0, Sleep 1, Generate 1, SetLastApiCall (clock0 1)]\<rparr> \<and>
   snd (generate_suggestions pylib0 True remote_mixed clock0 2 world0) =
     \<lparr>last_api_call = Some (clock0 1),
      trace = [Generate 0, Sleep 1, Generate 1, SetLastApiCall (clock0 1)]\<rparr> \<and>
   snd (analyze_case pylib0 False remote_mixed clock0 case_text0 specialty0 2 world0) = world0"
proof -
  have two: "(0 :: int) < 2" by simp
  note t = last_api_call_update [where L = pylib0 and remote = remote_mixed and clock = clock0
      and ctx = case_text0 and specialty = specialty0 and max_retries = 2 and w = world0
      and configured = True and prepared = True]
  note f = last_api_call_update [where L = pylib0 and remote = remote_mixed and clock = clock0
      and ctx = case_text0 and specialty = specialty0 and max_retries = 2 and w = world0
      and configured = False and prepared = False]
  have a: "\<exists>n. int n < 2 \<and>
      trace (snd (analyze_case pylib0 True remote_mixed clock0 case_text0 specialty0 2 world0)) =
        trace world0 @ run_events remote_mixed clock0 0 n \<and>
      last_api_call (snd (analyze_case pylib0 True remote_mixed clock0 case_text0 specialty0 2 world0)) =
        (case last_returned remote_mixed n of
           Some k \<Rightarrow> Some (clock0 k)
         | None \<Rightarrow> last_api_call world0)"
    using t ctx_nonblank two by blast
  have b: "\<exists>n. int n < 2 \<and>
      trace (snd (generate_traditional_record (str_lower pylib0) True remote_mixed clock0 2 world0)) =
        trace world0 @ run_events_with gap_one remote_mixed clock0 0 n \<and>
      last_api_call (snd (generate_traditional_record (str_lower pylib0) True remote_mixed clock0 2
          world0)) =
        (case last_returned remote_mixed n of
           Some k \<Rightarrow> Some (clock0 k)
         | None \<Rightarrow> last_api_call world0)"
    using t two by blast
  have c: "\<exists>n. int n < 2 \<and>
      trace (snd (generate_suggestions pylib0 True remote_mixed clock0 2 world0)) =
        trace world0 @ run_events_with (gap_suggestions pylib0 remote_mixed) remote_mixed clock0 0 n \<and>
      last_api_call (snd (generate_suggestions pylib0 True remote_mixed clock0 2 world0)) =
        (case last_returned remote_mixed n of
           Some k \<Rightarrow> Some (clock0 k)
         | None \<Rightarrow> last_api_call world0)"
    using t two by blast
  have d: "snd (analyze_case pylib0 False remote_mixed clock0 case_text0 specialty0 2 world0) = world0"
    using f by blast
  show ?thesis
    using ctx_nonblank two a b c d trace_mixed record_mixed suggestions_mixed by simp
qed

text \<open>
  Three attempts reach an endpoint that is out of quota and raises: \<open>last_api_call\<close> is
  never written.
\<close>

theorem last_api_call_raise_counterexample:
  "remote_quota 0 = Raises (Exn OtherException (asc ''429 Quota exceeded'')) \<and>
   last_api_call world0 = None \<and>
   trace (snd (analyze_case pylib0 True remote_quota clock0 case_text0 specialty0 3 world0)) =
     [Generate 0, Sleep 1, Generate 1, Sleep 2, Generate 2] \<and>
   last_api_call (snd (analyze_case pylib0 True remote_quota clock0 case_text0 specialty0 3 world0)) =
     None"
proof -
  have a: "last_api_call world0 = None"
    by (simp add: world0_def)
  show ?thesis
    using a by (simp add: trace_quota remote_quota_def)
qed

end
